(* ===== verification/CT_Prelude.thy ===== *)
theory CT_Prelude
  imports Main "HOL-Library.Word" "HOL-Library.AList" "HOL-Library.List_Lexorder"
    "HOL-Library.Char_ord" "HOL-Library.Sublist" "HOL-Library.Multiset"
begin

text \<open>
  Shared vocabulary of the development: errors and results of Go functions, Go maps, byte
  strings, the functions of the packages \<^verbatim>\<open>strings\<close>, \<^verbatim>\<open>sort\<close> and \<^verbatim>\<open>strconv\<close> that the
  repository calls, and the generic lemmas the component theories share.
\<close>

section \<open>Automation\<close>

text \<open>
  \<open>go_str\<close> collects the rewrite rules about strings and their splitting, \<open>go_codec\<close> the
  round-trip equations of the encoders, \<open>go_map\<close> the rules about Go maps.
\<close>

named_theorems go_str
named_theorems go_codec
named_theorems go_map

section \<open>Errors and results\<close>

text \<open>
  A Go \<^verbatim>\<open>error\<close>. \<open>Errorf\<close> is a value the repository builds with \<^verbatim>\<open>fmt.Errorf\<close>,
  \<open>ParseError\<close> one of package \<^verbatim>\<open>time\<close>, \<open>CorruptInput\<close>, \<open>InvalidByte\<close> and \<open>ErrLength\<close> those
  of the packages \<^verbatim>\<open>base64\<close> and \<^verbatim>\<open>hex\<close>, \<open>JsonError\<close> one of \<^verbatim>\<open>encoding/json\<close>, and
  \<open>External\<close> an error that a third-party client or a service reports.
\<close>

datatype go_error =
    Errorf string
  | ParseError string
  | CorruptInput
  | InvalidByte char
  | ErrLength
  | JsonError string
  | External string

text \<open>
  A function with results \<^verbatim>\<open>(T, error)\<close> is modelled by a pair when the code lets a caller see
  a value next to an error, and by a sum when the value of the error case is the zero value.
  A call that may panic or end the process with \<^verbatim>\<open>glog.Fatalf\<close> returns an \<open>outcome\<close>.
\<close>

type_synonym 'a ret = "'a \<times> go_error option"
type_synonym 'a res = "go_error + 'a"

datatype 'a outcome = Done 'a | Panic string

fun outcome_bind :: "'a outcome \<Rightarrow> ('a \<Rightarrow> 'b outcome) \<Rightarrow> 'b outcome" where
  "outcome_bind (Done x) f = f x"
| "outcome_bind (Panic m) f = Panic m"

lemma outcome_bind_Done_iff:
  "outcome_bind r f = Done y \<longleftrightarrow> (\<exists>x. r = Done x \<and> f x = Done y)"
  by (cases r) auto

section \<open>Bytes and words\<close>

type_synonym byte = "8 word"
type_synonym bytes = "8 word list"

text \<open>A Go string is a sequence of bytes, so \<open>char\<close> (eight bits) and \<open>byte\<close> are interchangeable.\<close>

definition byte_char :: "byte \<Rightarrow> char" where
  "byte_char b = char_of (unat b)"

definition char_byte :: "char \<Rightarrow> byte" where
  "char_byte c = word_of_nat (of_char c)"

lemma unat_byte_less: "unat (b :: byte) < 256"
  using unsigned_less [of b] by simp

lemma of_char_less: "of_char c < (256 :: nat)"
  by simp

lemma char_byte_char [simp, go_codec]: "char_byte (byte_char b) = b"
  using unat_byte_less [of b]
  by (simp add: char_byte_def byte_char_def)

lemma byte_char_byte [simp, go_codec]: "byte_char (char_byte c) = c"
  by (simp add: char_byte_def byte_char_def unat_of_nat take_bit_eq_mod)

definition to_byte :: "nat \<Rightarrow> byte" where
  "to_byte n = word_of_nat n"

lemma to_byte_unat [simp, go_codec]: "to_byte (unat b) = b"
  by (simp add: to_byte_def)

lemma unat_to_byte [simp]: "n < 256 \<Longrightarrow> unat (to_byte n) = n"
  by (simp add: to_byte_def unat_of_nat take_bit_eq_mod)

definition bytes_of_string :: "string \<Rightarrow> bytes" where
  "bytes_of_string s = map char_byte s"

definition string_of_bytes :: "bytes \<Rightarrow> string" where
  "string_of_bytes bs = map byte_char bs"

lemma string_of_bytes_of_string [simp, go_codec]: "string_of_bytes (bytes_of_string s) = s"
  by (simp add: string_of_bytes_def bytes_of_string_def o_def)

lemma bytes_of_string_of_bytes [simp, go_codec]: "bytes_of_string (string_of_bytes b) = b"
  by (simp add: string_of_bytes_def bytes_of_string_def o_def)

lemma string_of_bytes_inject [simp]: "string_of_bytes a = string_of_bytes b \<longleftrightarrow> a = b"
  by (metis bytes_of_string_of_bytes)

lemma inj_string_of_bytes: "inj string_of_bytes"
  by (rule injI) simp

text \<open>Positions in a log are 64-bit words; below a bound they count and convert as expected.\<close>

lemma unat_index_Suc:
  fixes i E :: "64 word"
  assumes "i < E"
  shows "unat (i + 1) = Suc (unat i)"
proof -
  have "unat i < unat E" using assms by (simp add: word_less_nat_alt)
  moreover have "unat E < 2 ^ LENGTH(64)" by (rule unsigned_less)
  ultimately have "unat i + unat (1 :: 64 word) < 2 ^ LENGTH(64)" by simp
  then show ?thesis by (subst unat_add_lem [THEN iffD1]) simp_all
qed

lemma sint_small:
  assumes "unat (i :: 64 word) < 2 ^ 63"
  shows "sint i = int (unat i)"
proof -
  have "int (unat i) < int (2 ^ 63)" using assms by (simp only: of_nat_less_iff)
  then have "uint i < 2 ^ 63" by simp
  moreover have "- (2 ^ 63) \<le> uint i" by (rule order_trans [OF _ uint_nonnegative]) simp
  ultimately have "signed_take_bit 63 (uint i) = uint i" by (intro signed_take_bit_int_eq_self)
  then show ?thesis by (simp add: sint_uint)
qed

section \<open>Go maps\<close>

text \<open>
  A Go map is an association list without duplicate keys. The order in which \<^verbatim>\<open>range\<close> visits a
  map is unspecified in Go: every definition that iterates takes the order as an argument
  \<open>ord\<close>, a function that rearranges the list of entries, and its lemmas assume no more than
  \<open>rearranges ord\<close>.
\<close>

type_synonym ('k, 'v) gomap = "('k \<times> 'v) list"

definition gm_ok :: "('k, 'v) gomap \<Rightarrow> bool" where
  "gm_ok m \<longleftrightarrow> distinct (map fst m)"

abbreviation gm_get :: "('k, 'v) gomap \<Rightarrow> 'k \<Rightarrow> 'v option" where
  "gm_get m k \<equiv> map_of m k"

abbreviation gm_set :: "'k \<Rightarrow> 'v \<Rightarrow> ('k, 'v) gomap \<Rightarrow> ('k, 'v) gomap" where
  "gm_set k v m \<equiv> AList.update k v m"

abbreviation gm_del :: "'k \<Rightarrow> ('k, 'v) gomap \<Rightarrow> ('k, 'v) gomap" where
  "gm_del k m \<equiv> AList.delete k m"

lemma gm_get_set [simp, go_map]: "gm_get (gm_set k v m) k' = (if k' = k then Some v else gm_get m k')"
  by (simp add: update_conv)

lemma gm_get_del [simp, go_map]: "gm_get (gm_del k m) k' = (if k' = k then None else gm_get m k')"
  by (simp add: delete_conv')

lemma gm_ok_Nil [simp, intro]: "gm_ok []"
  by (simp add: gm_ok_def)

lemma gm_ok_set [simp, intro]: "gm_ok m \<Longrightarrow> gm_ok (gm_set k v m)"
  by (simp add: gm_ok_def distinct_update)

lemma gm_ok_del [simp, intro]: "gm_ok m \<Longrightarrow> gm_ok (gm_del k m)"
  by (simp add: gm_ok_def distinct_delete)

lemma gm_ok_filter [simp, intro]: "gm_ok m \<Longrightarrow> gm_ok (filter P m)"
  by (simp add: gm_ok_def distinct_map_filter)

lemma keys_gm_set [simp, go_map]: "fst ` set (gm_set k v m) = insert k (fst ` set m)"
  using dom_update [of k v m] by (simp add: dom_map_of_conv_image_fst)

definition rearranges :: "('a list \<Rightarrow> 'a list) \<Rightarrow> bool" where
  "rearranges ord \<longleftrightarrow> (\<forall>xs. mset (ord xs) = mset xs)"

lemma rearranges_id [simp, intro]: "rearranges (\<lambda>xs. xs)"
  by (simp add: rearranges_def)

lemma rearranges_rev [simp, intro]: "rearranges rev"
  by (simp add: rearranges_def)

lemma rearranges_set: "rearranges ord \<Longrightarrow> set (ord xs) = set xs"
  unfolding rearranges_def by (metis set_mset_mset)

lemma rearranges_distinct: "rearranges ord \<Longrightarrow> distinct (ord xs) \<longleftrightarrow> distinct xs"
  unfolding rearranges_def by (metis mset_eq_imp_distinct_iff)

lemma rearranges_length: "rearranges ord \<Longrightarrow> length (ord xs) = length xs"
  unfolding rearranges_def by (metis size_mset)

end
