(* ===== verification/Go_Strings.thy ===== *)
theory Go_Strings
  imports CT_Prelude
begin

text \<open>
  The functions of the Go packages \<^verbatim>\<open>strings\<close>, \<^verbatim>\<open>bytes\<close>, \<^verbatim>\<open>sort\<close> and
  \<^verbatim>\<open>strconv\<close> that the repository calls, on byte strings, with the facts about splitting,
  binary search and decimal printing that the component theories use.
\<close>

section \<open>Package strings\<close>

definition has_prefix :: "string \<Rightarrow> string \<Rightarrow> bool" where
  "has_prefix s p \<longleftrightarrow> prefix p s"

definition has_suffix :: "string \<Rightarrow> string \<Rightarrow> bool" where
  "has_suffix s p \<longleftrightarrow> suffix p s"

definition trim_suffix :: "string \<Rightarrow> string \<Rightarrow> string" where
  "trim_suffix s p = (if has_suffix s p then take (length s - length p) s else s)"

fun contains :: "string \<Rightarrow> string \<Rightarrow> bool" where
  "contains [] sub = (sub = [])"
| "contains (c # s) sub = (prefix sub (c # s) \<or> contains s sub)"

text \<open>\<^verbatim>\<open>strings.TrimSpace\<close> on the ASCII white space: tab, newline, \<^verbatim>\<open>\v\<close>, \<^verbatim>\<open>\f\<close>, \<^verbatim>\<open>\r\<close>, blank.\<close>

definition is_space :: "char \<Rightarrow> bool" where
  "is_space c \<longleftrightarrow> of_char c \<in> {9, 10, 11, 12, 13, 32 :: nat}"

definition trim_space :: "string \<Rightarrow> string" where
  "trim_space s = rev (dropWhile is_space (rev (dropWhile is_space s)))"

fun strings_join :: "string \<Rightarrow> string list \<Rightarrow> string" where
  "strings_join sep [] = []"
| "strings_join sep [s] = s"
| "strings_join sep (s # t # ss) = s @ sep @ strings_join sep (t # ss)"

text \<open>The text before and after the first occurrence of a separator.\<close>

fun split_first :: "string \<Rightarrow> string \<Rightarrow> (string \<times> string) option" where
  "split_first sep [] = None"
| "split_first sep (c # s) =
     (if prefix sep (c # s) then Some ([], drop (length sep) (c # s))
      else map_option (\<lambda>(a, b). (c # a, b)) (split_first sep s))"

lemma split_first_eq: "split_first sep s = Some (a, b) \<Longrightarrow> s = a @ sep @ b"
proof (induction s arbitrary: a b)
  case (Cons c s)
  then show ?case
    by (auto simp: prefix_def split: if_splits)
qed simp

text \<open>
  \<^verbatim>\<open>strings.Split\<close>. The separators of the repository are not empty; Go splits at every
  character for an empty one, which on ASCII text is the first branch.
\<close>

function (sequential) strings_split :: "string \<Rightarrow> string \<Rightarrow> string list" where
  "strings_split [] s = map (\<lambda>c. [c]) s"
| "strings_split (x # sep) s =
     (case split_first (x # sep) s of
        None \<Rightarrow> [s]
      | Some (a, b) \<Rightarrow> a # strings_split (x # sep) b)"
  by pat_completeness auto
termination
  by (relation "measure (\<lambda>(sep, s). length s)") (auto dest!: split_first_eq)

declare strings_split.simps(2) [simp del]

lemma split_first_fresh_None [go_str]: "x \<notin> set s \<Longrightarrow> split_first (x # sep) s = None"
  by (induction s) auto

lemma split_first_fresh [go_str]:
  "x \<notin> set a \<Longrightarrow> split_first (x # sep) (a @ x # sep @ b) = Some (a, b)"
  by (induction a) (auto simp: prefix_def)

lemma strings_split_fresh [go_str]: "x \<notin> set s \<Longrightarrow> strings_split (x # sep) s = [s]"
  by (simp add: strings_split.simps(2) split_first_fresh_None)

lemma strings_split_step [go_str]:
  "x \<notin> set a \<Longrightarrow> strings_split (x # sep) (a @ x # sep @ b) = a # strings_split (x # sep) b"
  by (simp add: strings_split.simps(2) split_first_fresh)

lemma strings_split_nonempty: "strings_split (x # sep) s \<noteq> []"
  by (subst strings_split.simps) (auto split: option.splits)

text \<open>Splitting undoes joining when no part holds the first character of the separator.\<close>

lemma strings_split_join [go_codec]:
  assumes "ps \<noteq> []" and "\<forall>p \<in> set ps. x \<notin> set p"
  shows "strings_split (x # sep) (strings_join (x # sep) ps) = ps"
  using assms
proof (induction "x # sep" ps rule: strings_join.induct)
  case (2 s)
  then show ?case by (simp add: strings_split_fresh)
next
  case (3 s t ss)
  then show ?case by (simp add: strings_split_step)
qed simp

text \<open>And joining always undoes splitting.\<close>

lemma strings_join_Cons: "ss \<noteq> [] \<Longrightarrow> strings_join sep (s # ss) = s @ sep @ strings_join sep ss"
  by (cases ss) auto

lemma strings_join_split: "strings_join (x # sep) (strings_split (x # sep) s) = s"
proof (induction "x # sep" s rule: strings_split.induct)
  case (2 s)
  show ?case
  proof (cases "split_first (x # sep) s")
    case None
    then show ?thesis by (simp add: strings_split.simps(2))
  next
    case (Some ab)
    then obtain a b where ab: "split_first (x # sep) s = Some (a, b)" by (cases ab) auto
    have "strings_split (x # sep) s = a # strings_split (x # sep) b"
      by (simp add: strings_split.simps(2) ab)
    then have "strings_join (x # sep) (strings_split (x # sep) s)
      = a @ (x # sep) @ strings_join (x # sep) (strings_split (x # sep) b)"
      by (simp add: strings_join_Cons strings_split_nonempty)
    also have "\<dots> = s"
      using "2" [OF ab refl] split_first_eq [OF ab] by simp
    finally show ?thesis .
  qed
qed

section \<open>Package bytes and strings.Compare\<close>

definition go_compare :: "'a::linorder \<Rightarrow> 'a \<Rightarrow> int" where
  "go_compare a b = (if a < b then -1 else if a = b then 0 else 1)"

lemma go_compare_eq_0 [simp]: "go_compare a b = 0 \<longleftrightarrow> a = b"
  by (auto simp: go_compare_def)

lemma go_compare_le_0 [simp]: "go_compare a b \<le> 0 \<longleftrightarrow> a \<le> b"
  by (auto simp: go_compare_def)

lemma go_compare_ge_0 [simp]: "0 \<le> go_compare a b \<longleftrightarrow> b \<le> a"
  by (auto simp: go_compare_def)

lemma go_compare_less_0 [simp]: "go_compare a b < 0 \<longleftrightarrow> a < b"
  by (auto simp: go_compare_def)

section \<open>sort.Search\<close>

text \<open>
  Binary search over \<open>[i, j)\<close> for the least index where \<open>f\<close> holds, as \<^verbatim>\<open>sort.Search\<close>
  runs it: the midpoint is \<open>(i + j) div 2\<close> and the bounds move past or onto it.
\<close>

function search_loop :: "(nat \<Rightarrow> bool) \<Rightarrow> nat \<Rightarrow> nat \<Rightarrow> nat" where
  "search_loop f i j =
     (if i < j
      then (let h = (i + j) div 2
            in if \<not> f h then search_loop f (h + 1) j else search_loop f i h)
      else i)"
  by pat_completeness auto
termination
  by (relation "measure (\<lambda>(f, i, j). j - i)") auto

declare search_loop.simps [simp del]

definition sort_Search :: "nat \<Rightarrow> (nat \<Rightarrow> bool) \<Rightarrow> nat" where
  "sort_Search n f = search_loop f 0 n"

lemma search_loop_stop: "\<not> i < j \<Longrightarrow> search_loop f i j = i"
  by (subst search_loop.simps) simp

lemma search_loop_right:
  "i < j \<Longrightarrow> \<not> f ((i + j) div 2) \<Longrightarrow> search_loop f i j = search_loop f ((i + j) div 2 + 1) j"
  by (subst search_loop.simps) (simp add: Let_def)

lemma search_loop_left:
  "i < j \<Longrightarrow> f ((i + j) div 2) \<Longrightarrow> search_loop f i j = search_loop f i ((i + j) div 2)"
  by (subst search_loop.simps) (simp add: Let_def)

lemmas search_loop_unfold = search_loop_stop search_loop_right search_loop_left

lemma search_loop_bounds: "i \<le> j \<Longrightarrow> i \<le> search_loop f i j \<and> search_loop f i j \<le> j"
proof (induction f i j rule: search_loop.induct)
  case (1 f i j)
  consider (stop) "\<not> i < j" | (right) "i < j" "\<not> f ((i + j) div 2)"
    | (left) "i < j" "f ((i + j) div 2)" by blast
  then show ?case
  proof cases
    case stop
    with "1.prems" show ?thesis by (simp add: search_loop_stop)
  next
    case right
    have "(i + j) div 2 < j" "i \<le> (i + j) div 2" using right(1) by auto
    then show ?thesis
      using "1.IH"(1) [OF right(1) refl right(2)] right
      by (simp add: search_loop_right)
  next
    case left
    then have "(i + j) div 2 < j" "i \<le> (i + j) div 2" by auto
    then show ?thesis
      using "1.IH"(2) [OF left(1) refl] left
      by (simp add: search_loop_left)
  qed
qed

lemma sort_Search_le: "sort_Search n f \<le> n"
  using search_loop_bounds [of 0 n f] by (simp add: sort_Search_def)

text \<open>For a predicate that never turns false again, the result separates the two halves.\<close>

lemma search_loop_splits:
  assumes mono: "\<And>k l. k \<le> l \<Longrightarrow> l < n \<Longrightarrow> f k \<Longrightarrow> f l"
  shows "i \<le> j \<Longrightarrow> j \<le> n \<Longrightarrow> \<forall>k < i. \<not> f k \<Longrightarrow> \<forall>k. j \<le> k \<and> k < n \<longrightarrow> f k \<Longrightarrow>
    (\<forall>k < search_loop f i j. \<not> f k) \<and> (\<forall>k. search_loop f i j \<le> k \<and> k < n \<longrightarrow> f k)"
proof (induction "j - i" arbitrary: i j rule: less_induct)
  case less
  define h where "h = (i + j) div 2"
  show ?case
  proof (cases "i < j")
    case False
    with less.prems show ?thesis by (simp add: search_loop_stop)
  next
    case True
    then have h: "i \<le> h" "h < j" "h < n" using less.prems(2) by (auto simp: h_def)
    show ?thesis
    proof (cases "f h")
      case fh: True
      have "\<forall>k. h \<le> k \<and> k < n \<longrightarrow> f k" using mono [of h] fh by blast
      then have "(\<forall>k < search_loop f i h. \<not> f k) \<and> (\<forall>k. search_loop f i h \<le> k \<and> k < n \<longrightarrow> f k)"
        using less.prems(3) h True by (intro less.hyps) auto
      moreover have "search_loop f i j = search_loop f i h"
        using search_loop_left [of i j f] True fh by (simp add: h_def)
      ultimately show ?thesis by simp
    next
      case fh: False
      have "\<forall>k < h + 1. \<not> f k"
      proof (intro allI impI notI)
        fix k assume "k < h + 1" and "f k"
        then show False using mono [of k h] fh h(3) by simp
      qed
      then have "(\<forall>k < search_loop f (h + 1) j. \<not> f k)
          \<and> (\<forall>k. search_loop f (h + 1) j \<le> k \<and> k < n \<longrightarrow> f k)"
        using less.prems(2,4) h True by (intro less.hyps) auto
      moreover have "search_loop f i j = search_loop f (h + 1) j"
        using search_loop_right [of i j f] True fh by (simp add: h_def)
      ultimately show ?thesis by simp
    qed
  qed
qed

lemma sort_Search_splits:
  assumes "\<And>k l. k \<le> l \<Longrightarrow> l < n \<Longrightarrow> f k \<Longrightarrow> f l"
  shows "(\<forall>k < sort_Search n f. \<not> f k) \<and> (\<forall>k. sort_Search n f \<le> k \<and> k < n \<longrightarrow> f k)"
  unfolding sort_Search_def by (rule search_loop_splits) (use assms in auto)

end
