(* ===== verification/Go_Encoding.thy ===== *)
theory Go_Encoding
  imports Go_Strings
begin

text \<open>
  The encodings of the Go standard library the repository uses on identifiers: decimal
  numbers (\<^verbatim>\<open>strconv\<close>, \<^verbatim>\<open>%d\<close>), \<^verbatim>\<open>encoding/hex\<close> and the URL alphabet of
  \<^verbatim>\<open>encoding/base64\<close>, each with its decoder and the round trip.
\<close>

section \<open>Decimal numbers\<close>

definition digit_char :: "nat \<Rightarrow> char" where
  "digit_char n = char_of (48 + n)"

definition is_digit :: "char \<Rightarrow> bool" where
  "is_digit c \<longleftrightarrow> 48 \<le> (of_char c :: nat) \<and> (of_char c :: nat) \<le> 57"

definition digit_val :: "char \<Rightarrow> nat" where
  "digit_val c = of_char c - 48"

fun dec_of_nat :: "nat \<Rightarrow> string" where
  "dec_of_nat n = (if n < 10 then [digit_char n] else dec_of_nat (n div 10) @ [digit_char (n mod 10)])"

declare dec_of_nat.simps [simp del]

definition nat_of_dec :: "string \<Rightarrow> nat" where
  "nat_of_dec s = foldl (\<lambda>a c. 10 * a + digit_val c) 0 s"

lemma of_digit_char [simp]: "n < 10 \<Longrightarrow> of_char (digit_char n) = (48 + n :: nat)"
  by (simp add: digit_char_def)

lemma is_digit_char [simp, go_str]: "n < 10 \<Longrightarrow> is_digit (digit_char n)"
  by (simp add: is_digit_def)

lemma digit_val_char [simp, go_codec]: "n < 10 \<Longrightarrow> digit_val (digit_char n) = n"
  by (simp add: digit_val_def)

lemma digit_char_val [simp]: "is_digit c \<Longrightarrow> digit_char (digit_val c) = c"
  by (simp add: is_digit_def digit_val_def digit_char_def)

lemma digit_val_less [simp]: "is_digit c \<Longrightarrow> digit_val c < 10"
  by (auto simp: is_digit_def digit_val_def)

lemma digits_dec_of_nat: "\<forall>c \<in> set (dec_of_nat n). is_digit c"
proof (induction n rule: dec_of_nat.induct)
  case (1 n)
  then show ?case by (subst dec_of_nat.simps) auto
qed

lemma dec_of_nat_nonempty [simp]: "dec_of_nat n \<noteq> []"
  by (subst dec_of_nat.simps) simp

lemma nat_of_dec_snoc [simp]: "nat_of_dec (s @ [c]) = 10 * nat_of_dec s + digit_val c"
  by (simp add: nat_of_dec_def)

lemma nat_of_dec_of_nat [simp, go_codec]: "nat_of_dec (dec_of_nat n) = n"
proof (induction n rule: dec_of_nat.induct)
  case (1 n)
  then show ?case
    by (subst dec_of_nat.simps) (auto simp: nat_of_dec_def)
qed

text \<open>Zero-padded decimals, as \<^verbatim>\<open>time\<close>'s \<open>appendInt\<close> writes them.\<close>

definition pad_left :: "nat \<Rightarrow> string \<Rightarrow> string" where
  "pad_left w s = replicate (w - length s) (CHR ''0'') @ s"

definition append_int :: "int \<Rightarrow> nat \<Rightarrow> string" where
  "append_int x w =
     (if x < 0 then CHR ''-'' # pad_left w (dec_of_nat (nat (- x))) else pad_left w (dec_of_nat (nat x)))"

definition dec_of_int :: "int \<Rightarrow> string" where
  "dec_of_int x = append_int x 0"

lemma zero_char: "CHR ''0'' = digit_char 0"
  using char_of_char [where 'a = nat, of "CHR ''0''"] by (simp add: digit_char_def)

lemma dec_of_nat_1: "n < 10 \<Longrightarrow> dec_of_nat n = [digit_char n]"
  by (subst dec_of_nat.simps) simp

lemma dec_of_nat_step: "10 \<le> n \<Longrightarrow> dec_of_nat n = dec_of_nat (n div 10) @ [digit_char (n mod 10)]"
  by (subst dec_of_nat.simps) simp

lemma dec_of_nat_2: "10 \<le> n \<Longrightarrow> n < 100 \<Longrightarrow> dec_of_nat n = [digit_char (n div 10), digit_char (n mod 10)]"
  using dec_of_nat_1 [of "n div 10"] by (simp add: dec_of_nat_step [of n])

lemma dec_of_nat_3:
  assumes "100 \<le> n" and "n < 1000"
  shows "dec_of_nat n = [digit_char (n div 100), digit_char (n div 10 mod 10), digit_char (n mod 10)]"
proof -
  have "n div 10 div 10 = n div 100" by simp
  then show ?thesis
    using assms dec_of_nat_2 [of "n div 10"] by (simp add: dec_of_nat_step [of n])
qed

lemma dec_of_nat_4:
  assumes "1000 \<le> n" and "n < 10000"
  shows "dec_of_nat n = [digit_char (n div 1000), digit_char (n div 100 mod 10),
    digit_char (n div 10 mod 10), digit_char (n mod 10)]"
proof -
  have "n div 10 div 100 = n div 1000" "n div 10 div 10 = n div 100" by simp_all
  then show ?thesis
    using assms dec_of_nat_3 [of "n div 10"] by (simp add: dec_of_nat_step [of n])
qed

text \<open>Two and four digits: what the date formats of the repository print.\<close>

definition dec2 :: "nat \<Rightarrow> string" where
  "dec2 n = [digit_char (n div 10), digit_char (n mod 10)]"

definition dec4 :: "nat \<Rightarrow> string" where
  "dec4 n = [digit_char (n div 1000), digit_char (n div 100 mod 10),
    digit_char (n div 10 mod 10), digit_char (n mod 10)]"

lemma append_int_2:
  assumes "0 \<le> n" and "n < 100"
  shows "append_int n 2 = dec2 (nat n)"
proof (cases "nat n < 10")
  case True
  with assms show ?thesis
    by (simp add: append_int_def pad_left_def dec2_def dec_of_nat_1 zero_char)
next
  case False
  moreover have "nat n < 100" using assms by simp
  ultimately show ?thesis using assms
    by (simp add: append_int_def pad_left_def dec2_def dec_of_nat_2)
qed

lemma append_int_4:
  assumes "0 \<le> n" and "n < 10000"
  shows "append_int n 4 = dec4 (nat n)"
proof -
  define k where "k = nat n"
  have app: "append_int n 4 = pad_left 4 (dec_of_nat k)" and k: "k < 10000"
    using assms by (auto simp: append_int_def k_def)
  consider "k < 10" | "10 \<le> k" "k < 100" | "100 \<le> k" "k < 1000" | "1000 \<le> k" by linarith
  then have "pad_left 4 (dec_of_nat k) = dec4 k"
  proof cases
    case 1
    then show ?thesis by (simp add: pad_left_def dec4_def dec_of_nat_1 zero_char numeral_3_eq_3)
  next
    case 2
    then show ?thesis by (simp add: pad_left_def dec4_def dec_of_nat_2 zero_char numeral_2_eq_2)
  next
    case 3
    then show ?thesis by (simp add: pad_left_def dec4_def dec_of_nat_3 zero_char)
  next
    case 4
    then show ?thesis using k by (simp add: pad_left_def dec4_def dec_of_nat_4)
  qed
  then show ?thesis by (simp add: app k_def)
qed

section \<open>Hexadecimal\<close>

definition hex_digit :: "nat \<Rightarrow> char" where
  "hex_digit n = (if n < 10 then char_of (48 + n) else char_of (87 + n))"

text \<open>\<^verbatim>\<open>fromHexChar\<close>: both cases are accepted.\<close>

definition hex_val :: "char \<Rightarrow> nat option" where
  "hex_val c = (let n = of_char c in
     if 48 \<le> n \<and> n \<le> 57 then Some (n - 48)
     else if 97 \<le> n \<and> n \<le> 102 then Some (n - 87)
     else if 65 \<le> n \<and> n \<le> 70 then Some (n - 55)
     else None)"

definition hex_byte :: "byte \<Rightarrow> string" where
  "hex_byte b = [hex_digit (unat b div 16), hex_digit (unat b mod 16)]"

definition hex_encode :: "bytes \<Rightarrow> string" where
  "hex_encode bs = concat (map hex_byte bs)"

text \<open>
  \<^verbatim>\<open>hex.DecodeString\<close> returns the bytes decoded so far next to an error. An odd length is
  reported after a bad last character.
\<close>

fun hex_decode :: "string \<Rightarrow> bytes ret" where
  "hex_decode [] = ([], None)"
| "hex_decode [c] = ([], Some (if hex_val c = None then InvalidByte c else ErrLength))"
| "hex_decode (c # d # s) =
     (case hex_val c of
        None \<Rightarrow> ([], Some (InvalidByte c))
      | Some a \<Rightarrow>
          (case hex_val d of
             None \<Rightarrow> ([], Some (InvalidByte d))
           | Some b \<Rightarrow> (let (bs, e) = hex_decode s in (to_byte (16 * a + b) # bs, e))))"

lemma hex_val_digit [simp, go_codec]: "n < 16 \<Longrightarrow> hex_val (hex_digit n) = Some n"
  by (auto simp: hex_val_def hex_digit_def Let_def)

lemma hex_decode_encode [simp, go_codec]: "hex_decode (hex_encode bs) = (bs, None)"
proof (induction bs)
  case (Cons b bs)
  have "unat b div 16 < 16" using unat_byte_less [of b] by auto
  with Cons show ?case
    by (simp add: hex_encode_def hex_byte_def)
qed (simp add: hex_encode_def)

lemma length_hex_encode [simp]: "length (hex_encode bs) = 2 * length bs"
  by (induction bs) (simp_all add: hex_encode_def hex_byte_def)

text \<open>The prefix decoded before an error never exceeds half of the input.\<close>

lemma hex_decode_length: "2 * length (fst (hex_decode s)) \<le> length s"
  by (induction s rule: hex_decode.induct) (auto split: option.splits prod.splits)

lemma hex_decode_ok_length: "snd (hex_decode s) = None \<Longrightarrow> 2 * length (fst (hex_decode s)) = length s"
  by (induction s rule: hex_decode.induct) (auto split: option.splits prod.splits)

section \<open>Base64, URL alphabet, padded\<close>

definition b64_digit :: "nat \<Rightarrow> char" where
  "b64_digit n =
     (if n < 26 then char_of (65 + n)
      else if n < 52 then char_of (71 + n)
      else if n < 62 then char_of (n - 4)
      else if n = 62 then CHR ''-'' else CHR ''_'')"

definition b64_val :: "char \<Rightarrow> nat option" where
  "b64_val c = (let n = of_char c in
     if 65 \<le> n \<and> n \<le> 90 then Some (n - 65)
     else if 97 \<le> n \<and> n \<le> 122 then Some (n - 71)
     else if 48 \<le> n \<and> n \<le> 57 then Some (n + 4)
     else if n = 45 then Some 62
     else if n = 95 then Some 63
     else None)"

fun b64_encode :: "bytes \<Rightarrow> string" where
  "b64_encode [] = []"
| "b64_encode [a] =
     [b64_digit (unat a div 4), b64_digit (unat a mod 4 * 16), CHR ''='', CHR ''='']"
| "b64_encode [a, b] =
     [b64_digit (unat a div 4), b64_digit (unat a mod 4 * 16 + unat b div 16),
      b64_digit (unat b mod 16 * 4), CHR ''='']"
| "b64_encode (a # b # c # s) =
     [b64_digit (unat a div 4), b64_digit (unat a mod 4 * 16 + unat b div 16),
      b64_digit (unat b mod 16 * 4 + unat c div 64), b64_digit (unat c mod 64)] @ b64_encode s"

text \<open>
  \<^verbatim>\<open>base64.URLEncoding.DecodeString\<close>: newlines and carriage returns are skipped wherever they
  stand, padding is required and ends the input, and unused low bits are not checked.
\<close>

fun b64_quanta :: "string \<Rightarrow> bytes option" where
  "b64_quanta [] = Some []"
| "b64_quanta (a # b # c # d # s) =
     (case (b64_val a, b64_val b) of
        (Some x, Some y) \<Rightarrow>
          (if c = CHR ''='' then
             (if d = CHR ''='' \<and> s = [] then Some [to_byte (x * 4 + y div 16)] else None)
           else (case b64_val c of
              None \<Rightarrow> None
            | Some z \<Rightarrow>
                if d = CHR ''='' then
                  (if s = [] then
                     Some [to_byte (x * 4 + y div 16), to_byte (y mod 16 * 16 + z div 4)]
                   else None)
                else (case b64_val d of
                   None \<Rightarrow> None
                 | Some w \<Rightarrow>
                     map_option (\<lambda>r. to_byte (x * 4 + y div 16) # to_byte (y mod 16 * 16 + z div 4)
                       # to_byte (z mod 4 * 64 + w) # r) (b64_quanta s))))
      | _ \<Rightarrow> None)"
| "b64_quanta _ = None"

definition is_newline :: "char \<Rightarrow> bool" where
  "is_newline c \<longleftrightarrow> c = char_of (10 :: nat) \<or> c = char_of (13 :: nat)"

definition b64_decode :: "string \<Rightarrow> bytes res" where
  "b64_decode s =
     (case b64_quanta (filter (\<lambda>c. \<not> is_newline c) s) of None \<Rightarrow> Inl CorruptInput | Some bs \<Rightarrow> Inr bs)"

lemma b64_val_digit [simp, go_codec]: "n < 64 \<Longrightarrow> b64_val (b64_digit n) = Some n"
  by (auto simp: b64_val_def b64_digit_def Let_def)

text \<open>What a base64 digit is not: padding, a newline, or a separator of the identifiers.\<close>

lemma b64_digit_of_char:
  "n < 64 \<Longrightarrow> of_char (b64_digit n) \<in> {45, 95} \<union> {48..57} \<union> {65..90} \<union> {97..122 :: nat}"
  by (auto simp: b64_digit_def)

lemma b64_digit_neq:
  assumes "n < 64" and "of_char c \<notin> {45, 95} \<union> {48..57} \<union> {65..90} \<union> {97..122 :: nat}"
  shows "b64_digit n \<noteq> c"
  using b64_digit_of_char [OF assms(1)] assms(2) by blast

lemma b64_digit_not_pad [simp]: "n < 64 \<Longrightarrow> b64_digit n \<noteq> CHR ''=''"
  by (rule b64_digit_neq) simp_all

lemma sextets:
  "unat (a :: byte) div 4 < 64" "unat a mod 4 * 16 + unat (b :: byte) div 16 < 64"
  "unat a mod 4 * 16 < 64" "unat b mod 16 * 4 < 64" "unat b mod 16 * 4 + unat (c :: byte) div 64 < 64"
  using unat_byte_less [of a] unat_byte_less [of b] unat_byte_less [of c] by auto

lemma octets [simp]:
  "unat (a :: byte) div 4 * 4 + (unat a mod 4 + n) = unat a + n"
  "unat a div 16 div 16 = 0" "unat a div 64 div 4 = 0"
  "unat a div 16 mod 16 * 16 + unat a mod 16 = unat a"
  "unat a div 16 mod 16 * 16 + (unat a mod 16 + n) = unat a + n"
  "unat a div 64 mod 4 * 64 + unat a mod 64 = unat a"
  using unat_byte_less [of a] by auto

lemma b64_quanta_encode: "b64_quanta (b64_encode bs) = Some bs"
  by (induction bs rule: b64_encode.induct) (simp_all add: sextets)

lemma set_b64_encode: "set (b64_encode bs) \<subseteq> b64_digit ` {..<64} \<union> {CHR ''=''}"
  by (induction bs rule: b64_encode.induct) (auto simp: sextets)

lemma b64_encode_free:
  assumes "of_char c \<notin> {45, 61, 95} \<union> {48..57} \<union> {65..90} \<union> {97..122 :: nat}"
  shows "c \<notin> set (b64_encode bs)"
proof
  assume "c \<in> set (b64_encode bs)"
  then consider n where "n < 64" "c = b64_digit n" | "c = CHR ''=''"
    using set_b64_encode [of bs] by blast
  then show False
  proof cases
    case 1
    then show False using b64_digit_of_char [of n] assms by auto
  next
    case 2
    then show False using assms by simp
  qed
qed

lemma b64_encode_no_colon [simp, go_str]: "CHR '':'' \<notin> set (b64_encode bs)"
  by (rule b64_encode_free) simp

lemma b64_encode_no_slash [simp, go_str]: "CHR ''/'' \<notin> set (b64_encode bs)"
  by (rule b64_encode_free) simp

lemma b64_decode_encode [simp, go_codec]: "b64_decode (b64_encode bs) = Inr bs"
proof -
  have "\<not> is_newline c" if "c \<in> set (b64_encode bs)" for c
    using that b64_encode_free [of "char_of (10 :: nat)" bs] b64_encode_free [of "char_of (13 :: nat)" bs]
    by (auto simp: is_newline_def)
  then have "filter (\<lambda>c. \<not> is_newline c) (b64_encode bs) = b64_encode bs"
    by (simp add: filter_id_conv)
  then show ?thesis by (simp add: b64_decode_def b64_quanta_encode)
qed

lemma b64_encode_inject [simp]: "b64_encode a = b64_encode b \<longleftrightarrow> a = b"
  by (metis b64_quanta_encode option.inject)

lemma length_b64_encode: "length (b64_encode bs) = 4 * ((length bs + 2) div 3)"
proof (induction bs rule: b64_encode.induct)
  case (4 a b c s)
  have "(length (a # b # c # s) + 2) div 3 = Suc ((length s + 2) div 3)" by simp
  with 4 show ?case by simp
qed simp_all

end
