(* ===== verification/Go_Time.thy ===== *)
theory Go_Time
  imports Go_Encoding
begin

text \<open>
  Package \<^verbatim>\<open>time\<close>: instants, the proleptic Gregorian calendar, and the two layouts the
  repository prints and parses, \<^verbatim>\<open>2006-01-02\<close> and \<^verbatim>\<open>2006-01-02-15\<close>. The lemmas show that
  the calendar computation is a bijection on valid dates and that parsing inverts printing.
\<close>

section \<open>Instants and durations\<close>

text \<open>
  A \<^verbatim>\<open>time.Time\<close> is a count of nanoseconds since its zero value, midnight UTC of
  1 January of the year 1, with the offset of its location from UTC in seconds. Durations are
  nanoseconds. (The bounds of the 64-bit representation, some 292 years for a duration and
  far more for an instant, are out of reach of the values the program builds.)
\<close>

record gotime =
  t_ns :: int
  t_off :: int

type_synonym duration = int

abbreviation Millisecond :: duration where "Millisecond \<equiv> 1000000"
abbreviation Second :: duration where "Second \<equiv> 1000000000"
abbreviation Minute :: duration where "Minute \<equiv> 60000000000"
abbreviation Hour :: duration where "Hour \<equiv> 3600000000000"
abbreviation Day_ns :: duration where "Day_ns \<equiv> 86400000000000"

definition zero_time :: gotime where
  "zero_time = \<lparr>t_ns = 0, t_off = 0\<rparr>"

definition utc :: "int \<Rightarrow> gotime" where
  "utc n = \<lparr>t_ns = n, t_off = 0\<rparr>"

definition IsZero :: "gotime \<Rightarrow> bool" where
  "IsZero t \<longleftrightarrow> t_ns t = 0"

definition Before :: "gotime \<Rightarrow> gotime \<Rightarrow> bool" where
  "Before t u \<longleftrightarrow> t_ns t < t_ns u"

definition Add :: "gotime \<Rightarrow> duration \<Rightarrow> gotime" where
  "Add t d = t\<lparr>t_ns := t_ns t + d\<rparr>"

text \<open>\<^verbatim>\<open>Truncate\<close> rounds down to a multiple of the duration since the zero time.\<close>

definition Truncate :: "gotime \<Rightarrow> duration \<Rightarrow> gotime" where
  "Truncate t d = (if d \<le> 0 then t else t\<lparr>t_ns := t_ns t - t_ns t mod d\<rparr>)"

definition local_ns :: "gotime \<Rightarrow> int" where
  "local_ns t = t_ns t + t_off t * Second"

text \<open>\<^verbatim>\<open>time.Unix(sec, nsec)\<close>, in the local zone of the process, here given by its offset.\<close>

definition unix_epoch_ns :: int where
  "unix_epoch_ns = 62135596800 * Second"

definition time_Unix :: "int \<Rightarrow> int \<Rightarrow> int \<Rightarrow> gotime" where
  "time_Unix zone sec nsec = \<lparr>t_ns = unix_epoch_ns + sec * Second + nsec, t_off = zone\<rparr>"

section \<open>The calendar\<close>

definition is_leap :: "int \<Rightarrow> bool" where
  "is_leap y \<longleftrightarrow> y mod 4 = 0 \<and> (y mod 100 \<noteq> 0 \<or> y mod 400 = 0)"

text \<open>Days from 1 January of the year 1 to 1 January of the year \<open>y\<close>.\<close>

definition days_before_year :: "int \<Rightarrow> int" where
  "days_before_year y = 365 * (y - 1) + (y - 1) div 4 - (y - 1) div 100 + (y - 1) div 400"

definition month_table :: "int list" where
  "month_table = [0, 31, 59, 90, 120, 151, 181, 212, 243, 273, 304, 334, 365]"

definition days_before_month :: "bool \<Rightarrow> int \<Rightarrow> int" where
  "days_before_month leap m = month_table ! nat (m - 1) + (if leap \<and> 2 < m then 1 else 0)"

definition days_in :: "bool \<Rightarrow> int \<Rightarrow> int" where
  "days_in leap m = days_before_month leap (m + 1) - days_before_month leap m"

definition valid_date :: "int \<Rightarrow> int \<Rightarrow> int \<Rightarrow> bool" where
  "valid_date y m d \<longleftrightarrow> 1 \<le> m \<and> m \<le> 12 \<and> 1 \<le> d \<and> d \<le> days_in (is_leap y) m"

definition civil_days :: "int \<Rightarrow> int \<Rightarrow> int \<Rightarrow> int" where
  "civil_days y m d = days_before_year y + days_before_month (is_leap y) m + (d - 1)"

text \<open>The year of a day number, by 400-, 100-, 4- and 1-year cycles as \<^verbatim>\<open>absDate\<close> does.\<close>

definition year_of_day :: "int \<Rightarrow> int" where
  "year_of_day n =
     (let c = n div 146097; d = n mod 146097;
          a = d div 36524 - d div 36524 div 4; d = d - 36524 * a;
          b = d div 1461; d = d - 1461 * b;
          e = d div 365 - d div 365 div 4
      in 400 * c + 100 * a + 4 * b + e + 1)"

definition month_of_yday :: "bool \<Rightarrow> int \<Rightarrow> int" where
  "month_of_yday leap yd =
     (let l = (if leap then 1 else 0) in
      if yd < 31 then 1 else if yd < 59 + l then 2 else if yd < 90 + l then 3
      else if yd < 120 + l then 4 else if yd < 151 + l then 5 else if yd < 181 + l then 6
      else if yd < 212 + l then 7 else if yd < 243 + l then 8 else if yd < 273 + l then 9
      else if yd < 304 + l then 10 else if yd < 334 + l then 11 else 12)"

definition civil_of_days :: "int \<Rightarrow> int \<times> int \<times> int" where
  "civil_of_days n =
     (let y = year_of_day n; yd = n - days_before_year y; m = month_of_yday (is_leap y) yd
      in (y, m, yd - days_before_month (is_leap y) m + 1))"

lemma days_before_year_cycles:
  assumes "0 \<le> a" "a \<le> 3" "0 \<le> b" "b \<le> 24" "0 \<le> e" "e \<le> (3 :: int)"
  shows "days_before_year (400 * c + 100 * a + 4 * b + e + 1) = 146097 * c + 36524 * a + 1461 * b + 365 * e"
proof -
  have "(400 * c + 100 * a + 4 * b + e) div 4 = 100 * c + 25 * a + b"
    "(400 * c + 100 * a + 4 * b + e) div 100 = 4 * c + a"
    "(400 * c + 100 * a + 4 * b + e) div 400 = c"
    using assms by linarith+
  then show ?thesis by (simp add: days_before_year_def)
qed

lemma int_div_pred:
  assumes "0 < (k :: int)"
  shows "y div k = (y - 1) div k + (if y mod k = 0 then 1 else 0)"
proof (cases "y mod k = 0")
  case True
  then have "y - 1 = k * (y div k - 1) + (k - 1)"
    using mult_div_mod_eq [of k y] by (simp add: algebra_simps)
  then have "(y - 1) div k = y div k - 1"
    by (rule int_div_pos_eq) (use assms in auto)
  with True show ?thesis by simp
next
  case False
  have "y - 1 = k * (y div k) + (y mod k - 1)"
    using mult_div_mod_eq [of k y] by simp
  moreover have "0 \<le> y mod k" "y mod k < k" using assms by simp_all
  ultimately have "(y - 1) div k = y div k"
    using False by (intro int_div_pos_eq [where r = "y mod k - 1"]) auto
  with False show ?thesis by simp
qed

lemma leap_sum:
  fixes p q r :: int
  assumes "C \<longrightarrow> B" and "B \<longrightarrow> A"
  shows "(p + (if A then 1 else 0)) - (q + (if B then 1 else 0)) + (r + (if C then 1 else 0))
    = p - q + r + (if A \<and> (\<not> B \<or> C) then 1 else 0)"
  using assms by (cases A; cases B; cases C) simp_all

lemma days_before_year_Suc:
  "days_before_year (y + 1) = days_before_year y + (if is_leap y then 366 else 365)"
proof -
  define p q r where "p = (y - 1) div 4" and "q = (y - 1) div 100" and "r = (y - 1) div 400"
  have lo: "days_before_year y = 365 * y - 365 + p - q + r"
    by (simp add: days_before_year_def p_def q_def r_def)
  have up: "days_before_year (y + 1) = 365 * y + y div 4 - y div 100 + y div 400"
    by (simp add: days_before_year_def)
  have steps: "y div 4 = p + (if y mod 4 = 0 then 1 else 0)"
    "y div 100 = q + (if y mod 100 = 0 then 1 else 0)"
    "y div 400 = r + (if y mod 400 = 0 then 1 else 0)"
    unfolding p_def q_def r_def by (rule int_div_pred; simp)+
  have mods: "y mod 400 = 0 \<longrightarrow> y mod 100 = 0" "y mod 100 = 0 \<longrightarrow> y mod 4 = 0"
    by presburger+
  have "y div 4 - y div 100 + y div 400 = p - q + r + (if is_leap y then 1 else 0)"
    unfolding steps is_leap_def by (rule leap_sum [OF mods])
  then show ?thesis unfolding up lo by (cases "is_leap y") simp_all
qed

lemma days_before_year_mono: "y < z \<Longrightarrow> days_before_year y + 365 \<le> days_before_year z"
proof (induction "nat (z - y - 1)" arbitrary: z)
  case 0
  then have "z = y + 1" by simp
  then show ?case by (simp add: days_before_year_Suc)
next
  case (Suc k)
  then have "days_before_year y + 365 \<le> days_before_year (z - 1)" by simp
  then show ?case using days_before_year_Suc [of "z - 1"] by (simp split: if_splits)
qed

lemma year_of_day_bounds:
  "days_before_year (year_of_day n) \<le> n \<and> n < days_before_year (year_of_day n + 1)"
proof -
  define c d where "c = n div 146097" and "d = n mod 146097"
  define a where "a = d div 36524 - d div 36524 div 4"
  define d' where "d' = d - 36524 * a"
  define b where "b = d' div 1461"
  define d'' where "d'' = d' - 1461 * b"
  define e where "e = d'' div 365 - d'' div 365 div 4"
  have y: "year_of_day n = 400 * c + 100 * a + 4 * b + e + 1"
    by (simp add: year_of_day_def Let_def c_def d_def a_def d'_def b_def d''_def e_def)
  have n: "n = 146097 * c + d" and d: "0 \<le> d" "d < 146097" by (simp_all add: c_def d_def)
  have "0 \<le> d div 36524" "d div 36524 \<le> 4" using d by linarith+
  then have a: "0 \<le> a" "a \<le> 3" "d div 36524 = a \<or> (d div 36524 = 4 \<and> a = 3)"
    by (auto simp: a_def)
  then have d': "0 \<le> d'" "d' < 36524 \<or> (a = 3 \<and> d' \<le> 36524)"
    using d div_mult_mod_eq [of d 36524] pos_mod_bound [of 36524 d] pos_mod_sign [of 36524 d]
    unfolding d'_def by linarith+
  then have b: "0 \<le> b" "b \<le> 24" by (auto simp: b_def)
  have d'': "0 \<le> d''" "d'' \<le> 1460" by (simp_all add: d''_def b_def minus_mult_div_eq_mod)
  have "0 \<le> d'' div 365" "d'' div 365 \<le> 4" using d'' by linarith+
  then have e: "0 \<le> e" "e \<le> 3" "d'' div 365 = e \<or> (d'' div 365 = 4 \<and> e = 3)"
    by (auto simp: e_def)
  have low: "days_before_year (year_of_day n) = 146097 * c + 36524 * a + 1461 * b + 365 * e"
    unfolding y using a b e by (intro days_before_year_cycles) auto
  have rest: "n - days_before_year (year_of_day n) = d'' - 365 * e"
    unfolding low d''_def d'_def using n by linarith
  have r: "0 \<le> d'' - 365 * e" "d'' - 365 * e < 365 \<or> (e = 3 \<and> d'' = 1460)"
    using e d'' by linarith+
  have leap: "is_leap (year_of_day n)" if "e = 3" "d'' = 1460"
  proof -
    have y4: "year_of_day n = 4 * (100 * c + 25 * a + b + 1)"
      and y100: "year_of_day n = (4 * b + 4) + (4 * c + a) * 100"
      using y that(1) by simp_all
    have m4: "year_of_day n mod 4 = 0" unfolding y4 by simp
    have m100: "year_of_day n mod 100 = (4 * b + 4) mod 100"
      unfolding y100 by (rule mod_mult_self1)
    show ?thesis
    proof (cases "b < 24")
      case True
      then have "(4 * b + 4) mod 100 = 4 * b + 4" using b by (intro mod_pos_pos_trivial) auto
      then show ?thesis using m4 m100 b by (simp add: is_leap_def)
    next
      case False
      then have "b = 24" "a = 3" using d' that(2) b by (auto simp: d''_def)
      then have "year_of_day n = (c + 1) * 400" using y that(1) by simp
      then have "year_of_day n mod 400 = 0" by (simp only: mod_mult_self2_is_0)
      then show ?thesis using m4 by (simp add: is_leap_def)
    qed
  qed
  show ?thesis
    using rest r leap days_before_year_Suc [of "year_of_day n"] by (auto split: if_splits)
qed

text \<open>The year of a day is the only one whose days include it.\<close>

lemma year_of_day_unique:
  assumes "days_before_year y \<le> n" and "n < days_before_year (y + 1)"
  shows "year_of_day n = y"
proof (rule ccontr)
  assume "year_of_day n \<noteq> y"
  then consider "year_of_day n < y" | "y < year_of_day n" by linarith
  then show False
  proof cases
    case 1
    then have "days_before_year (year_of_day n + 1) \<le> days_before_year y"
      using days_before_year_mono [of "year_of_day n + 1" y] by (cases "year_of_day n + 1 = y") auto
    then show False using assms year_of_day_bounds [of n] by linarith
  next
    case 2
    then have "days_before_year (y + 1) \<le> days_before_year (year_of_day n)"
      using days_before_year_mono [of "y + 1" "year_of_day n"] by (cases "y + 1 = year_of_day n") auto
    then show False using assms year_of_day_bounds [of n] by linarith
  qed
qed

lemma month_cases:
  assumes "1 \<le> m" and "m \<le> (12 :: int)"
  shows "m = 1 \<or> m = 2 \<or> m = 3 \<or> m = 4 \<or> m = 5 \<or> m = 6 \<or> m = 7 \<or> m = 8
    \<or> m = 9 \<or> m = 10 \<or> m = 11 \<or> m = 12"
  using assms by arith

lemma days_before_month_table [simp]:
  "days_before_month l 1 = 0" "days_before_month l 2 = 31"
  "days_before_month l 3 = 59 + of_bool l" "days_before_month l 4 = 90 + of_bool l"
  "days_before_month l 5 = 120 + of_bool l" "days_before_month l 6 = 151 + of_bool l"
  "days_before_month l 7 = 181 + of_bool l" "days_before_month l 8 = 212 + of_bool l"
  "days_before_month l 9 = 243 + of_bool l" "days_before_month l 10 = 273 + of_bool l"
  "days_before_month l 11 = 304 + of_bool l" "days_before_month l 12 = 334 + of_bool l"
  "days_before_month l 13 = 365 + of_bool l"
  by (simp_all add: days_before_month_def month_table_def)

lemma days_in_table [simp]:
  "days_in l 1 = 31" "days_in l 2 = 28 + of_bool l" "days_in l 3 = 31" "days_in l 4 = 30"
  "days_in l 5 = 31" "days_in l 6 = 30" "days_in l 7 = 31" "days_in l 8 = 31" "days_in l 9 = 30"
  "days_in l 10 = 31" "days_in l 11 = 30" "days_in l 12 = 31"
  by (simp_all add: days_in_def)

lemma month_of_yday_days:
  assumes "1 \<le> m" "m \<le> 12" "0 \<le> d" "d < days_in l m"
  shows "month_of_yday l (days_before_month l m + d) = m"
  using month_cases [OF assms(1,2)] assms(3,4)
  by (elim disjE; cases l; simp add: month_of_yday_def)

lemma days_before_month_nonneg: "1 \<le> m \<Longrightarrow> m \<le> 12 \<Longrightarrow> 0 \<le> days_before_month l m"
  by (drule (1) month_cases) (elim disjE; simp)

lemma days_before_month_mono:
  assumes "1 \<le> m" "m \<le> 12"
  shows "days_before_month l m + days_in l m \<le> (if l then 366 else 365)"
  using month_cases [OF assms] by (elim disjE; simp)

lemma days_in_le_31: "1 \<le> m \<Longrightarrow> m \<le> 12 \<Longrightarrow> days_in l m \<le> 31"
  by (drule (1) month_cases) (elim disjE; simp)

lemma civil_of_civil_days:
  assumes "valid_date y m d"
  shows "civil_of_days (civil_days y m d) = (y, m, d)"
proof -
  have m: "1 \<le> m" "m \<le> 12" and d: "0 \<le> d - 1" "d - 1 < days_in (is_leap y) m"
    using assms by (auto simp: valid_date_def)
  have "year_of_day (civil_days y m d) = y"
    using days_before_month_nonneg [OF m, of "is_leap y"] days_before_month_mono [OF m, of "is_leap y"] d
      days_before_year_Suc [of y]
    by (intro year_of_day_unique) (auto simp: civil_days_def split: if_splits)
  moreover have "civil_days y m d - days_before_year y = days_before_month (is_leap y) m + (d - 1)"
    by (simp add: civil_days_def)
  ultimately show ?thesis
    using month_of_yday_days [OF m d] by (simp add: civil_of_days_def Let_def)
qed

lemma month_of_yday_correct:
  assumes "0 \<le> yd" "yd < (if l then 366 else 365)"
  shows "1 \<le> month_of_yday l yd \<and> month_of_yday l yd \<le> 12 \<and>
    days_before_month l (month_of_yday l yd) \<le> yd \<and>
    yd < days_before_month l (month_of_yday l yd + 1)"
  using assms by (cases l; simp add: month_of_yday_def)

lemma civil_days_of_days:
  assumes "civil_of_days n = (y, m, d)"
  shows "civil_days y m d = n \<and> valid_date y m d"
proof -
  define yd where "yd = n - days_before_year y"
  have y: "y = year_of_day n" and m: "m = month_of_yday (is_leap y) yd"
    and d: "d = yd - days_before_month (is_leap y) m + 1"
    using assms by (auto simp: civil_of_days_def Let_def yd_def)
  have "0 \<le> yd" "yd < (if is_leap y then 366 else 365)"
    using year_of_day_bounds [of n] days_before_year_Suc [of y] unfolding yd_def y by auto
  note mc = month_of_yday_correct [OF this, folded m]
  show ?thesis
    using mc by (auto simp: valid_date_def days_in_def civil_days_def d yd_def)
qed

section \<open>Printing and parsing\<close>

text \<open>
  \<^verbatim>\<open>Format\<close> for the two layouts, in the time's own location. A year before 0 or after 9999 is
  printed with its sign or with more digits.
\<close>

definition kExpirationFormat :: string where
  "kExpirationFormat = ''2006-01-02''"

definition kExpirationFormatWithHour :: string where
  "kExpirationFormatWithHour = ''2006-01-02-15''"

definition local_date :: "gotime \<Rightarrow> int \<times> int \<times> int" where
  "local_date t = civil_of_days (local_ns t div Day_ns)"

definition local_hour :: "gotime \<Rightarrow> int" where
  "local_hour t = local_ns t mod Day_ns div Hour"

definition Format_day :: "gotime \<Rightarrow> string" where
  "Format_day t = (case local_date t of (y, m, d) \<Rightarrow>
     append_int y 4 @ CHR ''-'' # append_int m 2 @ CHR ''-'' # append_int d 2)"

definition Format_hour :: "gotime \<Rightarrow> string" where
  "Format_hour t = Format_day t @ CHR ''-'' # append_int (local_hour t) 2"

text \<open>\<^verbatim>\<open>time.Date(y, m, d, h, 0, 0, 0, time.UTC)\<close> for a valid date.\<close>

definition time_Date :: "int \<Rightarrow> int \<Rightarrow> int \<Rightarrow> int \<Rightarrow> gotime" where
  "time_Date y m d h = utc (civil_days y m d * Day_ns + h * Hour)"

text \<open>The number readers of \<^verbatim>\<open>time.Parse\<close>: \<open>getnum\<close> reads two digits, or one unless \<open>fixed\<close>.\<close>

definition parse_year :: "string \<Rightarrow> (nat \<times> string) option" where
  "parse_year s =
     (if 4 \<le> length s \<and> list_all is_digit (take 4 s) then Some (nat_of_dec (take 4 s), drop 4 s) else None)"

fun getnum :: "bool \<Rightarrow> string \<Rightarrow> (nat \<times> string) option" where
  "getnum fixed [] = None"
| "getnum fixed [c] = (if is_digit c \<and> \<not> fixed then Some (digit_val c, []) else None)"
| "getnum fixed (c # d # s) =
     (if \<not> is_digit c then None
      else if \<not> is_digit d then (if fixed then None else Some (digit_val c, d # s))
      else Some (10 * digit_val c + digit_val d, s))"

fun skip_dash :: "string \<Rightarrow> string option" where
  "skip_dash [] = None"
| "skip_dash (c # s) = (if c = CHR ''-'' then Some s else None)"

definition parse_ymd :: "string \<Rightarrow> (nat \<times> nat \<times> nat \<times> string) option" where
  "parse_ymd s =
     Option.bind (parse_year s) (\<lambda>(y, s). Option.bind (skip_dash s) (\<lambda>s.
     Option.bind (getnum True s) (\<lambda>(m, s). if m < 1 \<or> 12 < m then None else
     Option.bind (skip_dash s) (\<lambda>s. Option.bind (getnum True s) (\<lambda>(d, s). Some (y, m, d, s))))))"

definition Parse_day :: "string \<Rightarrow> gotime res" where
  "Parse_day s =
     (case parse_ymd s of
        Some (y, m, d, []) \<Rightarrow>
          (if valid_date (int y) (int m) (int d) then Inr (time_Date (int y) (int m) (int d) 0)
           else Inl (ParseError s))
      | _ \<Rightarrow> Inl (ParseError s))"

definition Parse_hour :: "string \<Rightarrow> gotime res" where
  "Parse_hour s =
     (case Option.bind (parse_ymd s) (\<lambda>(y, m, d, s). Option.bind (skip_dash s) (\<lambda>s.
             map_option (\<lambda>(h, s). (y, m, d, h, s)) (getnum False s))) of
        Some (y, m, d, h, []) \<Rightarrow>
          (if h < 24 \<and> valid_date (int y) (int m) (int d)
           then Inr (time_Date (int y) (int m) (int d) (int h)) else Inl (ParseError s))
      | _ \<Rightarrow> Inl (ParseError s))"

lemma nat_of_dec4: "n < 10000 \<Longrightarrow> nat_of_dec (dec4 n) = n"
proof -
  assume True: "n < 10000"
  have "10 * (n div 1000) + n div 100 mod 10 = n div 100"
    using mult_div_mod_eq [of 10 "n div 100"] by (simp flip: div_mult2_eq)
  moreover have "10 * (n div 100) + n div 10 mod 10 = n div 10"
    using mult_div_mod_eq [of 10 "n div 10"] by (simp flip: div_mult2_eq)
  moreover have "10 * (n div 10) + n mod 10 = n" by simp
  ultimately have "10 * (10 * (10 * (n div 1000) + n div 100 mod 10) + n div 10 mod 10) + n mod 10 = n"
    by (simp only:)
  then show ?thesis using True by (simp add: nat_of_dec_def dec4_def)
qed

lemma parse_year_dec4 [simp]:
  assumes "n < 10000"
  shows "parse_year (dec4 n @ s) = Some (n, s)"
proof -
  have "length (dec4 n) = 4" "list_all is_digit (dec4 n)" using assms by (simp_all add: dec4_def)
  then show ?thesis
    using assms nat_of_dec4 [of n] by (simp add: parse_year_def)
qed

lemma getnum_dec2 [simp]: "n < 100 \<Longrightarrow> getnum fixed (dec2 n @ s) = Some (n, s)"
  by (simp add: dec2_def)

lemma parse_ymd_Format_day:
  assumes "local_date t = (y, m, d)" and "0 \<le> y" and "y \<le> 9999"
  shows "parse_ymd (Format_day t @ s) = Some (nat y, nat m, nat d, s)
    \<and> civil_days y m d = local_ns t div Day_ns \<and> valid_date y m d"
proof -
  have v: "civil_days y m d = local_ns t div Day_ns" "valid_date y m d"
    using civil_days_of_days assms(1) by (auto simp: local_date_def)
  then have m: "1 \<le> m" "m \<le> 12" and d: "1 \<le> d" "d \<le> 31"
    using days_in_le_31 [of m "is_leap y"] by (auto simp: valid_date_def)
  then show ?thesis
    using v assms
    by (simp add: Format_day_def append_int_4 append_int_2 parse_ymd_def)
qed

lemma local_hour_bounds: "0 \<le> local_hour t \<and> local_hour t < 24"
proof -
  have "0 \<le> local_ns t mod Day_ns" "local_ns t mod Day_ns < Day_ns" by simp_all
  then show ?thesis unfolding local_hour_def by (auto simp: zdiv_mono1 div_pos_pos_trivial)
qed

text \<open>Parsing what \<^verbatim>\<open>Format\<close> printed gives the start of the local day, or hour, in UTC.\<close>

lemma local_ns_split:
  "local_ns t - local_ns t mod Hour = local_ns t div Day_ns * Day_ns + local_hour t * Hour"
proof -
  have "local_ns t mod Day_ns = local_hour t * Hour + local_ns t mod Day_ns mod Hour"
    unfolding local_hour_def by (simp add: div_mult_mod_eq)
  moreover have "local_ns t mod Day_ns mod Hour = local_ns t mod Hour"
    by (rule mod_mod_cancel) simp
  ultimately show ?thesis
    using div_mult_mod_eq [of "local_ns t" Day_ns] by linarith
qed

definition year_4_digits :: "gotime \<Rightarrow> bool" where
  "year_4_digits t \<longleftrightarrow> (let y = fst (local_date t) in 0 \<le> y \<and> y \<le> 9999)"

lemma Parse_Format_day [go_codec]:
  assumes "year_4_digits t"
  shows "Parse_day (Format_day t) = Inr (utc (local_ns t div Day_ns * Day_ns))"
proof -
  obtain y m d where ld: "local_date t = (y, m, d)" by (cases "local_date t") auto
  note p = parse_ymd_Format_day [OF ld, of "[]"]
  have "0 \<le> y" "y \<le> 9999" using assms ld by (auto simp: year_4_digits_def)
  with p show ?thesis
    by (auto simp: Parse_day_def time_Date_def valid_date_def)
qed

lemma Parse_Format_hour [go_codec]:
  assumes "year_4_digits t"
  shows "Parse_hour (Format_hour t) = Inr (utc (local_ns t - local_ns t mod Hour))"
proof -
  obtain y m d where ld: "local_date t = (y, m, d)" by (cases "local_date t") auto
  have y: "0 \<le> y" "y \<le> 9999" using assms ld by (auto simp: year_4_digits_def)
  have h: "0 \<le> local_hour t" "local_hour t < 24" using local_hour_bounds by auto
  define hh where "hh = dec2 (nat (local_hour t))"
  have "parse_ymd (Format_hour t) = Some (nat y, nat m, nat d, CHR ''-'' # hh)"
    and v: "civil_days y m d = local_ns t div Day_ns" "valid_date y m d"
    using parse_ymd_Format_day [OF ld y, of "CHR ''-'' # hh"] h
    by (auto simp: Format_hour_def append_int_2 hh_def)
  moreover have "getnum False hh = Some (nat (local_hour t), [])"
    using getnum_dec2 [of "nat (local_hour t)" False "[]"] h by (simp add: hh_def)
  ultimately show ?thesis
    using y h v local_ns_split [of t]
    by (auto simp: Parse_hour_def time_Date_def valid_date_def)
qed

lemma length_Format_day: "year_4_digits t \<Longrightarrow> length (Format_day t) = 10"
  and length_Format_hour: "year_4_digits t \<Longrightarrow> length (Format_hour t) = 13"
proof -
  assume a: "year_4_digits t"
  obtain y m d where ld: "local_date t = (y, m, d)" by (cases "local_date t") auto
  have y: "0 \<le> y" "y \<le> 9999" using a ld by (auto simp: year_4_digits_def)
  have "valid_date y m d" using parse_ymd_Format_day [OF ld y] by simp
  then have m: "1 \<le> m" "m \<le> 12" and d: "1 \<le> d" "d \<le> 31"
    using days_in_le_31 [of m "is_leap y"] by (auto simp: valid_date_def)
  show l: "length (Format_day t) = 10"
    using y m d ld by (simp add: Format_day_def append_int_4 append_int_2 dec4_def dec2_def)
  show "length (Format_hour t) = 13"
    using l local_hour_bounds [of t] by (simp add: Format_hour_def append_int_2 dec2_def)
qed

text \<open>Conversely, what parses is printed back unchanged, but for a one-digit hour.\<close>

lemma parse_year_Some: "parse_year s = Some (n, r) \<Longrightarrow> s = dec4 n @ r \<and> n < 10000"
proof -
  assume a: "parse_year s = Some (n, r)"
  then obtain c1 c2 c3 c4 where s: "s = c1 # c2 # c3 # c4 # r"
    and dg: "is_digit c1" "is_digit c2" "is_digit c3" "is_digit c4" and n: "n = nat_of_dec [c1, c2, c3, c4]"
    by (auto simp: parse_year_def numeral_eq_Suc Suc_le_length_iff split: if_splits)
  define a b c d where "a = digit_val c1" and "b = digit_val c2" and "c = digit_val c3" and "d = digit_val c4"
  have less: "a < 10" "b < 10" "c < 10" "d < 10" using dg by (simp_all add: a_def b_def c_def d_def)
  have n': "n = 10 * (10 * (10 * a + b) + c) + d"
    by (simp add: n nat_of_dec_def a_def b_def c_def d_def)
  define p where "p = 10 * a + b"
  define q where "q = 10 * p + c"
  have nq: "n = 10 * q + d" using n' by (simp add: p_def q_def)
  have "n div 10 = q" "n mod 10 = d" using less by (simp_all add: nq)
  moreover have "q div 10 = p" "q mod 10 = c" using less by (simp_all add: q_def)
  moreover have "p div 10 = a" "p mod 10 = b" using less by (simp_all add: p_def)
  moreover have "n div 100 = n div 10 div 10" "n div 1000 = n div 10 div 10 div 10"
    by (simp_all flip: div_mult2_eq)
  ultimately have "n div 1000 = a" "n div 100 mod 10 = b" "n div 10 mod 10 = c" "n mod 10 = d" by simp_all
  moreover have "n < 10000"
  proof -
    have "a \<le> 9" "b \<le> 9" "c \<le> 9" "d \<le> 9" using less by simp_all
    moreover have "n = 1000 * a + 100 * b + 10 * c + d" using n' by simp
    ultimately show ?thesis by linarith
  qed
  ultimately show ?thesis using dg by (simp add: s dec4_def a_def b_def c_def d_def)
qed

lemma two_digits_less: "is_digit c \<Longrightarrow> is_digit d \<Longrightarrow> 10 * digit_val c + digit_val d < 100"
  using digit_val_less [of c] digit_val_less [of d] by linarith

lemma getnum_Some: "getnum True s = Some (n, r) \<Longrightarrow> s = dec2 n @ r \<and> n < 100"
proof (induction True s rule: getnum.induct)
  case (3 c d s)
  then have "is_digit c" "is_digit d" "n = 10 * digit_val c + digit_val d" "r = s"
    by (auto split: if_splits)
  then show ?case using two_digits_less [of c d] by (auto simp: dec2_def)
qed auto

lemma getnum_2: "getnum False s = Some (n, []) \<Longrightarrow> length s = 2 \<Longrightarrow> s = dec2 n \<and> n < 100"
proof (induction False s rule: getnum.induct)
  case (3 c d s)
  then have "is_digit c" "is_digit d" "n = 10 * digit_val c + digit_val d" "s = []"
    by (auto split: if_splits)
  then show ?case using two_digits_less [of c d] by (auto simp: dec2_def)
qed auto

lemma skip_dash_Some: "skip_dash s = Some r \<longleftrightarrow> s = CHR ''-'' # r"
  by (cases s) auto

lemma parse_ymd_Some:
  "parse_ymd s = Some (y, m, d, r) \<Longrightarrow>
    s = dec4 y @ CHR ''-'' # dec2 m @ CHR ''-'' # dec2 d @ r \<and> y < 10000 \<and> m < 100 \<and> d < 100"
  by (auto simp: parse_ymd_def bind_eq_Some_conv skip_dash_Some split: if_splits
      dest!: parse_year_Some getnum_Some)

lemma local_date_time_Date:
  assumes "valid_date y m d" and "0 \<le> h" and "h < 24"
  shows "local_date (time_Date y m d h) = (y, m, d)" and "local_hour (time_Date y m d h) = h"
proof -
  have "(civil_days y m d * Day_ns + h * Hour) div Day_ns = civil_days y m d"
    "(civil_days y m d * Day_ns + h * Hour) mod Day_ns = h * Hour"
    using assms by (auto intro: int_div_pos_eq int_mod_pos_eq [where q = "civil_days y m d"])
  then show "local_date (time_Date y m d h) = (y, m, d)" "local_hour (time_Date y m d h) = h"
    using assms by (simp_all add: local_date_def local_hour_def time_Date_def utc_def local_ns_def civil_of_civil_days)
qed

lemma Format_day_time_Date:
  assumes "valid_date (int y) (int m) (int d)" "0 \<le> h" "h < 24" "y < 10000" "m < 100" "d < 100"
  shows "Format_day (time_Date (int y) (int m) (int d) h) = dec4 y @ CHR ''-'' # dec2 m @ CHR ''-'' # dec2 d"
  using assms by (simp add: Format_day_def local_date_time_Date append_int_4 append_int_2)

lemma Format_Parse_day:
  assumes "Parse_day s = Inr t"
  shows "Format_day t = s \<and> t_off t = 0 \<and> t_ns t mod Day_ns = 0 \<and> year_4_digits t"
proof -
  obtain y m d where p: "parse_ymd s = Some (y, m, d, [])" and v: "valid_date (int y) (int m) (int d)"
    and t: "t = time_Date (int y) (int m) (int d) 0"
    using assms by (auto simp: Parse_day_def split: option.splits list.splits if_splits)
  have y: "y < 10000" "m < 100" "d < 100" using parse_ymd_Some [OF p] by auto
  have ld: "local_date t = (int y, int m, int d)" using local_date_time_Date(1) [OF v, of 0] t by simp
  show ?thesis
    using Format_day_time_Date [OF v, of 0] y parse_ymd_Some [OF p] ld
    by (simp add: t year_4_digits_def time_Date_def utc_def)
qed

lemma Format_Parse_hour:
  assumes "Parse_hour s = Inr t" and "length s = 13"
  shows "Format_hour t = s"
proof -
  obtain y m d h r where p: "parse_ymd s = Some (y, m, d, CHR ''-'' # r)"
    and g: "getnum False r = Some (h, [])" and v: "valid_date (int y) (int m) (int d)" and h: "h < 24"
    and t: "t = time_Date (int y) (int m) (int d) (int h)"
    using assms(1)
    by (auto simp: Parse_hour_def bind_eq_Some_conv skip_dash_Some split: option.splits list.splits if_splits)
  have s: "s = dec4 y @ CHR ''-'' # dec2 m @ CHR ''-'' # dec2 d @ CHR ''-'' # r"
    and y: "y < 10000" "m < 100" "d < 100" using parse_ymd_Some [OF p] by auto
  then have "length r = 2" using assms(2) by (simp add: dec4_def dec2_def)
  then have "r = dec2 h" using getnum_2 [OF g] by simp
  then show ?thesis
    using Format_day_time_Date [OF v, of "int h"] y h local_date_time_Date(2) [OF v, of "int h"]
    by (simp add: s t Format_hour_def append_int_2)
qed

lemma Parse_hour_Inr:
  assumes "Parse_hour s = Inr t"
  shows "t_off t = 0 \<and> t_ns t mod Hour = 0 \<and> year_4_digits t"
proof -
  obtain y m d h r where p: "parse_ymd s = Some (y, m, d, CHR ''-'' # r)"
    and v: "valid_date (int y) (int m) (int d)" and h: "h < 24"
    and t: "t = time_Date (int y) (int m) (int d) (int h)"
    using assms
    by (auto simp: Parse_hour_def bind_eq_Some_conv skip_dash_Some split: option.splits list.splits if_splits)
  have "t_ns t = (civil_days (int y) (int m) (int d) * 24 + int h) * Hour"
    by (simp add: t time_Date_def utc_def)
  then have "t_ns t mod Hour = 0" by (simp only: mod_mult_self2_is_0)
  then show ?thesis
    using parse_ymd_Some [OF p] local_date_time_Date(1) [OF v, of "int h"] h
    by (simp add: t year_4_digits_def time_Date_def utc_def)
qed

end
