(* ===== verification/Go_Digest.thy ===== *)
theory Go_Digest
  imports Go_Encoding
begin

text \<open>
  The digests of \<^verbatim>\<open>crypto/sha256\<close> and \<^verbatim>\<open>crypto/sha1\<close>, the functions of FIPS 180-4 on
  32-bit words. Identifiers of issuers are SHA-256 digests in base64; the component theories use
  no more than the length of a digest.
\<close>

unbundle bit_operations_syntax

type_synonym u32 = "32 word"

definition rotr :: "nat \<Rightarrow> u32 \<Rightarrow> u32" where
  "rotr n x = drop_bit n x OR push_bit (32 - n) x"

definition rotl :: "nat \<Rightarrow> u32 \<Rightarrow> u32" where
  "rotl n x = push_bit n x OR drop_bit (32 - n) x"

text \<open>Big-endian words, padding to blocks of 64 bytes.\<close>

definition be_bytes :: "nat \<Rightarrow> nat \<Rightarrow> bytes" where
  "be_bytes k n = map (\<lambda>i. to_byte (n div 256 ^ (k - 1 - i) mod 256)) [0..<k]"

definition word_bytes :: "u32 \<Rightarrow> bytes" where
  "word_bytes w = be_bytes 4 (unat w)"

fun words_of_bytes :: "bytes \<Rightarrow> u32 list" where
  "words_of_bytes (a # b # c # d # s) =
     word_of_nat (((unat a * 256 + unat b) * 256 + unat c) * 256 + unat d) # words_of_bytes s"
| "words_of_bytes _ = []"

definition sha_pad :: "bytes \<Rightarrow> bytes" where
  "sha_pad m = m @ [128] @ replicate ((119 - length m mod 64) mod 64) 0 @ be_bytes 8 (8 * length m)"

fun blocks :: "nat \<Rightarrow> 'a list \<Rightarrow> 'a list list" where
  "blocks 0 xs = []"
| "blocks (Suc k) xs = take 16 xs # blocks k (drop 16 xs)"

definition sha_blocks :: "bytes \<Rightarrow> u32 list list" where
  "sha_blocks m = (let ws = words_of_bytes (sha_pad m) in blocks (length ws div 16) ws)"

section \<open>SHA-256\<close>

text \<open>
  The constants of SHA-256 are the first 32 bits of the fractional parts of the cube roots of the
  first 64 primes (round constants) and of the square roots of the first 8 (initial state). A root
  is computed bit by bit from the 40th down.
\<close>

definition int_root :: "nat \<Rightarrow> int \<Rightarrow> int" where
  "int_root k n = foldl (\<lambda>r i. if (r + 2 ^ i) ^ k \<le> n then r + 2 ^ i else r) 0 (rev [0..<40])"

definition root_bits :: "nat \<Rightarrow> int \<Rightarrow> u32" where
  "root_bits k p = word_of_int (int_root k (p * 2 ^ (32 * k)))"

definition primes_upto :: "int \<Rightarrow> int list" where
  "primes_upto n = filter (\<lambda>p. list_all (\<lambda>d. p mod d \<noteq> 0) [2..p - 1]) [2..n]"

definition sha256_K :: "u32 list" where
  "sha256_K = map (root_bits 3) (primes_upto 311)"

definition sha256_H0 :: "u32 list" where
  "sha256_H0 = map (root_bits 2) [2, 3, 5, 7, 11, 13, 17, 19]"

definition sha256_extend :: "u32 list \<Rightarrow> u32 list" where
  "sha256_extend ws =
     (let t = length ws; x = ws ! (t - 2); y = ws ! (t - 15);
          s1 = rotr 17 x XOR rotr 19 x XOR drop_bit 10 x;
          s0 = rotr 7 y XOR rotr 18 y XOR drop_bit 3 y
      in ws @ [s1 + ws ! (t - 7) + s0 + ws ! (t - 16)])"

fun sha256_round :: "u32 list \<Rightarrow> u32 \<times> u32 \<Rightarrow> u32 list" where
  "sha256_round [a, b, c, d, e, f, g, h] (k, w) =
     (let t1 = h + (rotr 6 e XOR rotr 11 e XOR rotr 25 e) + ((e AND f) XOR (NOT e AND g)) + k + w;
          t2 = (rotr 2 a XOR rotr 13 a XOR rotr 22 a) + ((a AND b) XOR (a AND c) XOR (b AND c))
      in [t1 + t2, a, b, c, d + t1, e, f, g])"
| "sha256_round s _ = s"

definition sha256_block :: "u32 list \<Rightarrow> u32 list \<Rightarrow> u32 list" where
  "sha256_block s ws =
     map2 (+) s (foldl sha256_round s (zip sha256_K ((sha256_extend ^^ 48) ws)))"

definition sha256 :: "bytes \<Rightarrow> bytes" where
  "sha256 m = concat (map word_bytes (foldl sha256_block sha256_H0 (sha_blocks m)))"

section \<open>SHA-1\<close>

definition sha1_H0 :: "u32 list" where
  "sha1_H0 = [0x67452301, 0xefcdab89, 0x98badcfe, 0x10325476, 0xc3d2e1f0]"

definition sha1_extend :: "u32 list \<Rightarrow> u32 list" where
  "sha1_extend ws =
     (let t = length ws
      in ws @ [rotl 1 (ws ! (t - 3) XOR ws ! (t - 8) XOR ws ! (t - 14) XOR ws ! (t - 16))])"

fun sha1_round :: "u32 list \<Rightarrow> nat \<times> u32 \<Rightarrow> u32 list" where
  "sha1_round [a, b, c, d, e] (t, w) =
     (let (f, k) =
        (if t < 20 then ((b AND c) XOR (NOT b AND d), 0x5a827999)
         else if t < 40 then (b XOR c XOR d, 0x6ed9eba1)
         else if t < 60 then ((b AND c) XOR (b AND d) XOR (c AND d), 0x8f1bbcdc)
         else (b XOR c XOR d, 0xca62c1d6))
      in [rotl 5 a + f + e + k + w, a, rotl 30 b, c, d])"
| "sha1_round s _ = s"

definition sha1_block :: "u32 list \<Rightarrow> u32 list \<Rightarrow> u32 list" where
  "sha1_block s ws =
     map2 (+) s (foldl sha1_round s (zip [0..<80] ((sha1_extend ^^ 64) ws)))"

definition sha1 :: "bytes \<Rightarrow> bytes" where
  "sha1 m = concat (map word_bytes (foldl sha1_block sha1_H0 (sha_blocks m)))"

section \<open>Lengths\<close>

lemma length_be_bytes [simp]: "length (be_bytes k n) = k"
  by (simp add: be_bytes_def)

lemma length_concat_word_bytes: "length (concat (map word_bytes ws)) = 4 * length ws"
  by (induction ws) (simp_all add: word_bytes_def)

lemma length_sha256_round: "length (sha256_round s p) = length s"
  by (induction s p rule: sha256_round.induct) (simp_all add: Let_def)

lemma length_sha1_round: "length (sha1_round s p) = length s"
  by (induction s p rule: sha1_round.induct) (simp_all add: Let_def)

lemma foldl_length:
  assumes "\<And>s x. length (f s x) = length s"
  shows "length (foldl f s xs) = length s"
  by (induction xs arbitrary: s) (simp_all add: assms)

lemma length_sha256 [simp]: "length (sha256 m) = 32"
proof -
  have "length (sha256_block s ws) = length s" for s ws
    by (simp add: sha256_block_def foldl_length length_sha256_round)
  then have "length (foldl sha256_block sha256_H0 (sha_blocks m)) = length sha256_H0"
    by (rule foldl_length)
  then show ?thesis by (simp add: sha256_def length_concat_word_bytes sha256_H0_def)
qed

lemma length_sha1 [simp]: "length (sha1 m) = 20"
proof -
  have "length (sha1_block s ws) = length s" for s ws
    by (simp add: sha1_block_def foldl_length length_sha1_round)
  then have "length (foldl sha1_block sha1_H0 (sha_blocks m)) = length sha1_H0"
    by (rule foldl_length)
  then show ?thesis by (simp add: sha1_def length_concat_word_bytes sha1_H0_def)
qed

end
