(* ===== verification/Go_Asn1.thy ===== *)
theory Go_Asn1
  imports CT_Prelude
begin

text \<open>
  The part of \<^verbatim>\<open>encoding/asn1\<close> that \<^verbatim>\<open>storage.NewSerial\<close> runs: the tag and length reader
  of DER, and the reading of a structure with an optional explicitly tagged field and a raw
  value. A small DER writer is defined beside it, to state that the reader inverts it.
\<close>

section \<open>Tags and lengths\<close>

record der_header =
  der_class :: nat
  der_compound :: bool
  der_tag :: nat
  der_length :: nat

text \<open>The base-128 number of a tag of 31 or more: at most five bytes, below \<open>2 ^ 31\<close>.\<close>

fun parse_base128 :: "nat \<Rightarrow> nat \<Rightarrow> bytes \<Rightarrow> (nat \<times> bytes) option" where
  "parse_base128 shifted acc [] = None"
| "parse_base128 shifted acc (b # s) =
     (if shifted = 5 then None
      else let acc' = acc * 128 + unat b mod 128
           in if unat b < 128 then (if acc' < 2 ^ 31 then Some (acc', s) else None)
              else parse_base128 (Suc shifted) acc' s)"

fun parse_long_length :: "nat \<Rightarrow> nat \<Rightarrow> bytes \<Rightarrow> (nat \<times> bytes) option" where
  "parse_long_length 0 acc s = Some (acc, s)"
| "parse_long_length (Suc k) acc [] = None"
| "parse_long_length (Suc k) acc (b # s) =
     (if 2 ^ 23 \<le> acc then None
      else let acc' = acc * 256 + unat b in if acc' = 0 then None else parse_long_length k acc' s)"

definition parse_length :: "bytes \<Rightarrow> (nat \<times> bytes) option" where
  "parse_length s =
     (case s of
        [] \<Rightarrow> None
      | b # s \<Rightarrow>
          (if unat b < 128 then Some (unat b, s)
           else if unat b = 128 then None
           else case parse_long_length (unat b - 128) 0 s of
                  None \<Rightarrow> None
                | Some (n, s) \<Rightarrow> if n < 128 then None else Some (n, s)))"

definition parse_tag_and_length :: "bytes \<Rightarrow> (der_header \<times> bytes) option" where
  "parse_tag_and_length s =
     (case s of
        [] \<Rightarrow> None
      | b # s \<Rightarrow>
          (let cls = unat b div 64; cmp = (unat b div 32 mod 2 = 1); t = unat b mod 32
           in case (if t = 31 then
                      (case parse_base128 0 0 s of
                         None \<Rightarrow> None
                       | Some (n, s) \<Rightarrow> if n < 31 then None else Some (n, s))
                    else Some (t, s)) of
                None \<Rightarrow> None
              | Some (tag, s) \<Rightarrow>
                  (case parse_length s of
                     None \<Rightarrow> None
                   | Some (len, s) \<Rightarrow>
                       Some (\<lparr>der_class = cls, der_compound = cmp, der_tag = tag, der_length = len\<rparr>, s))))"

section \<open>The fields of a TBSCertificate up to the serial number\<close>

text \<open>
  A field of type \<^verbatim>\<open>asn1.RawValue\<close> tagged \<^verbatim>\<open>optional,explicit,default:0,tag:0\<close>: taken when the
  tag is there, skipped when another one is. The result is what is left of the structure.
\<close>

definition skip_version :: "bytes \<Rightarrow> bytes option" where
  "skip_version s =
     (if s = [] then Some []
      else case parse_tag_and_length s of
             None \<Rightarrow> None
           | Some (h, r) \<Rightarrow>
               if r = [] then None
               else if der_class h = 2 \<and> der_tag h = 0 \<and> (der_length h = 0 \<or> der_compound h)
               then (if der_length h \<le> length r then Some (drop (der_length h) r) else None)
               else Some s)"

text \<open>The content octets of an \<^verbatim>\<open>asn1.RawValue\<close>.\<close>

definition raw_value_bytes :: "bytes \<Rightarrow> bytes option" where
  "raw_value_bytes s =
     (case parse_tag_and_length s of
        None \<Rightarrow> None
      | Some (h, r) \<Rightarrow> if der_length h \<le> length r then Some (take (der_length h) r) else None)"

definition tbs_serial :: "bytes \<Rightarrow> bytes option" where
  "tbs_serial s =
     (case parse_tag_and_length s of
        None \<Rightarrow> None
      | Some (h, r) \<Rightarrow>
          if der_class h = 0 \<and> der_tag h = 16 \<and> der_compound h \<and> der_length h \<le> length r
          then Option.bind (skip_version (take (der_length h) r)) raw_value_bytes
          else None)"

section \<open>A DER writer\<close>

definition der_len :: "nat \<Rightarrow> bytes" where
  "der_len n = (if n < 128 then [to_byte n]
     else if n < 256 then [to_byte 129, to_byte n]
     else [to_byte 130, to_byte (n div 256), to_byte (n mod 256)])"

definition der_tlv :: "nat \<Rightarrow> bytes \<Rightarrow> bytes" where
  "der_tlv t content = to_byte t # der_len (length content) @ content"

lemma parse_length_der_len [simp]:
  assumes "n < 65536"
  shows "parse_length (der_len n @ s) = Some (n, s)"
proof -
  consider "n < 128" | "128 \<le> n" "n < 256" | "256 \<le> n" by linarith
  then show ?thesis
  proof cases
    case 1
    then show ?thesis by (simp add: parse_length_def der_len_def)
  next
    case 2
    then show ?thesis by (simp add: parse_length_def der_len_def)
  next
    case 3
    have "n div 256 * 256 + n mod 256 = n" "n div 256 < 256" "n div 256 \<noteq> 0" using 3 assms by auto
    then have "parse_long_length (Suc (Suc 0)) 0 (to_byte (n div 256) # to_byte (n mod 256) # s) = Some (n, s)"
      using assms by (simp add: Let_def)
    then have "parse_long_length 2 0 (to_byte (n div 256) # to_byte (n mod 256) # s) = Some (n, s)"
      by (simp only: numeral_2_eq_2)
    then show ?thesis using 3 by (simp add: parse_length_def der_len_def)
  qed
qed

lemma parse_tag_der_tlv [simp]:
  assumes "t < 256" and "t mod 32 \<noteq> 31" and "length content < 65536"
  shows "parse_tag_and_length (der_tlv t content @ s) =
    Some (\<lparr>der_class = t div 64, der_compound = (t div 32 mod 2 = 1), der_tag = t mod 32,
      der_length = length content\<rparr>, content @ s)"
  using assms by (simp add: parse_tag_and_length_def der_tlv_def Let_def)

lemma parse_tag_der_tlv_end [simp]:
  assumes "t < 256" and "t mod 32 \<noteq> 31" and "length content < 65536"
  shows "parse_tag_and_length (der_tlv t content) =
    Some (\<lparr>der_class = t div 64, der_compound = (t div 32 mod 2 = 1), der_tag = t mod 32,
      der_length = length content\<rparr>, content)"
  using parse_tag_der_tlv [OF assms, of "[]"] by simp

lemma skip_version_v3:
  assumes "length ver < 65536" and "ver @ s \<noteq> []"
  shows "skip_version (der_tlv 160 ver @ s) = Some s"
proof -
  have "der_tlv 160 ver \<noteq> []" by (simp add: der_tlv_def)
  then show ?thesis using assms by (simp add: skip_version_def)
qed

lemma skip_version_absent:
  assumes "length ser < 65536" and "ser @ s \<noteq> []"
  shows "skip_version (der_tlv 2 ser @ s) = Some (der_tlv 2 ser @ s)"
proof -
  have "der_tlv 2 ser \<noteq> []" by (simp add: der_tlv_def)
  then show ?thesis using assms by (simp add: skip_version_def)
qed

lemma raw_value_bytes_tlv [simp]:
  "t < 256 \<Longrightarrow> t mod 32 \<noteq> 31 \<Longrightarrow> length c < 65536 \<Longrightarrow> raw_value_bytes (der_tlv t c @ s) = Some c"
  by (simp add: raw_value_bytes_def)

text \<open>The serial number's content octets come back as written, leading zeros and all.\<close>

lemma tbs_serial_v3:
  assumes "length (der_tlv 160 ver @ der_tlv 2 ser @ rest) < 65536"
  shows "tbs_serial (der_tlv 48 (der_tlv 160 ver @ der_tlv 2 ser @ rest)) = Some ser"
proof -
  have l: "length ver < 65536" "length ser < 65536" "der_tlv 2 ser \<noteq> []"
    using assms by (auto simp: der_tlv_def)
  then show ?thesis
    using assms skip_version_v3 [of ver "der_tlv 2 ser @ rest"] by (simp add: tbs_serial_def)
qed

lemma tbs_serial_v1:
  assumes "length (der_tlv 2 ser @ rest) < 65536" and "ser \<noteq> []"
  shows "tbs_serial (der_tlv 48 (der_tlv 2 ser @ rest)) = Some ser"
proof -
  have l: "length ser < 65536" using assms by (auto simp: der_tlv_def)
  then show ?thesis
    using assms skip_version_absent [of ser rest] by (simp add: tbs_serial_def)
qed

end
