(* ===== verification/Types.thy ===== *)
theory Types
  imports Go_Time Go_Digest Go_Asn1
begin

text \<open>
  \<^verbatim>\<open>storage/types.go\<close>: log states, issuers, serial numbers, expiration dates and the
  identifiers built from them, each with its printers and parsers.
\<close>

section \<open>Certificates\<close>

text \<open>
  The fields of the third-party type \<^verbatim>\<open>x509.Certificate\<close> the repository reads. The parsed
  distinguished name of the issuer appears through \<^verbatim>\<open>Issuer.String()\<close> and
  \<^verbatim>\<open>Issuer.CommonName\<close> only.
\<close>

record Certificate =
  Raw :: bytes
  RawTBSCertificate :: bytes
  RawSubjectPublicKeyInfo :: bytes
  SubjectKeyId :: bytes
  NotAfter :: gotime
  Issuer_String :: string
  Issuer_CommonName :: string
  CRLDistributionPoints :: "string list"
  BasicConstraintsValid :: bool
  IsCA :: bool

section \<open>Log states\<close>

record CertificateLog =
  ShortURL :: string
  MaxEntry :: int
  LastEntryTime :: gotime
  LastUpdateTime :: gotime

text \<open>\<open>show_time\<close> is \<^verbatim>\<open>Time.String\<close>, which prints the name of the process's time zone.\<close>

definition CertificateLog_String :: "(gotime \<Rightarrow> string) \<Rightarrow> CertificateLog \<Rightarrow> string" where
  "CertificateLog_String show_time l =
     ''['' @ ShortURL l @ ''] MaxEntry='' @ dec_of_int (MaxEntry l)
     @ '', LastEntryTime='' @ show_time (LastEntryTime l)
     @ '' LastUpdateTime='' @ show_time (LastUpdateTime l)"

definition CertificateLogIDFromShortURL :: "string \<Rightarrow> string" where
  "CertificateLogIDFromShortURL shortURL = b64_encode (bytes_of_string shortURL)"

definition CertificateLog_ID :: "CertificateLog \<Rightarrow> string" where
  "CertificateLog_ID l = CertificateLogIDFromShortURL (ShortURL l)"

definition blank_log :: "string \<Rightarrow> CertificateLog" where
  "blank_log shortUrl =
     \<lparr>ShortURL = shortUrl, MaxEntry = 0, LastEntryTime = zero_time, LastUpdateTime = zero_time\<rparr>"

section \<open>Issuers\<close>

datatype SPKI = SPKI (spki_bytes: bytes)

definition SPKI_ID :: "SPKI \<Rightarrow> string" where
  "SPKI_ID s = b64_encode (spki_bytes s)"

definition SPKI_String :: "SPKI \<Rightarrow> string" where
  "SPKI_String s = hex_encode (spki_bytes s)"

definition Sha256DigestURLEncodedBase64 :: "SPKI \<Rightarrow> string" where
  "Sha256DigestURLEncodedBase64 s = b64_encode (sha256 (spki_bytes s))"

record Issuer =
  issuer_id :: "string option"
  issuer_spki :: SPKI

definition NewIssuer :: "Certificate \<Rightarrow> Issuer" where
  "NewIssuer aCert = \<lparr>issuer_id = None, issuer_spki = SPKI (RawSubjectPublicKeyInfo aCert)\<rparr>"

definition NewIssuerFromString :: "string \<Rightarrow> Issuer" where
  "NewIssuerFromString aStr = \<lparr>issuer_id = Some aStr, issuer_spki = SPKI []\<rparr>"

text \<open>\<^verbatim>\<open>Issuer.ID\<close> fills the identifier in on first use; the receiver is updated in place.\<close>

definition Issuer_ID :: "Issuer \<Rightarrow> string \<times> Issuer" where
  "Issuer_ID self =
     (case issuer_id self of
        None \<Rightarrow> (let d = Sha256DigestURLEncodedBase64 (issuer_spki self) in (d, self\<lparr>issuer_id := Some d\<rparr>))
      | Some i \<Rightarrow> (i, self))"

abbreviation iss_id :: "Issuer \<Rightarrow> string" where
  "iss_id self \<equiv> fst (Issuer_ID self)"

text \<open>Calling it again, on the updated or on the original issuer, gives the same identifier.\<close>

lemma Issuer_ID_idem [simp]: "Issuer_ID (snd (Issuer_ID self)) = Issuer_ID self"
  by (auto simp: Issuer_ID_def Let_def split: option.splits)

lemma iss_id_FromString [simp]: "iss_id (NewIssuerFromString s) = s"
  by (simp add: Issuer_ID_def NewIssuerFromString_def)

lemma iss_id_NewIssuer:
  "iss_id (NewIssuer c) = b64_encode (sha256 (RawSubjectPublicKeyInfo c))"
  by (simp add: Issuer_ID_def NewIssuer_def Sha256DigestURLEncodedBase64_def Let_def)

lemma iss_id_NewIssuer_shape:
  "length (iss_id (NewIssuer c)) = 44 \<and> CHR '':'' \<notin> set (iss_id (NewIssuer c))
    \<and> CHR ''/'' \<notin> set (iss_id (NewIssuer c))"
  by (simp add: iss_id_NewIssuer length_b64_encode)

section \<open>Serial numbers\<close>

datatype Serial = Serial (serial: bytes)

definition NewSerialFromBytes :: "bytes \<Rightarrow> Serial" where
  "NewSerialFromBytes b = Serial b"

definition NewSerial :: "Certificate \<Rightarrow> Serial outcome" where
  "NewSerial aCert =
     (case tbs_serial (RawTBSCertificate aCert) of
        None \<Rightarrow> Panic ''asn1''
      | Some b \<Rightarrow> Done (NewSerialFromBytes b))"

definition NewSerialFromHex :: "string \<Rightarrow> Serial outcome" where
  "NewSerialFromHex s =
     (case hex_decode s of (b, None) \<Rightarrow> Done (Serial b) | (b, Some e) \<Rightarrow> Panic ''hex'')"

definition NewSerialFromIDString :: "string \<Rightarrow> Serial res" where
  "NewSerialFromIDString s =
     (case b64_decode s of Inl e \<Rightarrow> Inl e | Inr b \<Rightarrow> Inr (NewSerialFromBytes b))"

definition NewSerialFromBinaryString :: "string \<Rightarrow> Serial res" where
  "NewSerialFromBinaryString s = Inr (NewSerialFromBytes (bytes_of_string s))"

definition Serial_ID :: "Serial \<Rightarrow> string" where
  "Serial_ID s = b64_encode (serial s)"

definition BinaryString :: "Serial \<Rightarrow> string" where
  "BinaryString s = string_of_bytes (serial s)"

definition HexString :: "Serial \<Rightarrow> string" where
  "HexString s = hex_encode (serial s)"

definition Serial_String :: "Serial \<Rightarrow> string" where
  "Serial_String s = HexString s"

definition Serial_Cmp :: "Serial \<Rightarrow> Serial \<Rightarrow> int" where
  "Serial_Cmp s t = go_compare (serial s) (serial t)"

text \<open>
  \<^verbatim>\<open>json.Marshal\<close> of a string of hexadecimal digits puts quotes around it and escapes nothing.
  \<^verbatim>\<open>UnmarshalJSON\<close> indexes the first and the last byte and slices between them: on empty data,
  or on a lone quote, that is a run-time panic.
\<close>

abbreviation quote :: char where "quote \<equiv> CHR 0x22"

definition Serial_MarshalJSON :: "Serial \<Rightarrow> string" where
  "Serial_MarshalJSON s = [quote] @ HexString s @ [quote]"

definition Serial_UnmarshalJSON :: "Serial \<Rightarrow> string \<Rightarrow> (Serial \<times> go_error option) outcome" where
  "Serial_UnmarshalJSON s data =
     (if data = [] then Panic ''index out of range''
      else if hd data \<noteq> quote \<or> last data \<noteq> quote
      then Done (s, Some (Errorf ''Expected surrounding quotes''))
      else if length data < 2 then Panic ''slice bounds out of range''
      else let (b, err) = hex_decode (butlast (tl data)) in Done (Serial b, err))"

definition Serial_MarshalBinary :: "Serial \<Rightarrow> string" where
  "Serial_MarshalBinary s = Serial_MarshalJSON s"

definition Serial_UnmarshalBinary :: "Serial \<Rightarrow> string \<Rightarrow> (Serial \<times> go_error option) outcome" where
  "Serial_UnmarshalBinary s data = Serial_UnmarshalJSON s data"

text \<open>\<^verbatim>\<open>big.Int.SetBytes\<close>: the bytes as a big-endian number.\<close>

definition AsBigInt :: "Serial \<Rightarrow> nat" where
  "AsBigInt s = foldl (\<lambda>n b. 256 * n + unat b) 0 (serial s)"

text \<open>The methods of \<^verbatim>\<open>sort.Interface\<close> on lists of serials; an index out of range panics.\<close>

type_synonym SerialList = "Serial list"

definition SerialList_Len :: "SerialList \<Rightarrow> nat" where
  "SerialList_Len sl = length sl"

definition SerialList_Less :: "SerialList \<Rightarrow> nat \<Rightarrow> nat \<Rightarrow> bool outcome" where
  "SerialList_Less sl i j =
     (if i < length sl \<and> j < length sl then Done (Serial_Cmp (sl ! i) (sl ! j) < 0)
      else Panic ''index out of range'')"

definition slice_Swap :: "'a list \<Rightarrow> nat \<Rightarrow> nat \<Rightarrow> 'a list outcome" where
  "slice_Swap sl i j =
     (if i < length sl \<and> j < length sl
      then (let tmp = sl ! i; sl = sl[i := sl ! j] in Done (sl[j := tmp]))
      else Panic ''index out of range'')"

definition SerialList_Swap :: "SerialList \<Rightarrow> nat \<Rightarrow> nat \<Rightarrow> SerialList outcome" where
  "SerialList_Swap sl i j = slice_Swap sl i j"

text \<open>The order of \<^verbatim>\<open>Cmp\<close> is the library's linear order on serials.\<close>

lemma serial_eq_iff: "serial s = serial t \<longleftrightarrow> s = t"
  by (cases s; cases t) simp

instantiation Serial :: linorder
begin

definition less_eq_Serial :: "Serial \<Rightarrow> Serial \<Rightarrow> bool" where
  "less_eq_Serial s t \<longleftrightarrow> serial s \<le> serial t"

definition less_Serial :: "Serial \<Rightarrow> Serial \<Rightarrow> bool" where
  "less_Serial s t \<longleftrightarrow> serial s < serial t"

instance
proof
  fix x y :: Serial
  show "x \<le> y \<or> y \<le> x"
    unfolding less_eq_Serial_def by (rule linear)
qed (auto simp: less_eq_Serial_def less_Serial_def less_le_not_le serial_eq_iff [symmetric])

end

lemma Serial_Cmp_order: "Serial_Cmp s t = go_compare s t"
  by (simp add: Serial_Cmp_def go_compare_def less_Serial_def serial_eq_iff)

lemma NewSerialFromIDString_ID [go_codec]: "NewSerialFromIDString (Serial_ID s) = Inr s"
  by (simp add: NewSerialFromIDString_def Serial_ID_def NewSerialFromBytes_def)

lemma NewSerialFromBinaryString_BinaryString [go_codec]:
  "NewSerialFromBinaryString (BinaryString s) = Inr s"
  by (simp add: NewSerialFromBinaryString_def BinaryString_def NewSerialFromBytes_def)

lemma NewSerialFromHex_HexString [go_codec]: "NewSerialFromHex (HexString s) = Done s"
  by (simp add: NewSerialFromHex_def HexString_def)

lemma Serial_UnmarshalJSON_MarshalJSON [go_codec]:
  "Serial_UnmarshalJSON t (Serial_MarshalJSON s) = Done (s, None)"
  by (simp add: Serial_UnmarshalJSON_def Serial_MarshalJSON_def HexString_def)

lemma BinaryString_inject [simp]: "BinaryString s = BinaryString t \<longleftrightarrow> s = t"
  by (simp add: BinaryString_def serial_eq_iff)

lemma Serial_ID_inject [simp]: "Serial_ID s = Serial_ID t \<longleftrightarrow> s = t"
  by (simp add: Serial_ID_def serial_eq_iff)

lemma HexString_inject: "HexString s = HexString t \<longleftrightarrow> s = t"
  by (metis NewSerialFromHex_HexString outcome.inject(1))

section \<open>Expiration dates\<close>

record ExpDate =
  date :: gotime
  lastGood :: gotime
  hourResolution :: bool

definition NewExpDateFromTime :: "gotime \<Rightarrow> ExpDate" where
  "NewExpDateFromTime t =
     (let truncTime = Truncate t Hour
      in \<lparr>date = truncTime, lastGood = Add truncTime (- 1 * Millisecond), hourResolution = True\<rparr>)"

definition NewExpDate_day :: "string \<Rightarrow> ExpDate res" where
  "NewExpDate_day s =
     (case Parse_day s of
        Inr t \<Rightarrow>
          (let lastGood = Add t (24 * Hour); lastGood = Add lastGood (- 1 * Millisecond)
           in Inr \<lparr>date = t, lastGood = lastGood, hourResolution = False\<rparr>)
      | Inl err \<Rightarrow> Inl err)"

definition NewExpDate :: "string \<Rightarrow> ExpDate res" where
  "NewExpDate s =
     (if 10 < length s
      then (case Parse_hour s of
              Inr t \<Rightarrow>
                (let lastGood = Add t (1 * Hour); lastGood = Add lastGood (- 1 * Millisecond)
                 in Inr \<lparr>date = t, lastGood = lastGood, hourResolution = True\<rparr>)
            | Inl err \<Rightarrow> NewExpDate_day s)
      else NewExpDate_day s)"

definition IsExpiredAt :: "ExpDate \<Rightarrow> gotime \<Rightarrow> bool" where
  "IsExpiredAt e t \<longleftrightarrow> Before (lastGood e) t"

definition ExpireTime :: "ExpDate \<Rightarrow> gotime" where
  "ExpireTime e = date e"

definition ExpDate_ID :: "ExpDate \<Rightarrow> string" where
  "ExpDate_ID e = (if hourResolution e then Format_hour (date e) else Format_day (date e))"

definition ExpDate_String :: "ExpDate \<Rightarrow> string" where
  "ExpDate_String e = ExpDate_ID e"

type_synonym ExpDateList = "ExpDate list"

definition ExpDateList_Len :: "ExpDateList \<Rightarrow> nat" where
  "ExpDateList_Len sl = length sl"

definition ExpDateList_Less :: "ExpDateList \<Rightarrow> nat \<Rightarrow> nat \<Rightarrow> bool outcome" where
  "ExpDateList_Less sl i j =
     (if i < length sl \<and> j < length sl then Done (Before (date (sl ! i)) (date (sl ! j)))
      else Panic ''index out of range'')"

definition ExpDateList_Swap :: "ExpDateList \<Rightarrow> nat \<Rightarrow> nat \<Rightarrow> ExpDateList outcome" where
  "ExpDateList_Swap sl i j = slice_Swap sl i j"

section \<open>Identifiers built from the parts\<close>

record UniqueCertIdentifier =
  uci_ExpDate :: ExpDate
  uci_Issuer :: Issuer
  uci_SerialNum :: Serial

definition ParseUniqueCertIdentifier :: "string \<Rightarrow> UniqueCertIdentifier res" where
  "ParseUniqueCertIdentifier s =
     (case strings_split ''::'' s of
        [p0, p1, p2] \<Rightarrow>
          (case NewExpDate p0 of
             Inl err \<Rightarrow> Inl err
           | Inr e \<Rightarrow>
               (let i = NewIssuerFromString p1
                in case NewSerialFromIDString p2 of
                     Inl err \<Rightarrow> Inl err
                   | Inr n \<Rightarrow> Inr \<lparr>uci_ExpDate = e, uci_Issuer = i, uci_SerialNum = n\<rparr>))
      | parts \<Rightarrow> Inl (Errorf (''Expected 3 parts, got '' @ dec_of_nat (length parts))))"

definition UniqueCertIdentifier_String :: "UniqueCertIdentifier \<Rightarrow> string" where
  "UniqueCertIdentifier_String u =
     ExpDate_ID (uci_ExpDate u) @ ''::'' @ iss_id (uci_Issuer u) @ ''::'' @ Serial_ID (uci_SerialNum u)"

record IssuerAndDate =
  iad_ExpDate :: ExpDate
  iad_Issuer :: Issuer

definition ParseIssuerAndDate :: "string \<Rightarrow> IssuerAndDate res" where
  "ParseIssuerAndDate s =
     (case strings_split ''/'' s of
        [p0, p1] \<Rightarrow>
          (case NewExpDate p0 of
             Inl err \<Rightarrow> Inl err
           | Inr expDate \<Rightarrow> Inr \<lparr>iad_ExpDate = expDate, iad_Issuer = NewIssuerFromString p1\<rparr>)
      | parts \<Rightarrow> Inl (Errorf (''Unexpected number of parts: '' @ dec_of_nat (length parts)
                              @ '' from '' @ s)))"

definition IssuerAndDate_String :: "IssuerAndDate \<Rightarrow> string" where
  "IssuerAndDate_String t = ExpDate_ID (iad_ExpDate t) @ ''/'' @ iss_id (iad_Issuer t)"

record IssuerDate =
  idt_Issuer :: Issuer
  idt_ExpDates :: "ExpDate list"

section \<open>Round trips and their consequences\<close>

text \<open>Truncating to the hour commutes with reading a time in UTC.\<close>

lemma NewExpDateFromTime_simps [simp]:
  "t_off (date (NewExpDateFromTime t)) = t_off t"
  "t_ns (date (NewExpDateFromTime t)) = t_ns t - t_ns t mod Hour"
  "t_ns (lastGood (NewExpDateFromTime t)) = t_ns t - t_ns t mod Hour - Millisecond"
  "hourResolution (NewExpDateFromTime t)"
  by (simp_all add: NewExpDateFromTime_def Truncate_def Add_def Let_def)

lemma gotime_eqI: "t_ns t = t_ns u \<Longrightarrow> t_off t = t_off u \<Longrightarrow> t = (u :: gotime)"
  by (rule gotime.equality) simp_all

lemma year_4_digits_hour_start:
  assumes "t_off t = 0"
  shows "year_4_digits (date (NewExpDateFromTime t)) \<longleftrightarrow> year_4_digits t"
proof -
  have "(t_ns t - t_ns t mod Hour) div Day_ns = t_ns t div Day_ns"
  proof (rule int_div_pos_eq)
    show "t_ns t - t_ns t mod Hour = Day_ns * (t_ns t div Day_ns) + local_hour t * Hour"
      using local_ns_split [of t] assms by (simp add: local_ns_def)
    show "0 \<le> local_hour t * Hour" "local_hour t * Hour < Day_ns"
      using local_hour_bounds [of t] by auto
  qed
  then show ?thesis
    using assms by (simp add: year_4_digits_def local_date_def local_ns_def)
qed

lemma NewExpDate_of_hour_ID:
  assumes "t_off t = 0" and "year_4_digits t" and "t_ns t mod Hour = 0"
  shows "NewExpDate (Format_hour t) =
    Inr \<lparr>date = t, lastGood = Add (Add t (1 * Hour)) (- 1 * Millisecond), hourResolution = True\<rparr>"
proof -
  have "utc (local_ns t - local_ns t mod Hour) = t"
    using assms by (intro gotime_eqI) (simp_all add: utc_def local_ns_def)
  then show ?thesis
    using assms by (simp add: NewExpDate_def length_Format_hour Parse_Format_hour)
qed

lemma NewExpDate_of_day_ID:
  assumes "t_off t = 0" and "year_4_digits t" and "t_ns t mod Day_ns = 0"
  shows "NewExpDate (Format_day t) =
    Inr \<lparr>date = t, lastGood = Add (Add t (24 * Hour)) (- 1 * Millisecond), hourResolution = False\<rparr>"
proof -
  have "utc (local_ns t div Day_ns * Day_ns) = t"
    using assms div_mult_mod_eq [of "t_ns t" Day_ns]
    by (intro gotime_eqI) (simp_all add: utc_def local_ns_def)
  then show ?thesis
    using assms by (simp add: NewExpDate_def NewExpDate_day_def length_Format_day Parse_Format_day)
qed

lemma Parse_day_length: "Parse_day s = Inr t \<Longrightarrow> length s = 10"
  using Format_Parse_day length_Format_day by metis

lemma NewExpDate_Inr:
  assumes "NewExpDate s = Inr e"
  obtains (hour) t where "10 < length s" "Parse_hour s = Inr t" "date e = t" "hourResolution e"
      "e = \<lparr>date = t, lastGood = Add (Add t (1 * Hour)) (- 1 * Millisecond), hourResolution = True\<rparr>"
  | (day) t where "length s = 10" "Parse_day s = Inr t" "date e = t" "\<not> hourResolution e"
      "e = \<lparr>date = t, lastGood = Add (Add t (24 * Hour)) (- 1 * Millisecond), hourResolution = False\<rparr>"
  using assms
  by (auto simp: NewExpDate_def NewExpDate_day_def Let_def dest: Parse_day_length
      split: if_splits sum.splits)

text \<open>An expiration date is well formed when parsing a string can have produced it.\<close>

definition parsed_exp :: "ExpDate \<Rightarrow> bool" where
  "parsed_exp e \<longleftrightarrow>
     t_off (date e) = 0 \<and> year_4_digits (date e) \<and>
     (if hourResolution e
      then t_ns (date e) mod Hour = 0 \<and> lastGood e = Add (Add (date e) (1 * Hour)) (- 1 * Millisecond)
      else t_ns (date e) mod Day_ns = 0 \<and> lastGood e = Add (Add (date e) (24 * Hour)) (- 1 * Millisecond))"

lemma parsed_exp_NewExpDate: "NewExpDate s = Inr e \<Longrightarrow> parsed_exp e"
  by (erule NewExpDate_Inr)
    (auto simp: parsed_exp_def dest: Parse_hour_Inr Format_Parse_day)

lemma NewExpDate_ExpDate_ID [go_codec]:
  assumes "parsed_exp e"
  shows "NewExpDate (ExpDate_ID e) = Inr e"
proof (cases "hourResolution e")
  case True
  then have "NewExpDate (ExpDate_ID e) =
    Inr \<lparr>date = date e, lastGood = Add (Add (date e) (1 * Hour)) (- 1 * Millisecond), hourResolution = True\<rparr>"
    using assms by (simp add: ExpDate_ID_def parsed_exp_def NewExpDate_of_hour_ID)
  then show ?thesis using assms True by (auto simp: parsed_exp_def intro!: ExpDate.equality)
next
  case False
  then have "NewExpDate (ExpDate_ID e) =
    Inr \<lparr>date = date e, lastGood = Add (Add (date e) (24 * Hour)) (- 1 * Millisecond), hourResolution = False\<rparr>"
    using assms by (simp add: ExpDate_ID_def parsed_exp_def NewExpDate_of_day_ID)
  then show ?thesis using assms False by (auto simp: parsed_exp_def intro!: ExpDate.equality)
qed

lemma digits_no_sep:
  assumes "of_char c \<notin> {48..57 :: nat}"
  shows "n < 100 \<Longrightarrow> c \<notin> set (dec2 n)" and "n < 10000 \<Longrightarrow> c \<notin> set (dec4 n)"
proof -
  have d: "digit_char k \<noteq> c" if "k < 10" for k
    using that assms of_digit_char [of k] by auto
  show "n < 100 \<Longrightarrow> c \<notin> set (dec2 n)" "n < 10000 \<Longrightarrow> c \<notin> set (dec4 n)"
    by (simp_all add: d d [THEN not_sym] dec2_def dec4_def)
qed

lemma ExpDate_ID_free:
  assumes "year_4_digits (date e)" and "of_char c \<notin> {45} \<union> {48..57 :: nat}"
  shows "c \<notin> set (ExpDate_ID e)"
proof -
  obtain y m d where ld: "local_date (date e) = (y, m, d)" by (cases "local_date (date e)") auto
  have y: "0 \<le> y" "y \<le> 9999" using assms(1) ld by (auto simp: year_4_digits_def)
  have "valid_date y m d" using parse_ymd_Format_day [OF ld y] by simp
  then have m: "1 \<le> m" "m \<le> 12" and d: "1 \<le> d" "d \<le> 31"
    using days_in_le_31 [of m "is_leap y"] by (auto simp: valid_date_def)
  have "c \<noteq> CHR ''-''" using assms(2) by auto
  then show ?thesis
    using digits_no_sep [of c] assms(2) y m d ld local_hour_bounds [of "date e"]
    by (auto simp: ExpDate_ID_def Format_hour_def Format_day_def append_int_4 append_int_2)
qed

lemma ExpDate_ID_no_colon: "year_4_digits (date e) \<Longrightarrow> CHR '':'' \<notin> set (ExpDate_ID e)"
  and ExpDate_ID_no_slash: "year_4_digits (date e) \<Longrightarrow> CHR ''/'' \<notin> set (ExpDate_ID e)"
  by (rule ExpDate_ID_free; simp)+

text \<open>
  C35. The four encodings of a serial number (base64 identifier, binary string, hexadecimal,
  quoted JSON) are undone by their readers, so no serial is confused with another one.
\<close>

theorem serial_codecs_roundtrip:
  "NewSerialFromIDString (Serial_ID s) = Inr s \<and>
   NewSerialFromBinaryString (BinaryString s) = Inr s \<and>
   NewSerialFromHex (HexString s) = Done s \<and>
   Serial_UnmarshalJSON t (Serial_MarshalJSON s) = Done (s, None) \<and>
   Serial_UnmarshalBinary t (Serial_MarshalBinary s) = Done (s, None)"
  by (simp add: go_codec Serial_UnmarshalBinary_def Serial_MarshalBinary_def)

text \<open>
  \<^verbatim>\<open>NewSerial\<close> returns the content octets of the serial number of a DER TBSCertificate,
  leading zeros included, with or without an explicit version in front.
\<close>

theorem NewSerial_content_octets:
  assumes "RawTBSCertificate c = der_tlv 48 (der_tlv 160 ver @ der_tlv 2 ser @ rest)
      \<and> length (der_tlv 160 ver @ der_tlv 2 ser @ rest) < 65536
    \<or> RawTBSCertificate c = der_tlv 48 (der_tlv 2 ser @ rest)
      \<and> length (der_tlv 2 ser @ rest) < 65536 \<and> ser \<noteq> []"
  shows "NewSerial c = Done (Serial ser)"
  using assms by (auto simp: NewSerial_def NewSerialFromBytes_def tbs_serial_v3 tbs_serial_v1)

definition sample_cert :: Certificate where
  "sample_cert =
     \<lparr>Raw = [1, 2, 3],
      RawTBSCertificate = der_tlv 48 (der_tlv 160 [2, 1, 2] @ der_tlv 2 [0, 170] @ [48, 0]),
      RawSubjectPublicKeyInfo = [255], SubjectKeyId = [], NotAfter = utc (63200000000 * Second + 5),
      Issuer_String = ''CN=ca'', Issuer_CommonName = ''ca'', CRLDistributionPoints = [''http://a/b.crl''],
      BasicConstraintsValid = False, IsCA = False\<rparr>"

theorem NewSerial_content_octets_witness: "NewSerial sample_cert = Done (Serial [0, 170])"
  by (rule NewSerial_content_octets [where ver = "[2, 1, 2]" and rest = "[48, 0]"])
    (simp add: sample_cert_def der_tlv_def der_len_def)

text \<open>
  C36. Parsing a JSON serial panics on empty data and on a lone quote, and on no other data: every
  other malformed input is reported as an error.
\<close>

theorem Serial_UnmarshalJSON_panics:
  "(\<exists>m. Serial_UnmarshalJSON s data = Panic m) \<longleftrightarrow> data = [] \<or> data = [quote]"
proof -
  have "length data < 2 \<longleftrightarrow> data = [] \<or> (\<exists>c. data = [c])"
    by (cases data; cases "tl data") auto
  then show ?thesis
    by (auto simp: Serial_UnmarshalJSON_def split: prod.splits)
qed

lemma foldl_big_endian:
  "foldl (\<lambda>n b. 256 * n + unat (b :: byte)) k bs = k * 256 ^ length bs + foldl (\<lambda>n b. 256 * n + unat b) 0 bs"
proof (induction bs arbitrary: k)
  case (Cons b bs)
  show ?case
    by (simp only: foldl_Cons Cons [of "256 * k + unat b"] Cons [of "256 * 0 + unat b"])
      (simp add: algebra_simps)
qed simp

lemma big_endian_less: "foldl (\<lambda>n b. 256 * n + unat (b :: byte)) 0 bs < 256 ^ length bs"
proof (induction bs rule: rev_induct)
  case (snoc b bs)
  then show ?case using unat_byte_less [of b] by auto
qed simp

text \<open>
  Serials of equal length are ordered by \<^verbatim>\<open>Cmp\<close> as the numbers they encode, and two of
  them with the same number are equal.
\<close>

theorem Serial_Cmp_AsBigInt:
  assumes "length (serial s) = length (serial t)"
  shows "(Serial_Cmp s t < 0) = (AsBigInt s < AsBigInt t) \<and> (Serial_Cmp s t = 0) = (AsBigInt s = AsBigInt t)"
proof -
  define v where "v bs = foldl (\<lambda>n b. 256 * n + unat (b :: byte)) 0 bs" for bs
  have v: "v (a # bs) = unat a * 256 ^ length bs + v bs" for a bs
    unfolding v_def using foldl_big_endian [of "unat a" bs] by simp
  have step: "(x * k + p < y * k + q) = (x < y \<or> x = y \<and> p < q)"
    "(x * k + p = y * k + q) = (x = y \<and> p = q)" if "p < k" "q < k" for x y p q k :: nat
  proof -
    have "(x * k + p) div k = x" "(x * k + p) mod k = p" "(y * k + q) div k = y" "(y * k + q) mod k = q"
      using that by auto
    then show "(x * k + p = y * k + q) = (x = y \<and> p = q)" by metis
    have "x < y \<Longrightarrow> x * k + p < y * k + q"
      using that mult_le_mono1 [of "Suc x" y k] by simp
    moreover have "y < x \<Longrightarrow> y * k + q < x * k + p"
      using that mult_le_mono1 [of "Suc y" x k] by simp
    ultimately show "(x * k + p < y * k + q) = (x < y \<or> x = y \<and> p < q)"
      by (cases x y rule: linorder_cases) auto
  qed
  have "length a = length b \<Longrightarrow> (a < b) = (v a < v b) \<and> (a = b) = (v a = v b)" for a b
  proof (induction a b rule: list_induct2)
    case (Cons x xs y ys)
    have "v xs < 256 ^ length xs" "v ys < 256 ^ length xs"
      using big_endian_less [of xs] big_endian_less [of ys] Cons.hyps by (simp_all add: v_def)
    from step [OF this] Cons show ?case
      by (auto simp: v word_less_nat_alt word_unat_eq_iff)
  qed (simp add: v_def)
  then show ?thesis
    using assms by (simp add: Serial_Cmp_def AsBigInt_def v_def)
qed

theorem Serial_Cmp_AsBigInt_witness:
  "(Serial_Cmp (Serial [0, 2]) (Serial [1, 1]) < 0) = (AsBigInt (Serial [0, 2]) < AsBigInt (Serial [1, 1]))
   \<and> AsBigInt (Serial [1, 1]) = 257"
  using Serial_Cmp_AsBigInt [of "Serial [0, 2]" "Serial [1, 1]"] by (simp add: AsBigInt_def)

text \<open>
  C37. Reading an expiration bucket's identifier is canonical: whatever string it was parsed from,
  the identifier printed for it parses to the very same bucket, and a day bucket prints as the
  string it was read from.
\<close>

theorem NewExpDate_canonical:
  assumes "NewExpDate s = Inr e"
  shows "NewExpDate (ExpDate_ID e) = Inr e \<and> (length s = 10 \<longrightarrow> ExpDate_ID e = s)"
proof
  show "NewExpDate (ExpDate_ID e) = Inr e"
    using assms by (intro NewExpDate_ExpDate_ID parsed_exp_NewExpDate)
  show "length s = 10 \<longrightarrow> ExpDate_ID e = s"
    using assms by (cases rule: NewExpDate_Inr) (auto simp: ExpDate_ID_def Format_Parse_day)
qed

definition sample_bucket :: ExpDate where
  "sample_bucket = \<lparr>date = utc (64000036800 * Second), lastGood = utc (64000040400 * Second - Millisecond), hourResolution = True\<rparr>"

lemma NewExpDate_sample: "NewExpDate ''2029-01-30-4'' = Inr sample_bucket"
  by code_simp

theorem NewExpDate_canonical_witness: "NewExpDate (ExpDate_ID sample_bucket) = Inr sample_bucket"
  using NewExpDate_canonical [OF NewExpDate_sample] by simp

text \<open>
  C38. The bucket of a certificate and the bucket read back from that bucket's identifier start at
  the same instant and print alike, but the bucket made from the time ends one hour earlier: it is
  already expired at the certificate's own \<^verbatim>\<open>NotAfter\<close>.
\<close>

theorem NewExpDateFromTime_reparsed:
  assumes "t_off t = 0" and "year_4_digits t"
  shows "NewExpDate (ExpDate_ID (NewExpDateFromTime t)) =
      Inr ((NewExpDateFromTime t)\<lparr>lastGood := Add (lastGood (NewExpDateFromTime t)) Hour\<rparr>)
    \<and> IsExpiredAt (NewExpDateFromTime t) t"
proof
  let ?e = "NewExpDateFromTime t"
  have "t_ns (date ?e) mod Hour = 0"
    by (simp add: mod_diff_eq [symmetric, of "t_ns t" "t_ns t mod Hour"])
  then have "NewExpDate (Format_hour (date ?e)) = Inr \<lparr>date = date ?e,
      lastGood = Add (Add (date ?e) (1 * Hour)) (- 1 * Millisecond), hourResolution = True\<rparr>"
    using assms by (intro NewExpDate_of_hour_ID) (simp_all add: year_4_digits_hour_start)
  then show "NewExpDate (ExpDate_ID ?e) = Inr (?e\<lparr>lastGood := Add (lastGood ?e) Hour\<rparr>)"
    by (simp add: ExpDate_ID_def) (simp add: NewExpDateFromTime_def Add_def Let_def)
  have "0 \<le> t_ns t mod Hour" by simp
  then show "IsExpiredAt ?e t"
    unfolding IsExpiredAt_def Before_def by simp
qed

theorem NewExpDateFromTime_reparsed_witness:
  "NewExpDate (ExpDate_ID (NewExpDateFromTime (utc (64000036801 * Second)))) =
      Inr ((NewExpDateFromTime (utc (64000036801 * Second)))
        \<lparr>lastGood := Add (lastGood (NewExpDateFromTime (utc (64000036801 * Second)))) Hour\<rparr>)
    \<and> IsExpiredAt (NewExpDateFromTime (utc (64000036801 * Second))) (utc (64000036801 * Second))"
  by (rule NewExpDateFromTime_reparsed; code_simp)

definition sep_free :: "char \<Rightarrow> Issuer \<Rightarrow> bool" where
  "sep_free c i \<longleftrightarrow> c \<notin> set (iss_id i)"

lemma Serial_ID_no_colon: "CHR '':'' \<notin> set (Serial_ID n)"
  by (simp add: Serial_ID_def)

lemma split_three:
  assumes "x \<notin> set a" and "x \<notin> set b" and "x \<notin> set c"
  shows "strings_split (x # sep) (a @ (x # sep) @ b @ (x # sep) @ c) = [a, b, c]"
  using assms strings_split_join [of "[a, b, c]" x sep] by simp

lemma split_two:
  assumes "x \<notin> set a" and "x \<notin> set b"
  shows "strings_split (x # sep) (a @ (x # sep) @ b) = [a, b]"
  using assms strings_split_join [of "[a, b]" x sep] by simp

lemma parsed_exp_year: "parsed_exp e \<Longrightarrow> year_4_digits (date e)"
  by (simp add: parsed_exp_def)

lemma ParseUniqueCertIdentifier_String:
  assumes "parsed_exp e" and "sep_free (CHR '':'') i"
  shows "ParseUniqueCertIdentifier (UniqueCertIdentifier_String
        \<lparr>uci_ExpDate = e, uci_Issuer = i, uci_SerialNum = n\<rparr>)
      = Inr \<lparr>uci_ExpDate = e, uci_Issuer = NewIssuerFromString (iss_id i), uci_SerialNum = n\<rparr>"
  using assms split_three [of "CHR '':''" "ExpDate_ID e" "iss_id i" "Serial_ID n" "'':''"]
  by (simp add: sep_free_def ParseUniqueCertIdentifier_def UniqueCertIdentifier_String_def
      NewSerialFromIDString_ID ExpDate_ID_no_colon parsed_exp_year Serial_ID_no_colon
      NewExpDate_ExpDate_ID)

lemma ParseIssuerAndDate_String:
  assumes "parsed_exp e" and "sep_free (CHR ''/'') i"
  shows "ParseIssuerAndDate (IssuerAndDate_String \<lparr>iad_ExpDate = e, iad_Issuer = i\<rparr>)
      = Inr \<lparr>iad_ExpDate = e, iad_Issuer = NewIssuerFromString (iss_id i)\<rparr>"
  using assms split_two [of "CHR ''/''" "ExpDate_ID e" "iss_id i" "[]"]
  by (simp add: sep_free_def ParseIssuerAndDate_def IssuerAndDate_String_def
      ExpDate_ID_no_slash parsed_exp_year NewExpDate_ExpDate_ID)

text \<open>
  The printed identifiers of certificates and of (date, issuer) pairs parse back to their
  parts, for every bucket that parsing can produce and every issuer identifier that does not hold
  the separator. The parsed issuer keeps the identifier and loses the key.
\<close>

theorem identifiers_roundtrip:
  assumes "parsed_exp e"
  shows "(sep_free (CHR '':'') i \<longrightarrow>
      ParseUniqueCertIdentifier (UniqueCertIdentifier_String
        \<lparr>uci_ExpDate = e, uci_Issuer = i, uci_SerialNum = n\<rparr>)
      = Inr \<lparr>uci_ExpDate = e, uci_Issuer = NewIssuerFromString (iss_id i), uci_SerialNum = n\<rparr>)
    \<and> (sep_free (CHR ''/'') i \<longrightarrow>
      ParseIssuerAndDate (IssuerAndDate_String \<lparr>iad_ExpDate = e, iad_Issuer = i\<rparr>)
      = Inr \<lparr>iad_ExpDate = e, iad_Issuer = NewIssuerFromString (iss_id i)\<rparr>)"
  using ParseUniqueCertIdentifier_String [OF assms] ParseIssuerAndDate_String [OF assms] by blast

theorem identifiers_roundtrip_witness:
  "parsed_exp sample_bucket \<and> sep_free (CHR '':'') (NewIssuerFromString ''issuer'')
    \<and> ParseUniqueCertIdentifier (UniqueCertIdentifier_String
        \<lparr>uci_ExpDate = sample_bucket, uci_Issuer = NewIssuerFromString ''issuer'', uci_SerialNum = Serial [1]\<rparr>)
      = Inr \<lparr>uci_ExpDate = sample_bucket, uci_Issuer = NewIssuerFromString ''issuer'', uci_SerialNum = Serial [1]\<rparr>"
proof -
  have p: "parsed_exp sample_bucket" by (rule parsed_exp_NewExpDate [OF NewExpDate_sample])
  moreover have "sep_free (CHR '':'') (NewIssuerFromString ''issuer'')"
    by (simp add: sep_free_def)
  ultimately show ?thesis
    using identifiers_roundtrip [OF p, of "NewIssuerFromString ''issuer''" "Serial [1]"] by simp
qed

end
