(* ===== verification/Go_Path.thy ===== *)
theory Go_Path
  imports Go_Strings
begin

text \<open>
  The functions of the package \<^verbatim>\<open>path/filepath\<close> that the repository calls, for the
  separator \<^verbatim>\<open>/\<close>: glob patterns (\<^verbatim>\<open>filepath.Match\<close>).
\<close>

section \<open>filepath.Match\<close>

text \<open>
  A pattern is a sequence of chunks, each after at most one \<^verbatim>\<open>*\<close>. An item of a chunk
  consumes one character: a literal, \<^verbatim>\<open>?\<close>, or a class in brackets.
\<close>

datatype glob_item = Lit char | AnyChar | CharClass bool "(char \<times> char) list"

fun get_esc :: "string \<Rightarrow> (char \<times> string) option" where
  "get_esc [] = None"
| "get_esc (c # s) =
     (if c = CHR ''-'' \<or> c = CHR '']'' then None
      else if of_char c = (92 :: nat) then (case s of d # e # s' \<Rightarrow> Some (d, e # s') | _ \<Rightarrow> None)
      else if s = [] then None else Some (c, s))"

lemma get_esc_length: "get_esc s = Some (c, t) \<Longrightarrow> length t < length s"
  by (induction s rule: get_esc.induct) (auto split: if_splits list.splits)

function glob_class :: "string \<Rightarrow> (char \<times> char) list \<Rightarrow> ((char \<times> char) list \<times> string) option" where
  "glob_class s acc =
     (if s \<noteq> [] \<and> hd s = CHR '']'' \<and> acc \<noteq> [] then Some (rev acc, tl s)
      else case get_esc s of
             None \<Rightarrow> None
           | Some (lo, t) \<Rightarrow>
               (if hd t = CHR ''-''
                then (case get_esc (tl t) of None \<Rightarrow> None | Some (hi, u) \<Rightarrow> glob_class u ((lo, hi) # acc))
                else glob_class t ((lo, lo) # acc)))"
  by pat_completeness auto
termination
  by (relation "measure (\<lambda>(s, acc). length s)") (force dest!: get_esc_length)+

declare glob_class.simps [simp del]

lemma glob_class_length: "glob_class s acc = Some (r, t) \<Longrightarrow> length t \<le> length s"
proof (induction s acc rule: glob_class.induct)
  case (1 s acc)
  consider (close) "s \<noteq> [] \<and> hd s = CHR '']'' \<and> acc \<noteq> []"
    | (range) "\<not> (s \<noteq> [] \<and> hd s = CHR '']'' \<and> acc \<noteq> [])" by blast
  then show ?case
  proof cases
    case close
    with "1.prems" show ?thesis by (auto simp: glob_class.simps [of s])
  next
    case range
    then obtain lo u where u: "get_esc s = Some (lo, u)"
      using "1.prems" by (auto simp: glob_class.simps [of s] split: option.splits if_splits)
    have lu: "length u < length s" by (rule get_esc_length [OF u])
    show ?thesis
    proof (cases "hd u = CHR ''-''")
      case True
      then obtain hi v where v: "get_esc (tl u) = Some (hi, v)"
        and e: "glob_class v ((lo, hi) # acc) = Some (r, t)"
        using "1.prems" range u by (auto simp: glob_class.simps [of s] split: option.splits)
      show ?thesis
        using "1.IH"(1) [OF range u refl True v refl e] lu get_esc_length [OF v] by simp
    next
      case False
      then have e: "glob_class u ((lo, lo) # acc) = Some (r, t)"
        using "1.prems" range u by (auto simp: glob_class.simps [of s])
      show ?thesis
        using "1.IH"(2) [OF range u refl False e] lu by simp
    qed
  qed
qed

text \<open>The chunks of a pattern; \<open>None\<close> is \<^verbatim>\<open>ErrBadPattern\<close>.\<close>

definition glob_add :: "glob_item \<Rightarrow> (bool \<times> glob_item list) list \<Rightarrow> (bool \<times> glob_item list) list" where
  "glob_add i cs = (case cs of (False, ch) # r \<Rightarrow> (False, i # ch) # r | _ \<Rightarrow> (False, [i]) # cs)"

fun glob_star :: "(bool \<times> glob_item list) list \<Rightarrow> (bool \<times> glob_item list) list" where
  "glob_star ((False, ch) # r) = (True, ch) # r"
| "glob_star ((True, ch) # r) = (True, ch) # r"
| "glob_star [] = [(True, [])]"

function glob_parse :: "string \<Rightarrow> (bool \<times> glob_item list) list option" where
  "glob_parse [] = Some []"
| "glob_parse (c # s) =
     (if c = CHR ''*'' then map_option glob_star (glob_parse s)
      else if c = CHR ''?'' then map_option (glob_add AnyChar) (glob_parse s)
      else if c = CHR ''['' then
        (case (if s \<noteq> [] \<and> hd s = CHR ''^'' then (True, tl s) else (False, s)) of
           (neg, s') \<Rightarrow>
             (case glob_class s' [] of
                None \<Rightarrow> None
              | Some (cl, t) \<Rightarrow> map_option (glob_add (CharClass neg cl)) (glob_parse t)))
      else if of_char c = (92 :: nat) then
        (case s of [] \<Rightarrow> None | d # s' \<Rightarrow> map_option (glob_add (Lit d)) (glob_parse s'))
      else map_option (glob_add (Lit c)) (glob_parse s))"
  by pat_completeness auto
termination
  by (relation "measure length") (auto dest!: glob_class_length split: if_splits)

fun match_item :: "glob_item \<Rightarrow> char \<Rightarrow> bool" where
  "match_item (Lit d) c = (c = d)"
| "match_item AnyChar c = (c \<noteq> CHR ''/'')"
| "match_item (CharClass neg rs) c = (list_ex (\<lambda>(lo, hi). lo \<le> c \<and> c \<le> hi) rs \<noteq> neg)"

fun match_chunk :: "glob_item list \<Rightarrow> string \<Rightarrow> string option" where
  "match_chunk [] s = Some s"
| "match_chunk (i # is) [] = None"
| "match_chunk (i # is) (c # s) = (if match_item i c then match_chunk is s else None)"

text \<open>After a star: skip characters other than the separator until the chunk matches.\<close>

fun skip_to_chunk :: "bool \<Rightarrow> glob_item list \<Rightarrow> string \<Rightarrow> string option" where
  "skip_to_chunk last_chunk ch [] = None"
| "skip_to_chunk last_chunk ch (c # s) =
     (if c = CHR ''/'' then None
      else case match_chunk ch s of
             Some t \<Rightarrow> (if last_chunk \<and> t \<noteq> [] then skip_to_chunk last_chunk ch s else Some t)
           | None \<Rightarrow> skip_to_chunk last_chunk ch s)"

fun glob_chunks :: "(bool \<times> glob_item list) list \<Rightarrow> string \<Rightarrow> bool" where
  "glob_chunks [] name = (name = [])"
| "glob_chunks ((star, ch) # rest) name =
     (if star \<and> ch = [] then CHR ''/'' \<notin> set name
      else case (case match_chunk ch name of
                   Some t \<Rightarrow> if t = [] \<or> rest \<noteq> [] then Some t else None
                 | None \<Rightarrow> None) of
             Some t \<Rightarrow> glob_chunks rest t
           | None \<Rightarrow>
               (if star
                then (case skip_to_chunk (rest = []) ch name of
                        Some t \<Rightarrow> glob_chunks rest t | None \<Rightarrow> False)
                else False))"

definition filepath_Match :: "string \<Rightarrow> string \<Rightarrow> bool res" where
  "filepath_Match pattern name =
     (case glob_parse pattern of
        None \<Rightarrow> Inl (Errorf ''syntax error in pattern'')
      | Some cs \<Rightarrow> Inr (glob_chunks cs name))"

text \<open>A pattern that is a plain text followed by one star.\<close>

definition plain_char :: "char \<Rightarrow> bool" where
  "plain_char c \<longleftrightarrow> c \<notin> {CHR ''*'', CHR ''?'', CHR ''[''} \<and> of_char c \<noteq> (92 :: nat)"

lemma glob_parse_plain:
  "list_all plain_char p \<Longrightarrow> p \<noteq> [] \<Longrightarrow> glob_parse (p @ ''*'') = Some [(False, map Lit p), (True, [])]"
proof (induction p)
  case (Cons c p)
  then show ?case
    by (cases "p = []") (auto simp: plain_char_def glob_add_def)
qed simp

lemma match_chunk_Lit: "match_chunk (map Lit p) s = (if prefix p s then Some (drop (length p) s) else None)"
proof (induction p arbitrary: s)
  case (Cons c p)
  then show ?case by (cases s) auto
qed simp

lemma filepath_Match_prefix:
  assumes "list_all plain_char p" and "p \<noteq> []"
  shows "filepath_Match (p @ ''*'') name
    = Inr (prefix p name \<and> CHR ''/'' \<notin> set (drop (length p) name))"
  using assms by (simp add: filepath_Match_def glob_parse_plain match_chunk_Lit)

end
