(* ===== verification/Cache_Interface.thy ===== *)
theory Cache_Interface
  imports Types Go_Path
begin

text \<open>
  The interface \<^verbatim>\<open>RemoteCache\<close> of \<^verbatim>\<open>storage/types.go\<close> as a record of operations over a state
  \<open>'c\<close>, and the contract for keys that hold sets, as a locale. A provider's \<open>contents\<close> is the
  set stored at each key; a key that is \<open>expiring\<close> may be emptied by the passing of time before
  any operation, and no other key may.
\<close>

section \<open>The interface\<close>

text \<open>
  Every operation returns its value next to an error and the new state; \<open>Panic\<close> is a run-time
  panic or \<^verbatim>\<open>glog.Fatalf\<close>. The operations that send on a channel return the list of what they
  sent before they closed it.
\<close>

type_synonym ('c, 'a) cache_op = "'c \<Rightarrow> ('a ret \<times> 'c) outcome"

record 'c RemoteCache =
  rc_Exists :: "string \<Rightarrow> ('c, bool) cache_op"
  rc_SetInsert :: "string \<Rightarrow> string \<Rightarrow> ('c, bool) cache_op"
  rc_SetRemove :: "string \<Rightarrow> string \<Rightarrow> ('c, bool) cache_op"
  rc_SetContains :: "string \<Rightarrow> string \<Rightarrow> ('c, bool) cache_op"
  rc_SetList :: "string \<Rightarrow> ('c, string list) cache_op"
  rc_SetToChan :: "string \<Rightarrow> ('c, string list) cache_op"
  rc_SetCardinality :: "string \<Rightarrow> ('c, int) cache_op"
  rc_ExpireAt :: "string \<Rightarrow> gotime \<Rightarrow> ('c, unit) cache_op"
  rc_ExpireIn :: "string \<Rightarrow> duration \<Rightarrow> ('c, unit) cache_op"
  rc_Queue :: "string \<Rightarrow> string \<Rightarrow> ('c, int) cache_op"
  rc_Pop :: "string \<Rightarrow> ('c, string) cache_op"
  rc_QueueLength :: "string \<Rightarrow> ('c, int) cache_op"
  rc_BlockingPopCopy :: "string \<Rightarrow> string \<Rightarrow> duration \<Rightarrow> ('c, string) cache_op"
  rc_ListRemove :: "string \<Rightarrow> string \<Rightarrow> ('c, unit) cache_op"
  rc_TrySet :: "string \<Rightarrow> string \<Rightarrow> duration \<Rightarrow> ('c, string) cache_op"
  rc_KeysToChan :: "string \<Rightarrow> ('c, string list) cache_op"
  rc_StoreLogState :: "CertificateLog \<Rightarrow> ('c, unit) cache_op"
  rc_LoadLogState :: "string \<Rightarrow> ('c, CertificateLog option) cache_op"

text \<open>
  \<^verbatim>\<open>json.Marshal\<close> of a \<^verbatim>\<open>CertificateLog\<close>, and \<^verbatim>\<open>json.Unmarshal\<close> into a
  nil pointer to one: what the pointer is set to (nothing for \<^verbatim>\<open>null\<close> or malformed text, what
  was decoded so far for a value of the wrong type) and the error. Decoding into a zero
  \<^verbatim>\<open>CertificateLog\<close> leaves it alone where the pointer would stay nil.
\<close>

record log_json =
  json_Marshal :: "CertificateLog \<Rightarrow> string res"
  json_Unmarshal :: "string \<Rightarrow> CertificateLog option ret"

definition json_Unmarshal_value :: "log_json \<Rightarrow> string \<Rightarrow> CertificateLog res" where
  "json_Unmarshal_value js data =
     (case json_Unmarshal js data of
        (_, Some err) \<Rightarrow> Inl err
      | (None, None) \<Rightarrow> Inr (blank_log [])
      | (Some log, None) \<Rightarrow> Inr log)"

text \<open>A codec for examples: the text of a log state is its URL.\<close>

definition sample_json :: log_json where
  "sample_json = \<lparr>json_Marshal = (\<lambda>l. Inr (ShortURL l)), json_Unmarshal = (\<lambda>s. (Some (blank_log s), None))\<rparr>"

section \<open>The contract of set-valued keys\<close>

definition lapse :: "('k \<Rightarrow> bool) \<Rightarrow> ('k \<Rightarrow> 'a set) \<Rightarrow> ('k \<Rightarrow> 'a set) \<Rightarrow> bool" where
  "lapse v C C' \<longleftrightarrow> (\<forall>k. C' k = C k \<or> v k \<and> C' k = {})"

lemma lapse_refl [simp, intro]: "lapse v C C"
  by (simp add: lapse_def)

lemma lapse_trans: "lapse v C D \<Longrightarrow> lapse w D E \<Longrightarrow> w \<le> v \<Longrightarrow> lapse v C E"
  unfolding lapse_def by (metis predicate1D)

lemma lapse_mono: "lapse v C D \<Longrightarrow> v \<le> w \<Longrightarrow> lapse w C D"
  unfolding lapse_def by (metis predicate1D)

lemma lapse_subset: "lapse v C D \<Longrightarrow> D k \<subseteq> C k"
  unfolding lapse_def by (metis empty_subsetI subset_refl)

lemma lapse_stable: "lapse v C D \<Longrightarrow> \<not> v k \<Longrightarrow> D k = C k"
  by (auto simp: lapse_def)

locale remote_cache =
  fixes rc :: "'c RemoteCache"
    and inv :: "'c \<Rightarrow> bool"
    and contents :: "'c \<Rightarrow> string \<Rightarrow> string set"
    and expiring :: "'c \<Rightarrow> string \<Rightarrow> bool"
  assumes SetInsert_law:
    "inv c \<Longrightarrow> rc_SetInsert rc k e c = Done ((b, None), c') \<Longrightarrow>
       inv c' \<and> expiring c' \<le> expiring c \<and>
       (\<exists>C. lapse (expiring c) (contents c) C \<and> (b \<longleftrightarrow> e \<notin> C k) \<and> contents c' = C(k := insert e (C k)))"
  and SetInsert_error:
    "inv c \<Longrightarrow> rc_SetInsert rc k e c = Done ((b, Some err), c') \<Longrightarrow>
       inv c' \<and> expiring c' \<le> expiring c \<and>
       (\<exists>C. lapse (expiring c) (contents c) C \<and> (contents c' = C \<or> contents c' = C(k := insert e (C k))))"
  and SetContains_law:
    "inv c \<Longrightarrow> rc_SetContains rc k e c = Done ((b, None), c') \<Longrightarrow>
       inv c' \<and> expiring c' \<le> expiring c \<and> lapse (expiring c) (contents c) (contents c') \<and>
       (b \<longleftrightarrow> e \<in> contents c' k)"
  and SetList_law:
    "inv c \<Longrightarrow> rc_SetList rc k c = Done ((l, None), c') \<Longrightarrow>
       inv c' \<and> expiring c' \<le> expiring c \<and> lapse (expiring c) (contents c) (contents c') \<and>
       set l = contents c' k"
  and SetToChan_law:
    "inv c \<Longrightarrow> rc_SetToChan rc k c = Done ((l, None), c') \<Longrightarrow>
       inv c' \<and> expiring c' \<le> expiring c \<and> lapse (expiring c) (contents c) (contents c') \<and>
       set l = contents c' k"
  and SetCardinality_law:
    "inv c \<Longrightarrow> rc_SetCardinality rc k c = Done ((n, None), c') \<Longrightarrow>
       inv c' \<and> expiring c' \<le> expiring c \<and> lapse (expiring c) (contents c) (contents c') \<and>
       finite (contents c' k) \<and> n = int (card (contents c' k))"
  and ExpireAt_law:
    "inv c \<Longrightarrow> rc_ExpireAt rc k t c = Done ((u, er), c') \<Longrightarrow>
       inv c' \<and> expiring c' \<le> (expiring c)(k := True) \<and>
       lapse ((expiring c)(k := True)) (contents c) (contents c')"
begin

text \<open>Two insertions of an entry into a key that does not expire: the second one finds it.\<close>

lemma SetInsert_twice:
  assumes "inv c" and "rc_SetInsert rc k e c = Done ((b, None), c1)"
    and "rc_SetInsert rc k e c1 = Done ((b', None), c2)" and "\<not> expiring c k"
  shows "\<not> b' \<and> contents c2 k = insert e (contents c k)"
proof -
  obtain C where 1: "inv c1" "expiring c1 \<le> expiring c" "lapse (expiring c) (contents c) C"
      "contents c1 = C(k := insert e (C k))"
    using SetInsert_law [OF assms(1,2)] by auto
  obtain D where 2: "lapse (expiring c1) (contents c1) D" "b' \<longleftrightarrow> e \<notin> D k"
      "contents c2 = D(k := insert e (D k))"
    using SetInsert_law [OF 1(1) assms(3)] by auto
  have "\<not> expiring c1 k" using 1(2) assms(4) by (auto simp: le_fun_def)
  then have "D k = insert e (C k)" "C k = contents c k"
    using lapse_stable [OF 2(1)] lapse_stable [OF 1(3) assms(4)] 1(4) by simp_all
  then show ?thesis using 2(2,3) by simp
qed

end

end
