(* ===== verification/Mock_Cache.thy ===== *)
theory Mock_Cache
  imports Cache_Interface
begin

text \<open>
  \<^verbatim>\<open>storage/mockcache.go\<close>: the in-memory cache. Sets are sorted slices kept by binary
  search, and keys are dropped when an operation that looks at the clock finds them expired.
\<close>

section \<open>State\<close>

record MockRemoteCache =
  Data :: "(string, string list) gomap"
  Expirations :: "(string, gotime) gomap"
  Duplicate :: int

definition NewMockRemoteCache :: MockRemoteCache where
  "NewMockRemoteCache = \<lparr>Data = [], Expirations = [], Duplicate = 0\<rparr>"

text \<open>Reading a missing key of a map of slices gives the empty slice.\<close>

definition gm_list :: "('k, 'a list) gomap \<Rightarrow> 'k \<Rightarrow> 'a list" where
  "gm_list m k = (case gm_get m k of None \<Rightarrow> [] | Some l \<Rightarrow> l)"

text \<open>\<open>copy(l[dst:], l[src:])\<close>, which moves as many elements as both sides hold.\<close>

definition copy_within :: "nat \<Rightarrow> nat \<Rightarrow> 'a list \<Rightarrow> 'a list" where
  "copy_within dst src l =
     (let n = min (length l - dst) (length l - src)
      in take dst l @ take n (drop src l) @ drop (dst + n) l)"

section \<open>Sets\<close>

text \<open>
  The expiring keys are visited in the unspecified order \<open>ord\<close>; \<open>now\<close> is \<^verbatim>\<open>time.Now()\<close>.
\<close>

type_synonym map_order = "(string \<times> gotime) list \<Rightarrow> (string \<times> gotime) list"

definition cleanup_key :: "gotime \<Rightarrow> MockRemoteCache \<Rightarrow> string \<times> gotime \<Rightarrow> MockRemoteCache" where
  "cleanup_key now ec = (\<lambda>(key, timestamp).
     if Before timestamp now
     then ec\<lparr>Data := gm_del key (Data ec), Expirations := gm_del key (Expirations ec)\<rparr>
     else ec)"

definition CleanupExpiry :: "map_order \<Rightarrow> gotime \<Rightarrow> MockRemoteCache \<Rightarrow> MockRemoteCache" where
  "CleanupExpiry ord now ec = foldl (cleanup_key now) ec (ord (Expirations ec))"

text \<open>The search the set operations share: the index and whether the entry is there.\<close>

definition set_search :: "string list \<Rightarrow> string \<Rightarrow> nat \<times> bool" where
  "set_search l entry =
     (let count = length l;
          idx = sort_Search count (\<lambda>i. go_compare entry (l ! i) \<le> 0);
          cmp = (if idx < count then go_compare entry (l ! idx) else 0)
      in (idx, idx < count \<and> cmp = 0))"

definition Mock_SetInsert :: "string \<Rightarrow> string \<Rightarrow> MockRemoteCache \<Rightarrow> bool ret \<times> MockRemoteCache" where
  "Mock_SetInsert key entry ec =
     (case set_search (gm_list (Data ec) key) entry of
        (idx, True) \<Rightarrow> ((False, None), ec)
      | (idx, False) \<Rightarrow>
          (let ec = ec\<lparr>Data := gm_set key (gm_list (Data ec) key @ [[]]) (Data ec)\<rparr>;
               ec = ec\<lparr>Data := gm_set key (copy_within (idx + 1) idx (gm_list (Data ec) key)) (Data ec)\<rparr>;
               ec = ec\<lparr>Data := gm_set key ((gm_list (Data ec) key)[idx := entry]) (Data ec)\<rparr>
           in ((True, None), ec)))"

definition Mock_SetRemove ::
    "map_order \<Rightarrow> gotime \<Rightarrow> string \<Rightarrow> string \<Rightarrow> MockRemoteCache \<Rightarrow> bool ret \<times> MockRemoteCache" where
  "Mock_SetRemove ord now key entry ec =
     (let ec = CleanupExpiry ord now ec
      in case set_search (gm_list (Data ec) key) entry of
           (idx, True) \<Rightarrow>
             ((True, None),
              ec\<lparr>Data := gm_set key (take idx (gm_list (Data ec) key) @ drop idx (gm_list (Data ec) key)) (Data ec)\<rparr>)
         | (idx, False) \<Rightarrow> ((False, None), ec))"

definition Mock_SetContains ::
    "map_order \<Rightarrow> gotime \<Rightarrow> string \<Rightarrow> string \<Rightarrow> MockRemoteCache \<Rightarrow> bool ret \<times> MockRemoteCache" where
  "Mock_SetContains ord now key entry ec =
     (let ec = CleanupExpiry ord now ec
      in if snd (set_search (gm_list (Data ec) key) entry) then ((True, None), ec) else ((False, None), ec))"

definition Mock_SetList ::
    "map_order \<Rightarrow> gotime \<Rightarrow> string \<Rightarrow> MockRemoteCache \<Rightarrow> string list ret \<times> MockRemoteCache" where
  "Mock_SetList ord now key ec =
     (let ec = CleanupExpiry ord now ec in ((gm_list (Data ec) key, None), ec))"

definition Mock_SetToChan ::
    "map_order \<Rightarrow> gotime \<Rightarrow> string \<Rightarrow> MockRemoteCache \<Rightarrow> string list ret \<times> MockRemoteCache" where
  "Mock_SetToChan ord now key ec =
     (let ec = CleanupExpiry ord now ec
      in ((concat (replicate (nat (Duplicate ec + 1)) (gm_list (Data ec) key)), None), ec))"

definition Mock_SetCardinality :: "string \<Rightarrow> MockRemoteCache \<Rightarrow> int ret \<times> MockRemoteCache" where
  "Mock_SetCardinality key ec = ((int (length (gm_list (Data ec) key)), None), ec)"

definition Mock_Exists ::
    "map_order \<Rightarrow> gotime \<Rightarrow> string \<Rightarrow> MockRemoteCache \<Rightarrow> bool ret \<times> MockRemoteCache" where
  "Mock_Exists ord now key ec =
     (let ec = CleanupExpiry ord now ec in ((gm_get (Data ec) key \<noteq> None, None), ec))"

definition Mock_ExpireAt :: "string \<Rightarrow> gotime \<Rightarrow> MockRemoteCache \<Rightarrow> unit ret \<times> MockRemoteCache" where
  "Mock_ExpireAt key expTime ec = (((), None), ec\<lparr>Expirations := gm_set key expTime (Expirations ec)\<rparr>)"

definition Mock_ExpireIn ::
    "gotime \<Rightarrow> string \<Rightarrow> duration \<Rightarrow> MockRemoteCache \<Rightarrow> unit ret \<times> MockRemoteCache" where
  "Mock_ExpireIn now key dur ec =
     (((), None), ec\<lparr>Expirations := gm_set key (Add now dur) (Expirations ec)\<rparr>)"

section \<open>Queues, keys and leases\<close>

definition Mock_Queue :: "string \<Rightarrow> string \<Rightarrow> MockRemoteCache \<Rightarrow> int ret \<times> MockRemoteCache" where
  "Mock_Queue key identifier ec = ((0, Some (Errorf ''Queue unimplemented'')), ec)"

definition Mock_Pop :: "string \<Rightarrow> MockRemoteCache \<Rightarrow> string ret \<times> MockRemoteCache" where
  "Mock_Pop key ec = (([], Some (Errorf ''Pop unimplemented'')), ec)"

definition Mock_QueueLength :: "string \<Rightarrow> MockRemoteCache \<Rightarrow> int ret \<times> MockRemoteCache" where
  "Mock_QueueLength key ec = ((0, Some (Errorf ''QueueLength unimplemented'')), ec)"

text \<open>The keys in the unspecified order \<open>kord\<close>; a bad pattern stops at the first key.\<close>

fun send_matching :: "string \<Rightarrow> string list \<Rightarrow> string list \<times> go_error option" where
  "send_matching pattern [] = ([], None)"
| "send_matching pattern (key # keys) =
     (case filepath_Match pattern key of
        Inl err \<Rightarrow> ([], Some err)
      | Inr matched \<Rightarrow>
          (case send_matching pattern keys of
             (sent, err) \<Rightarrow> (if matched then key # sent else sent, err)))"

definition Mock_KeysToChan ::
    "(string list \<Rightarrow> string list) \<Rightarrow> string \<Rightarrow> MockRemoteCache \<Rightarrow> string list ret \<times> MockRemoteCache" where
  "Mock_KeysToChan kord pattern ec = (send_matching pattern (kord (map fst (Data ec))), ec)"

definition Mock_TrySet ::
    "gotime \<Rightarrow> string \<Rightarrow> string \<Rightarrow> duration \<Rightarrow> MockRemoteCache \<Rightarrow> (string ret \<times> MockRemoteCache) outcome" where
  "Mock_TrySet now key v life ec =
     (case gm_get (Data ec) key of
        Some val \<Rightarrow>
          (case val of [] \<Rightarrow> Panic ''index out of range'' | v0 # _ \<Rightarrow> Done ((v0, None), ec))
      | None \<Rightarrow>
          (let ec = ec\<lparr>Data := gm_set key [v] (Data ec)\<rparr>
           in case Mock_ExpireAt key (Add now life) ec of ((_, err), ec) \<Rightarrow> Done ((v, err), ec)))"

definition Mock_BlockingPopCopy ::
    "string \<Rightarrow> string \<Rightarrow> duration \<Rightarrow> MockRemoteCache \<Rightarrow> string ret \<times> MockRemoteCache" where
  "Mock_BlockingPopCopy key dest timeout ec =
     (case Mock_Pop key ec of
        ((v, Some err), ec) \<Rightarrow> (([], Some err), ec)
      | ((v, None), ec) \<Rightarrow>
          (case Mock_Queue dest v ec of
             ((_, Some err), ec) \<Rightarrow> (([], Some err), ec)
           | ((_, None), ec) \<Rightarrow> ((v, None), ec)))"

definition Mock_ListRemove ::
    "map_order \<Rightarrow> gotime \<Rightarrow> string \<Rightarrow> string \<Rightarrow> MockRemoteCache \<Rightarrow> unit ret \<times> MockRemoteCache" where
  "Mock_ListRemove ord now key val ec =
     (case Mock_SetRemove ord now key val ec of ((_, err), ec) \<Rightarrow> (((), err), ec))"

section \<open>Log states\<close>

definition Mock_StoreLogState ::
    "log_json \<Rightarrow> CertificateLog \<Rightarrow> MockRemoteCache \<Rightarrow> unit ret \<times> MockRemoteCache" where
  "Mock_StoreLogState js log ec =
     (case json_Marshal js log of
        Inl err \<Rightarrow> (((), Some err), ec)
      | Inr encoded \<Rightarrow> (((), None), ec\<lparr>Data := gm_set (ShortURL log) [encoded] (Data ec)\<rparr>))"

definition Mock_LoadLogState ::
    "log_json \<Rightarrow> string \<Rightarrow> MockRemoteCache \<Rightarrow> CertificateLog option ret \<times> MockRemoteCache" where
  "Mock_LoadLogState js shortUrl ec =
     (case gm_get (Data ec) shortUrl of
        None \<Rightarrow> ((None, Some (Errorf ''Log state not found'')), ec)
      | Some data \<Rightarrow>
          (if length data \<noteq> 1
           then ((None, Some (Errorf ''Unexpected number of log states'')), ec)
           else case json_Unmarshal_value js (data ! 0) of
                  Inl err \<Rightarrow> ((None, Some err), ec)
                | Inr log \<Rightarrow> ((Some log, None), ec)))"

section \<open>The cache as a provider of the interface\<close>

text \<open>
  A world is the cache next to what the program does not control: the instants that successive
  readings of \<^verbatim>\<open>time.Now()\<close> return and the orders in which successive loops visit the maps.
  Nothing is assumed of the clock, and of the orders only that they rearrange the entries.
\<close>

record mock_env =
  clock :: "nat \<Rightarrow> gotime"
  order :: "nat \<Rightarrow> map_order"
  korder :: "nat \<Rightarrow> string list \<Rightarrow> string list"

type_synonym mock_world = "mock_env \<times> MockRemoteCache"

definition tick :: "mock_env \<Rightarrow> mock_env" where
  "tick env = \<lparr>clock = (\<lambda>n. clock env (Suc n)), order = (\<lambda>n. order env (Suc n)),
               korder = (\<lambda>n. korder env (Suc n))\<rparr>"

definition steady_env :: "gotime \<Rightarrow> mock_env" where
  "steady_env now = \<lparr>clock = (\<lambda>n. now), order = (\<lambda>n xs. xs), korder = (\<lambda>n xs. xs)\<rparr>"

definition env_ok :: "mock_env \<Rightarrow> bool" where
  "env_ok env \<longleftrightarrow> (\<forall>n. rearranges (order env n) \<and> rearranges (korder env n))"

definition timed ::
    "(map_order \<Rightarrow> gotime \<Rightarrow> 's \<Rightarrow> 'a \<times> 's) \<Rightarrow> mock_env \<times> 's \<Rightarrow> ('a \<times> mock_env \<times> 's) outcome" where
  "timed f w = (case f (order (fst w) 0) (clock (fst w) 0) (snd w) of (r, s) \<Rightarrow> Done (r, tick (fst w), s))"

definition untimed :: "('s \<Rightarrow> 'a \<times> 's) \<Rightarrow> mock_env \<times> 's \<Rightarrow> ('a \<times> mock_env \<times> 's) outcome" where
  "untimed f w = (case f (snd w) of (r, s) \<Rightarrow> Done (r, fst w, s))"

definition mock_cache :: "log_json \<Rightarrow> mock_world RemoteCache" where
  "mock_cache js =
     \<lparr>rc_Exists = (\<lambda>key. timed (\<lambda>ord now. Mock_Exists ord now key)),
      rc_SetInsert = (\<lambda>key entry. untimed (Mock_SetInsert key entry)),
      rc_SetRemove = (\<lambda>key entry. timed (\<lambda>ord now. Mock_SetRemove ord now key entry)),
      rc_SetContains = (\<lambda>key entry. timed (\<lambda>ord now. Mock_SetContains ord now key entry)),
      rc_SetList = (\<lambda>key. timed (\<lambda>ord now. Mock_SetList ord now key)),
      rc_SetToChan = (\<lambda>key. timed (\<lambda>ord now. Mock_SetToChan ord now key)),
      rc_SetCardinality = (\<lambda>key. untimed (Mock_SetCardinality key)),
      rc_ExpireAt = (\<lambda>key t. untimed (Mock_ExpireAt key t)),
      rc_ExpireIn = (\<lambda>key dur. timed (\<lambda>ord now. Mock_ExpireIn now key dur)),
      rc_Queue = (\<lambda>key identifier. untimed (Mock_Queue key identifier)),
      rc_Pop = (\<lambda>key. untimed (Mock_Pop key)),
      rc_QueueLength = (\<lambda>key. untimed (Mock_QueueLength key)),
      rc_BlockingPopCopy = (\<lambda>key dest timeout. untimed (Mock_BlockingPopCopy key dest timeout)),
      rc_ListRemove = (\<lambda>key val. timed (\<lambda>ord now. Mock_ListRemove ord now key val)),
      rc_TrySet = (\<lambda>key v life w.
        outcome_bind (Mock_TrySet (clock (fst w) 0) key v life (snd w))
          (\<lambda>(r, ec). Done (r, tick (fst w), ec))),
      rc_KeysToChan = (\<lambda>pattern w.
        case Mock_KeysToChan (korder (fst w) 0) pattern (snd w) of (r, ec) \<Rightarrow> Done (r, tick (fst w), ec)),
      rc_StoreLogState = (\<lambda>log. untimed (Mock_StoreLogState js log)),
      rc_LoadLogState = (\<lambda>shortUrl. untimed (Mock_LoadLogState js shortUrl))\<rparr>"

lemma env_ok_tick [simp, intro]: "env_ok env \<Longrightarrow> env_ok (tick env)"
  by (simp add: env_ok_def tick_def)

lemma env_ok_steady [simp, intro]: "env_ok (steady_env now)"
  by (simp add: env_ok_def steady_env_def)

lemma tick_steady [simp]: "tick (steady_env now) = steady_env now"
  by (simp add: tick_def steady_env_def)

section \<open>Invariant\<close>

text \<open>The maps have no duplicate key and every slice is strictly sorted.\<close>

definition mock_ok :: "MockRemoteCache \<Rightarrow> bool" where
  "mock_ok ec \<longleftrightarrow> gm_ok (Data ec) \<and> gm_ok (Expirations ec)
     \<and> list_all (\<lambda>(k, l). sorted_wrt (<) l) (Data ec) \<and> 0 \<le> Duplicate ec"

definition mock_contents :: "MockRemoteCache \<Rightarrow> string \<Rightarrow> string set" where
  "mock_contents ec k = set (gm_list (Data ec) k)"

definition mock_expiring :: "MockRemoteCache \<Rightarrow> string \<Rightarrow> bool" where
  "mock_expiring ec k \<longleftrightarrow> gm_get (Expirations ec) k \<noteq> None"

lemma gm_list_simps [simp]:
  "gm_list [] k = []"
  "gm_list (gm_set k' l m) k = (if k = k' then l else gm_list m k)"
  "gm_list (gm_del k' m) k = (if k = k' then [] else gm_list m k)"
  by (simp_all add: gm_list_def)

lemma mock_ok_New [simp, intro]: "mock_ok NewMockRemoteCache"
  by (simp add: mock_ok_def NewMockRemoteCache_def)

lemma mock_ok_sorted: "mock_ok ec \<Longrightarrow> sorted_wrt (<) (gm_list (Data ec) k)"
  by (auto simp: mock_ok_def gm_list_def list_all_iff split: option.splits dest: map_of_SomeD)

lemma set_update_subset: "set (AList.update k v m) \<subseteq> insert (k, v) (set m)"
  by (induction m) auto

lemma list_all_update: "list_all P m \<Longrightarrow> P (k, v) \<Longrightarrow> list_all P (gm_set k v m)"
  using set_update_subset [of k v m] by (auto simp: list_all_iff)

lemma list_all_delete: "list_all P m \<Longrightarrow> list_all P (gm_del k m)"
  by (auto simp: list_all_iff AList.delete_eq)

text \<open>The effect of dropping the expired keys, whatever the order of the visit.\<close>

definition gone :: "gotime \<Rightarrow> MockRemoteCache \<Rightarrow> string \<Rightarrow> bool" where
  "gone now ec k \<longleftrightarrow> (case gm_get (Expirations ec) k of None \<Rightarrow> False | Some t \<Rightarrow> Before t now)"

lemma cleanup_foldl:
  "gm_get (Data (foldl (cleanup_key now) ec xs)) k =
     (if \<exists>t. (k, t) \<in> set xs \<and> Before t now then None else gm_get (Data ec) k)"
  "gm_get (Expirations (foldl (cleanup_key now) ec xs)) k =
     (if \<exists>t. (k, t) \<in> set xs \<and> Before t now then None else gm_get (Expirations ec) k)"
  "Duplicate (foldl (cleanup_key now) ec xs) = Duplicate ec"
  "mock_ok ec \<Longrightarrow> mock_ok (foldl (cleanup_key now) ec xs)"
  by (induction xs arbitrary: ec)
    (auto simp: cleanup_key_def mock_ok_def list_all_delete split: prod.splits)

lemma CleanupExpiry_simps:
  assumes "mock_ok ec" and "rearranges ord"
  shows "gm_get (Data (CleanupExpiry ord now ec)) k = (if gone now ec k then None else gm_get (Data ec) k)"
    and "gm_get (Expirations (CleanupExpiry ord now ec)) k =
          (if gone now ec k then None else gm_get (Expirations ec) k)"
    and "Duplicate (CleanupExpiry ord now ec) = Duplicate ec"
    and "mock_ok (CleanupExpiry ord now ec)"
proof -
  have "(k, t) \<in> set (ord (Expirations ec)) \<longleftrightarrow> gm_get (Expirations ec) k = Some t" for t
    using assms by (simp add: rearranges_set mock_ok_def gm_ok_def)
  then have "(\<exists>t. (k, t) \<in> set (ord (Expirations ec)) \<and> Before t now) = gone now ec k"
    by (auto simp: gone_def split: option.splits)
  then show "gm_get (Data (CleanupExpiry ord now ec)) k = (if gone now ec k then None else gm_get (Data ec) k)"
    "gm_get (Expirations (CleanupExpiry ord now ec)) k =
          (if gone now ec k then None else gm_get (Expirations ec) k)"
    "Duplicate (CleanupExpiry ord now ec) = Duplicate ec" "mock_ok (CleanupExpiry ord now ec)"
    unfolding CleanupExpiry_def using assms(1) by (simp_all only: cleanup_foldl)
qed

lemma CleanupExpiry_list:
  assumes "mock_ok ec" and "rearranges ord"
  shows "gm_list (Data (CleanupExpiry ord now ec)) k = (if gone now ec k then [] else gm_list (Data ec) k)"
  by (simp add: gm_list_def CleanupExpiry_simps(1) [OF assms])

lemma CleanupExpiry_lapse:
  assumes "mock_ok ec" and "rearranges ord"
  shows "lapse (mock_expiring ec) (mock_contents ec) (mock_contents (CleanupExpiry ord now ec))
    \<and> mock_expiring (CleanupExpiry ord now ec) \<le> mock_expiring ec"
  using CleanupExpiry_list [OF assms] CleanupExpiry_simps(2) [OF assms]
  by (auto simp: lapse_def mock_contents_def mock_expiring_def gone_def le_fun_def split: option.splits)

text \<open>The binary search decides membership and finds the place of an entry.\<close>

lemma set_search_sorted:
  assumes "sorted_wrt (<) l" and "set_search l e = (idx, b)"
  shows "b = (e \<in> set l)" and "idx \<le> length l"
    and "\<And>i. i < idx \<Longrightarrow> l ! i < e" and "\<And>i. idx \<le> i \<Longrightarrow> i < length l \<Longrightarrow> e \<le> l ! i"
proof -
  have idx: "idx = sort_Search (length l) (\<lambda>i. e \<le> l ! i)"
    and b: "b = (idx < length l \<and> l ! idx = e)"
    using assms(2) by (auto simp: set_search_def Let_def)
  have "e \<le> l ! j" if "i \<le> j" "j < length l" "e \<le> l ! i" for i j
    using that sorted_wrt_nth_less [OF assms(1), of i j] by (cases "i = j") auto
  from sort_Search_splits [of "length l", OF this]
  have s: "(\<forall>i < idx. \<not> e \<le> l ! i) \<and> (\<forall>i. idx \<le> i \<and> i < length l \<longrightarrow> e \<le> l ! i)"
    unfolding idx .
  show less: "l ! i < e" if "i < idx" for i using s that by (meson not_le)
  show "e \<le> l ! i" if "idx \<le> i" "i < length l" for i using s that by blast
  show "idx \<le> length l" unfolding idx by (rule sort_Search_le)
  show "b = (e \<in> set l)"
  proof
    assume "e \<in> set l"
    then obtain i where i: "i < length l" "l ! i = e" by (auto simp: in_set_conv_nth)
    have "\<not> i < idx" using less [of i] i(2) by auto
    moreover have "\<not> idx < i"
    proof
      assume gt: "idx < i"
      then have "l ! idx < e" using sorted_wrt_nth_less [OF assms(1), of idx i] i by simp
      moreover have "e \<le> l ! idx" using s gt i(1) by simp
      ultimately show False by simp
    qed
    ultimately have "idx = i" by simp
    then show b using i b by simp
  next
    assume b
    then show "e \<in> set l" unfolding b using nth_mem by blast
  qed
qed

lemma copy_within_insert:
  assumes "i \<le> length l"
  shows "(copy_within (i + 1) i (l @ [x]))[i := e] = take i l @ e # drop i l"
proof -
  have "take (i + 1) (l @ [x]) = take i l @ [(l @ [x]) ! i]"
    using assms take_Suc_conv_app_nth [of i "l @ [x]"] by simp
  moreover have "min (length (l @ [x]) - (i + 1)) (length (l @ [x]) - i) = length l - i"
    using assms by simp
  moreover have "take (length l - i) (drop i (l @ [x])) = drop i l" using assms by simp
  ultimately have "copy_within (i + 1) i (l @ [x]) = take i l @ (l @ [x]) ! i # drop i l"
    using assms unfolding copy_within_def Let_def by (simp only: append_assoc) simp
  then show ?thesis using assms by (simp add: list_update_append)
qed

text \<open>So inserting keeps the slice sorted and adds just the entry.\<close>

lemma sorted_insert_at:
  assumes "sorted_wrt (<) l" and "set_search l e = (idx, False)"
  shows "sorted_wrt (<) (take idx l @ e # drop idx l)" and "set (take idx l @ e # drop idx l) = insert e (set l)"
proof -
  note s = set_search_sorted [OF assms]
  have t: "x < e" if x: "x \<in> set (take idx l)" for x
  proof -
    obtain i where "i < idx" "x = l ! i" using x by (auto simp: in_set_conv_nth)
    then show ?thesis using s(3) by simp
  qed
  have d: "e < x" if x: "x \<in> set (drop idx l)" for x
  proof -
    obtain i where i: "i < length l - idx" "x = l ! (idx + i)"
      using x by (auto simp: in_set_conv_nth)
    then have "e \<le> x" using s(4) [of "idx + i"] by simp
    moreover have "x \<noteq> e" using x s(1) in_set_dropD by fastforce
    ultimately show ?thesis by simp
  qed
  have "sorted_wrt (<) (take idx l @ drop idx l)" using assms(1) by simp
  then show "sorted_wrt (<) (take idx l @ e # drop idx l)"
    unfolding sorted_wrt_append by (auto intro: t d)
  have "set l = set (take idx l) \<union> set (drop idx l)"
    by (metis append_take_drop_id set_append)
  then show "set (take idx l @ e # drop idx l) = insert e (set l)" by auto
qed

section \<open>The contract holds\<close>

definition world_ok :: "mock_world \<Rightarrow> bool" where
  "world_ok w \<longleftrightarrow> env_ok (fst w) \<and> mock_ok (snd w)"

lemma mock_ok_set:
  "mock_ok ec \<Longrightarrow> sorted_wrt (<) l \<Longrightarrow> mock_ok (ec\<lparr>Data := gm_set k l (Data ec)\<rparr>)"
  by (simp add: mock_ok_def list_all_update)

lemma gm_set_set [simp, go_map]: "gm_set k v' (gm_set k v m) = gm_set k v' m"
  by (induction m) auto

lemma Mock_SetInsert_eq:
  assumes "mock_ok ec"
  shows "Mock_SetInsert k e ec =
    (if e \<in> mock_contents ec k then ((False, None), ec)
     else case set_search (gm_list (Data ec) k) e of
            (idx, _) \<Rightarrow> ((True, None), ec\<lparr>Data := gm_set k (take idx (gm_list (Data ec) k) @ e # drop idx (gm_list (Data ec) k)) (Data ec)\<rparr>))"
proof -
  obtain idx b where s: "set_search (gm_list (Data ec) k) e = (idx, b)" by fastforce
  note m = set_search_sorted(1,2) [OF mock_ok_sorted [OF assms] s]
  then show ?thesis
    using copy_within_insert [OF m(2)]
    by (cases b) (simp_all add: Mock_SetInsert_def s mock_contents_def Let_def)
qed

lemma Mock_SetInsert_spec:
  assumes "mock_ok ec" and "Mock_SetInsert k e ec = ((b, err), ec')"
  shows "mock_ok ec'" and "err = None" and "b = (e \<notin> mock_contents ec k)"
    and "mock_contents ec' = (mock_contents ec)(k := insert e (mock_contents ec k))"
    and "Expirations ec' = Expirations ec"
proof -
  obtain idx b' where s: "set_search (gm_list (Data ec) k) e = (idx, b')" by fastforce
  note m = set_search_sorted(1) [OF mock_ok_sorted [OF assms(1)] s]
  consider (known) "e \<in> mock_contents ec k" "b = False" "err = None" "ec' = ec"
    | (new) "e \<notin> mock_contents ec k" "b = True" "err = None" "b' = False"
        "ec' = ec\<lparr>Data := gm_set k (take idx (gm_list (Data ec) k) @ e # drop idx (gm_list (Data ec) k)) (Data ec)\<rparr>"
    using assms(2) m by (auto simp: Mock_SetInsert_eq [OF assms(1)] s mock_contents_def split: if_splits)
  then have "mock_ok ec' \<and> err = None \<and> b = (e \<notin> mock_contents ec k)
    \<and> mock_contents ec' = (mock_contents ec)(k := insert e (mock_contents ec k))
    \<and> Expirations ec' = Expirations ec"
  proof cases
    case known
    then show ?thesis using assms(1) by (auto simp: fun_eq_iff)
  next
    case new
    note i = sorted_insert_at [OF mock_ok_sorted [OF assms(1)] s [unfolded new(4)]]
    show ?thesis
      using new i mock_ok_set [OF assms(1) i(1)]
      by (simp add: mock_contents_def fun_eq_iff)
  qed
  then show "mock_ok ec'" "err = None" "b = (e \<notin> mock_contents ec k)"
    "mock_contents ec' = (mock_contents ec)(k := insert e (mock_contents ec k))"
    "Expirations ec' = Expirations ec" by simp_all
qed

lemma world_lapse:
  assumes "world_ok w"
  shows "world_ok (tick (fst w), CleanupExpiry (order (fst w) 0) now (snd w))"
    and "lapse (mock_expiring (snd w)) (mock_contents (snd w))
          (mock_contents (CleanupExpiry (order (fst w) 0) now (snd w)))"
    and "mock_expiring (CleanupExpiry (order (fst w) 0) now (snd w)) \<le> mock_expiring (snd w)"
  using assms CleanupExpiry_lapse CleanupExpiry_simps(4)
  by (auto simp: world_ok_def env_ok_def tick_def)

lemma mock_contents_Expirations [simp]: "mock_contents (ec\<lparr>Expirations := x\<rparr>) = mock_contents ec"
  by (simp add: mock_contents_def fun_eq_iff)

lemma mock_contents_member:
  "mock_ok ec \<Longrightarrow> snd (set_search (gm_list (Data ec) k) e) \<longleftrightarrow> e \<in> mock_contents ec k"
  by (metis mock_contents_def mock_ok_sorted prod.collapse set_search_sorted(1))

lemma set_concat_replicate: "0 < n \<Longrightarrow> set (concat (replicate n l)) = set l"
  by (cases n) auto

lemma mock_contents_card:
  "mock_ok ec \<Longrightarrow> card (mock_contents ec k) = length (gm_list (Data ec) k)"
  using mock_ok_sorted [of ec k]
  by (simp add: mock_contents_def strict_sorted_iff distinct_card)

lemmas mock_ops =
  mock_cache_def timed_def untimed_def Let_def Mock_SetContains_def Mock_SetList_def
  Mock_SetToChan_def Mock_SetCardinality_def Mock_ExpireAt_def

interpretation mock: remote_cache "mock_cache js" world_ok
  "\<lambda>w. mock_contents (snd w)" "\<lambda>w. mock_expiring (snd w)"
proof (unfold_locales, goal_cases)
  case (1 c k e b c')
  then obtain ec' where s: "Mock_SetInsert k e (snd c) = ((b, None), ec')" and c': "c' = (fst c, ec')"
    by (auto simp: mock_ops split: prod.splits)
  note m = Mock_SetInsert_spec [OF _ s]
  have ok: "mock_ok (snd c)" using 1(1) by (simp add: world_ok_def)
  show ?case
    using m [OF ok] 1(1) c'
    by (auto simp: world_ok_def mock_expiring_def intro!: exI [of _ "mock_contents (snd c)"])
next
  case (2 c k e b err c')
  then obtain ec' where s: "Mock_SetInsert k e (snd c) = ((b, Some err), ec')"
    by (auto simp: mock_ops split: prod.splits)
  have ok: "mock_ok (snd c)" using 2(1) by (simp add: world_ok_def)
  from Mock_SetInsert_spec(2) [OF ok s] show ?case by simp
next
  case (3 c k e b c')
  then show ?case
    using world_lapse [OF 3(1), of "clock (fst c) 0"] mock_contents_member
    by (auto simp: mock_ops world_ok_def split: if_splits)
next
  case (4 c k l c')
  then show ?case
    using world_lapse [OF 4(1), of "clock (fst c) 0"] by (auto simp: mock_ops mock_contents_def)
next
  case (5 c k l c')
  then have "0 < nat (Duplicate (CleanupExpiry (order (fst c) 0) (clock (fst c) 0) (snd c)) + 1)"
    using world_lapse(1) [OF 5(1), of "clock (fst c) 0"] by (simp add: world_ok_def mock_ok_def)
  with 5 show ?case
    using world_lapse [OF 5(1), of "clock (fst c) 0"]
    by (auto simp: mock_ops mock_contents_def set_concat_replicate simp del: set_concat)
next
  case (6 c k n c')
  then show ?case
    by (auto simp: mock_ops world_ok_def mock_contents_card [symmetric]) (simp add: mock_contents_def)
next
  case (7 c k t u er c')
  then show ?case
    by (auto simp: mock_ops world_ok_def mock_ok_def mock_expiring_def le_fun_def)
qed

section \<open>Properties\<close>

definition sample_mock :: MockRemoteCache where
  "sample_mock =
     \<lparr>Data = [(''k'', [''a'', ''c'']), (''old'', [''x''])], Expirations = [(''old'', utc 5)], Duplicate = 1\<rparr>"

lemma sample_mock_ok: "mock_ok sample_mock"
  by (simp add: mock_ok_def sample_mock_def gm_ok_def)

text \<open>
  C39. Inserting into a sorted slice is insertion into the set it stands for: the flag tells
  whether the entry is new, no other key changes, the slices stay strictly sorted, and no error is
  reported.
\<close>

theorem Mock_SetInsert_refines_insert:
  assumes "mock_ok ec"
  shows "case Mock_SetInsert key entry ec of ((b, err), ec') \<Rightarrow>
    mock_ok ec' \<and> err = None \<and> b = (entry \<notin> mock_contents ec key)
    \<and> mock_contents ec' = (mock_contents ec)(key := insert entry (mock_contents ec key))"
  using Mock_SetInsert_spec [OF assms, of key entry] by (simp split: prod.splits)

theorem Mock_SetInsert_refines_insert_witness:
  "case Mock_SetInsert ''k'' ''b'' sample_mock of ((b, err), ec') \<Rightarrow>
    mock_ok ec' \<and> err = None \<and> b = (''b'' \<notin> mock_contents sample_mock ''k'')
    \<and> mock_contents ec' = (mock_contents sample_mock)(''k'' := insert ''b'' (mock_contents sample_mock ''k''))"
  by (rule Mock_SetInsert_refines_insert [OF sample_mock_ok])

text \<open>
  Dropping expired keys does not depend on the order in which Go visits the map: exactly the
  keys whose expiration lies before the clock lose their contents and their expiration.
\<close>

theorem CleanupExpiry_drops_expired:
  assumes "mock_ok ec" and "rearranges ord"
  shows "mock_contents (CleanupExpiry ord now ec) key
      = (if \<exists>t. gm_get (Expirations ec) key = Some t \<and> Before t now then {} else mock_contents ec key)
    \<and> mock_expiring (CleanupExpiry ord now ec) key
      = (\<exists>t. gm_get (Expirations ec) key = Some t \<and> \<not> Before t now)"
  using CleanupExpiry_list [OF assms, of now key] CleanupExpiry_simps(2) [OF assms, of now key]
  by (auto simp: mock_contents_def mock_expiring_def gone_def split: option.splits if_splits)

theorem CleanupExpiry_drops_expired_witness:
  "mock_contents (CleanupExpiry rev (utc 6) sample_mock) ''old'' = {}
    \<and> mock_contents (CleanupExpiry rev (utc 5) sample_mock) ''old'' = {''x''}"
  using CleanupExpiry_drops_expired [OF sample_mock_ok rearranges_rev, where now = "utc 6" and key = "''old''"]
    CleanupExpiry_drops_expired [OF sample_mock_ok rearranges_rev, where now = "utc 5" and key = "''old''"]
  by (simp add: sample_mock_def Before_def utc_def mock_contents_def gm_list_def)

text \<open>
  C40. Removing an entry reports whether the entry was in the set but leaves the set as it was:
  the slice is put together again from the same two halves.
\<close>

theorem Mock_SetRemove_keeps_entry:
  assumes "mock_ok ec" and "rearranges ord"
  shows "case Mock_SetRemove ord now key entry ec of ((b, err), ec') \<Rightarrow>
    err = None \<and> b = (entry \<in> mock_contents (CleanupExpiry ord now ec) key)
    \<and> mock_contents ec' = mock_contents (CleanupExpiry ord now ec)"
proof -
  let ?ec = "CleanupExpiry ord now ec"
  have "mock_ok ?ec" by (rule CleanupExpiry_simps(4) [OF assms])
  then have m: "snd (set_search (gm_list (Data ?ec) key) entry) = (entry \<in> mock_contents ?ec key)"
    by (rule mock_contents_member)
  obtain idx b where s: "set_search (gm_list (Data ?ec) key) entry = (idx, b)" by fastforce
  show ?thesis
    using m by (cases b) (simp_all add: Mock_SetRemove_def Let_def s mock_contents_def fun_eq_iff)
qed

theorem Mock_SetRemove_keeps_entry_witness:
  "case Mock_SetRemove rev (utc 0) ''k'' ''a'' sample_mock of ((b, err), ec') \<Rightarrow>
    b \<and> ''a'' \<in> mock_contents ec' ''k''"
proof -
  have "''a'' \<in> mock_contents (CleanupExpiry rev (utc 0) sample_mock) ''k''"
    using CleanupExpiry_list [OF sample_mock_ok rearranges_rev, of "utc 0" "''k''"]
    by (simp add: mock_contents_def) (simp add: gone_def sample_mock_def gm_list_def)
  then show ?thesis
    using Mock_SetRemove_keeps_entry [OF sample_mock_ok rearranges_rev, where now = "utc 0"
        and key = "''k''" and entry = "''a''"]
    by (auto split: prod.splits)
qed

text \<open>The keys a text pattern followed by a star selects are sent, in the order of the visit.\<close>

lemma send_matching_prefix:
  assumes "list_all plain_char p" and "p \<noteq> []"
  shows "send_matching (p @ ''*'') keys
    = (filter (\<lambda>k. prefix p k \<and> CHR ''/'' \<notin> set (drop (length p) k)) keys, None)"
  by (induction keys) (simp_all add: filepath_Match_prefix [OF assms])

text \<open>A stored log state is the one loaded, whenever the JSON encoding of it can be read.\<close>

lemma Mock_Load_Store:
  assumes "json_Marshal js log = Inr s" and "json_Unmarshal_value js s = Inr log"
  shows "fst (Mock_LoadLogState js (ShortURL log) (snd (Mock_StoreLogState js log ec))) = (Some log, None)"
  using assms by (simp add: Mock_LoadLogState_def Mock_StoreLogState_def)

end
