(* ===== verification/Known_Certificates.thy ===== *)
theory Known_Certificates
  imports Mock_Cache
begin

text \<open>
  \<^verbatim>\<open>storage/knowncertificates.go\<close>: the set of serials seen for an issuer and an expiration
  bucket, kept in the remote cache under a key built from both. The facts that need no more than
  the contract of the cache are proved in the locale \<open>remote_cache\<close>.
\<close>

section \<open>Operations\<close>

abbreviation kSerials :: string where "kSerials \<equiv> ''serials''"

record KnownCertificates =
  kc_expDate :: ExpDate
  kc_issuer :: Issuer
  kc_expirySet :: bool

definition NewKnownCertificates :: "ExpDate \<Rightarrow> Issuer \<Rightarrow> KnownCertificates" where
  "NewKnownCertificates aExpDate aIssuer =
     \<lparr>kc_expDate = aExpDate, kc_issuer = aIssuer, kc_expirySet = False\<rparr>"

definition kc_id :: "KnownCertificates \<Rightarrow> string list \<Rightarrow> string" where
  "kc_id kc params = ExpDate_ID (kc_expDate kc) @ strings_join [] params @ ''::'' @ iss_id (kc_issuer kc)"

definition serialId :: "KnownCertificates \<Rightarrow> string list \<Rightarrow> string" where
  "serialId kc params = kSerials @ ''::'' @ kc_id kc params"

text \<open>An error of \<^verbatim>\<open>ExpireAt\<close> is logged and forgotten.\<close>

definition setExpiryFlag :: "'c RemoteCache \<Rightarrow> KnownCertificates \<Rightarrow> 'c \<Rightarrow> 'c outcome" where
  "setExpiryFlag rc kc c =
     (let expireTime = ExpireTime (kc_expDate kc)
      in outcome_bind (rc_ExpireAt rc (serialId kc []) expireTime c) (\<lambda>((_, err), c). Done c))"

definition WasUnknown ::
    "'c RemoteCache \<Rightarrow> KnownCertificates \<Rightarrow> Serial \<Rightarrow> 'c \<Rightarrow> (bool ret \<times> KnownCertificates \<times> 'c) outcome" where
  "WasUnknown rc kc aSerial c =
     outcome_bind (rc_SetInsert rc (serialId kc []) (BinaryString aSerial) c) (\<lambda>((result, err), c).
       case err of
         Some e \<Rightarrow> Done ((False, Some e), kc, c)
       | None \<Rightarrow>
           (if \<not> kc_expirySet kc
            then outcome_bind (setExpiryFlag rc kc c)
                   (\<lambda>c. Done ((result, None), kc\<lparr>kc_expirySet := True\<rparr>, c))
            else Done ((result, None), kc, c)))"

text \<open>An error of the cache is logged; the count that came with it is returned.\<close>

definition kc_Count :: "'c RemoteCache \<Rightarrow> KnownCertificates \<Rightarrow> 'c \<Rightarrow> (int \<times> 'c) outcome" where
  "kc_Count rc kc c =
     outcome_bind (rc_SetCardinality rc (serialId kc []) c) (\<lambda>((count, err), c). Done (count, c))"

text \<open>
  The strings received are the keys of a map, which is then visited in the unspecified order
  \<open>ord\<close>. An error of the cache ends the process.
\<close>

fun collect_serials :: "string list \<Rightarrow> Serial list" where
  "collect_serials [] = []"
| "collect_serials (str # strs) =
     (case NewSerialFromBinaryString str of
        Inl err \<Rightarrow> collect_serials strs
      | Inr bs \<Rightarrow> bs # collect_serials strs)"

definition Known ::
    "'c RemoteCache \<Rightarrow> (string list \<Rightarrow> string list) \<Rightarrow> KnownCertificates \<Rightarrow> 'c \<Rightarrow> (Serial list \<times> 'c) outcome" where
  "Known rc ord kc c =
     outcome_bind (rc_SetToChan rc (serialId kc []) c) (\<lambda>((sent, err), c).
       case err of
         Some e \<Rightarrow> Panic ''Error obtaining list of known certificates''
       | None \<Rightarrow>
           (let serials = foldl (\<lambda>m str. gm_set str () m) [] sent
            in Done (collect_serials (ord (map fst serials)), c)))"

section \<open>The set behind the operations\<close>

lemma collect_serials_eq: "collect_serials strs = map (\<lambda>s. Serial (bytes_of_string s)) strs"
  by (induction strs) (simp_all add: NewSerialFromBinaryString_def NewSerialFromBytes_def)

lemma foldl_gm_set_keys:
  "set (map fst (foldl (\<lambda>m str. gm_set str () m) m strs)) = set (map fst m) \<union> set strs"
  by (induction strs arbitrary: m) auto

lemma foldl_gm_set_distinct:
  "distinct (map fst m) \<Longrightarrow> distinct (map fst (foldl (\<lambda>m str. gm_set str () m) m strs))"
  by (induction strs arbitrary: m) (simp_all add: distinct_update)

lemma BinaryString_Serial [simp]: "BinaryString (Serial (bytes_of_string s)) = s"
  by (simp add: BinaryString_def)

lemma Serial_BinaryString [simp]: "Serial (bytes_of_string (BinaryString s)) = s"
  by (simp add: BinaryString_def)

lemma inj_Serial_bytes: "inj (\<lambda>s. Serial (bytes_of_string s))"
  by (rule inj_on_inverseI [of _ BinaryString]) simp

text \<open>The list of the distinct strings sent, as serials.\<close>

lemma collected:
  fixes sent :: "string list"
  assumes "rearranges ord"
  defines "l \<equiv> collect_serials (ord (map fst (foldl (\<lambda>m str. gm_set str () m) ([] :: (string \<times> unit) list) sent)))"
  shows "distinct l" and "BinaryString ` set l = set sent"
proof -
  let ?ks = "map fst (foldl (\<lambda>m str. gm_set str () m) ([] :: (string \<times> unit) list) sent)"
  have d: "distinct (ord ?ks)"
    using foldl_gm_set_distinct [of "[] :: (string \<times> unit) list" sent] rearranges_distinct [OF assms(1)] by simp
  have k: "set (ord ?ks) = set sent"
    using foldl_gm_set_keys [of "[]" sent] rearranges_set [OF assms(1)] by simp
  show "distinct l"
    unfolding l_def collect_serials_eq distinct_map using d inj_Serial_bytes by (auto intro: inj_on_subset)
  show "BinaryString ` set l = set sent"
    unfolding l_def collect_serials_eq using k by (simp add: image_image)
qed

context remote_cache
begin

lemma WasUnknown_step:
  assumes "inv c" and "WasUnknown rc kc s c = Done ((b, None), kc', c')"
  shows "inv c' \<and> kc' = kc\<lparr>kc_expirySet := True\<rparr>
    \<and> expiring c' \<le> (expiring c)(serialId kc [] := True)
    \<and> (\<exists>C. lapse (expiring c) (contents c) C \<and> b = (BinaryString s \<notin> C (serialId kc []))
        \<and> lapse ((expiring c)(serialId kc [] := True))
            (C(serialId kc [] := insert (BinaryString s) (C (serialId kc [])))) (contents c'))"
proof -
  let ?k = "serialId kc []"
  obtain c1 where i: "rc_SetInsert rc ?k (BinaryString s) c = Done ((b, None), c1)"
    and r: "if kc_expirySet kc then kc' = kc \<and> c' = c1
      else kc' = kc\<lparr>kc_expirySet := True\<rparr> \<and> setExpiryFlag rc kc c1 = Done c'"
    using assms(2)
    by (auto simp: WasUnknown_def outcome_bind_Done_iff split: option.splits if_splits)
  obtain C where 1: "inv c1" "expiring c1 \<le> expiring c" "lapse (expiring c) (contents c) C"
      "b = (BinaryString s \<notin> C ?k)" "contents c1 = C(?k := insert (BinaryString s) (C ?k))"
    using SetInsert_law [OF assms(1) i] by auto
  have up: "expiring c \<le> (expiring c)(?k := True)" by (simp add: le_fun_def)
  show ?thesis
  proof (cases "kc_expirySet kc")
    case True
    then show ?thesis using r 1 up by (auto intro!: exI [of _ C])
  next
    case False
    then obtain u er where e: "rc_ExpireAt rc ?k (ExpireTime (kc_expDate kc)) c1 = Done ((u, er), c')"
      and kc': "kc' = kc\<lparr>kc_expirySet := True\<rparr>"
      using r by (auto simp: setExpiryFlag_def outcome_bind_Done_iff Let_def)
    have m: "(expiring c1)(?k := True) \<le> (expiring c)(?k := True)"
      using 1(2) by (simp add: le_fun_def)
    have "lapse ((expiring c)(?k := True)) (contents c1) (contents c')"
      using ExpireAt_law [OF 1(1) e] lapse_mono [OF _ m] by blast
    then show ?thesis
      using ExpireAt_law [OF 1(1) e] 1 kc' order_trans [OF _ m] by (metis (no_types))
  qed
qed

lemma Known_lists:
  assumes "inv c" and "rearranges ord" and "Known rc ord kc c = Done (l, c')"
  shows "inv c' \<and> expiring c' \<le> expiring c \<and> lapse (expiring c) (contents c) (contents c')
    \<and> distinct l \<and> BinaryString ` set l = contents c' (serialId kc [])"
proof -
  obtain sent where s: "rc_SetToChan rc (serialId kc []) c = Done ((sent, None), c')"
    and l: "l = collect_serials (ord (map fst (foldl (\<lambda>m str. gm_set str () m) ([] :: (string \<times> unit) list) sent)))"
    using assms(3) by (auto simp: Known_def outcome_bind_Done_iff Let_def split: option.splits)
  show ?thesis
    using SetToChan_law [OF assms(1) s] collected [OF assms(2), of sent] l by simp
qed

lemma Count_card:
  assumes "inv c" and "rc_SetCardinality rc (serialId kc []) c = Done ((n, None), c')"
  shows "kc_Count rc kc c = Done (int (card (contents c' (serialId kc []))), c')"
  using SetCardinality_law [OF assms] assms(2) by (simp add: kc_Count_def)

end

section \<open>On the in-memory cache\<close>

text \<open>A caller that asks about one serial after the other and stops at the first error.\<close>

fun ask_all ::
    "'c RemoteCache \<Rightarrow> KnownCertificates \<Rightarrow> Serial list \<Rightarrow> 'c \<Rightarrow> (bool list \<times> KnownCertificates \<times> 'c) outcome" where
  "ask_all rc kc [] c = Done ([], kc, c)"
| "ask_all rc kc (s # ss) c =
     outcome_bind (WasUnknown rc kc s c) (\<lambda>((b, err), kc, c).
       case err of
         Some e \<Rightarrow> Panic ''error''
       | None \<Rightarrow> outcome_bind (ask_all rc kc ss c) (\<lambda>(bs, kc, c). Done (b # bs, kc, c)))"

lemma serialId_set [simp]: "serialId (kc\<lparr>kc_expirySet := b\<rparr>) ps = serialId kc ps"
  by (simp add: serialId_def kc_id_def)

lemma WasUnknown_mock:
  assumes "world_ok w"
  obtains w' where
    "WasUnknown (mock_cache js) kc s w =
      Done ((BinaryString s \<notin> mock_contents (snd w) (serialId kc []), None), kc\<lparr>kc_expirySet := True\<rparr>, w')"
    "world_ok w'" "fst w' = fst w"
    "mock_contents (snd w') = (mock_contents (snd w))(serialId kc [] :=
        insert (BinaryString s) (mock_contents (snd w) (serialId kc [])))"
proof -
  let ?k = "serialId kc []"
  have ok: "mock_ok (snd w)" and en: "env_ok (fst w)" using assms by (simp_all add: world_ok_def)
  obtain b err ec where i: "Mock_SetInsert ?k (BinaryString s) (snd w) = ((b, err), ec)"
    by (metis prod.collapse)
  note m = Mock_SetInsert_spec [OF ok i]
  show ?thesis
  proof (cases "kc_expirySet kc")
    case True
    then show ?thesis
      using m i en
      by (intro that [of "(fst w, ec)"])
        (simp_all add: WasUnknown_def mock_cache_def untimed_def world_ok_def)
  next
    case False
    then show ?thesis
      using m i en
      by (intro that [of "(fst w, ec\<lparr>Expirations := gm_set ?k (ExpireTime (kc_expDate kc)) (Expirations ec)\<rparr>)"])
        (simp_all add: WasUnknown_def setExpiryFlag_def mock_cache_def untimed_def world_ok_def
          Mock_ExpireAt_def Let_def mock_ok_def)
  qed
qed

text \<open>
  C14. Over any sequence of questions, \<^verbatim>\<open>WasUnknown\<close> says yes to a serial exactly when
  it was not recorded before and not asked about earlier in the sequence; afterwards the recorded
  set has grown by the serials asked about, and no other key of the cache has changed.
\<close>

theorem WasUnknown_once:
  assumes "world_ok w"
  shows "\<exists>kc' w'. ask_all (mock_cache js) kc ss w =
      Done (map (\<lambda>i. BinaryString (ss ! i) \<notin> mock_contents (snd w) (serialId kc [])
                  \<and> ss ! i \<notin> set (take i ss)) [0..<length ss], kc', w')
    \<and> world_ok w' \<and> mock_contents (snd w') = (mock_contents (snd w))(serialId kc [] :=
          mock_contents (snd w) (serialId kc []) \<union> BinaryString ` set ss)"
  using assms
proof (induction ss arbitrary: kc w)
  case (Cons s ss)
  let ?k = "serialId kc []" and ?C = "mock_contents (snd w)"
  obtain w1 where u: "WasUnknown (mock_cache js) kc s w =
        Done ((BinaryString s \<notin> ?C ?k, None), kc\<lparr>kc_expirySet := True\<rparr>, w1)"
    and w1: "world_ok w1" "mock_contents (snd w1) = ?C(?k := insert (BinaryString s) (?C ?k))"
    using WasUnknown_mock [OF Cons.prems] by metis
  obtain kc' w' where a: "ask_all (mock_cache js) (kc\<lparr>kc_expirySet := True\<rparr>) ss w1 =
      Done (map (\<lambda>i. BinaryString (ss ! i) \<notin> insert (BinaryString s) (?C ?k)
                  \<and> ss ! i \<notin> set (take i ss)) [0..<length ss], kc', w')"
    and w': "world_ok w'" "mock_contents (snd w') = ?C(?k := insert (BinaryString s) (?C ?k) \<union> BinaryString ` set ss)"
    using Cons.IH [OF w1(1), of "kc\<lparr>kc_expirySet := True\<rparr>"]
    unfolding serialId_set w1(2) fun_upd_same fun_upd_upd by blast
  have "[0..<length (s # ss)] = 0 # map Suc [0..<length ss]"
    by (simp add: upt_conv_Cons map_Suc_upt del: upt_Suc)
  then have "map (\<lambda>i. BinaryString ((s # ss) ! i) \<notin> ?C ?k \<and> (s # ss) ! i \<notin> set (take i (s # ss))) [0..<length (s # ss)]
    = (BinaryString s \<notin> ?C ?k) # map (\<lambda>i. BinaryString (ss ! i) \<notin> insert (BinaryString s) (?C ?k)
                  \<and> ss ! i \<notin> set (take i ss)) [0..<length ss]"
    by auto
  then show ?case
    using u a w' by (intro exI [of _ kc'] exI [of _ w']) auto
qed simp

theorem WasUnknown_once_witness:
  "\<exists>kc' w'. ask_all (mock_cache sample_json)
      (NewKnownCertificates sample_bucket (NewIssuerFromString ''i'')) [Serial [1], Serial [2], Serial [1]]
      (steady_env (utc 0), NewMockRemoteCache) = Done ([True, True, False], kc', w') \<and> world_ok w'"
proof -
  have "world_ok (steady_env (utc 0), NewMockRemoteCache)" by (simp add: world_ok_def)
  from WasUnknown_once [OF this, of sample_json "NewKnownCertificates sample_bucket (NewIssuerFromString ''i'')"
      "[Serial [1], Serial [2], Serial [1]]"]
  show ?thesis by (auto simp: mock_contents_def NewMockRemoteCache_def upt_rec)
qed

text \<open>
  C15. While the bucket has not expired, \<^verbatim>\<open>Known\<close> returns every recorded serial exactly
  once, although the cache may send it several times, and \<^verbatim>\<open>Count\<close> is their number.
\<close>

theorem Known_lists_recorded:
  assumes "world_ok w" and "rearranges ord" and "\<not> gone (clock (fst w) 0) (snd w) (serialId kc [])"
  shows "\<exists>l w'. Known (mock_cache js) ord kc w = Done (l, w') \<and> world_ok w'
    \<and> distinct l \<and> set l = {s. BinaryString s \<in> mock_contents (snd w) (serialId kc [])}
    \<and> kc_Count (mock_cache js) kc w = Done (int (length l), w)"
proof -
  let ?k = "serialId kc []"
  obtain l w' where k: "Known (mock_cache js) ord kc w = Done (l, w')"
    by (simp add: Known_def mock_cache_def timed_def Mock_SetToChan_def Let_def)
  note s = mock.Known_lists [OF assms(1,2) k]
  have w': "snd w' = CleanupExpiry (order (fst w) 0) (clock (fst w) 0) (snd w)"
    using k by (auto simp: Known_def mock_cache_def timed_def Mock_SetToChan_def Let_def)
  have ok: "mock_ok (snd w)" and en: "rearranges (order (fst w) 0)"
    using assms(1) by (simp_all add: world_ok_def env_ok_def)
  have c: "mock_contents (snd w') ?k = mock_contents (snd w) ?k"
    using CleanupExpiry_list [OF ok en] assms(3) by (simp add: w' mock_contents_def)
  then have img: "BinaryString ` set l = mock_contents (snd w) ?k" using s by simp
  then have "set l = {s. BinaryString s \<in> mock_contents (snd w) ?k}"
    unfolding img [symmetric] by auto
  moreover have "kc_Count (mock_cache js) kc w = Done (int (length l), w)"
  proof -
    have "card (BinaryString ` set l) = length l"
      using card_image [of BinaryString "set l"] distinct_card [of l] s by (auto simp: inj_on_def)
    then show ?thesis
      using img mock_contents_card [OF ok, of ?k]
      by (simp add: kc_Count_def mock_cache_def untimed_def Mock_SetCardinality_def)
  qed
  ultimately show ?thesis using k s by blast
qed

theorem Known_lists_recorded_witness:
  "\<exists>l w'. Known (mock_cache sample_json) rev (NewKnownCertificates sample_bucket (NewIssuerFromString ''i''))
      (steady_env (utc 0), NewMockRemoteCache) = Done (l, w') \<and> l = []"
proof -
  have "world_ok (steady_env (utc 0), NewMockRemoteCache)" by (simp add: world_ok_def)
  from Known_lists_recorded [OF this rearranges_rev, of "NewKnownCertificates sample_bucket (NewIssuerFromString ''i'')" sample_json]
  show ?thesis by (auto simp: gone_def mock_contents_def NewMockRemoteCache_def)
qed

end
