(* ===== verification/Issuer_Metadata.thy ===== *)
theory Issuer_Metadata
  imports Mock_Cache
begin

text \<open>
  \<^verbatim>\<open>storage/issuermetadata.go\<close>: what is known of an issuer (CRL distribution points,
  distinguished names, expiration buckets), remembered in the process and published to the remote
  cache. The read-write lock makes each visit of the three local sets atomic; the model runs one
  call of \<^verbatim>\<open>Accumulate\<close> at a time.
\<close>

section \<open>Operations\<close>

abbreviation kIssuers :: string where "kIssuers \<equiv> ''issuer''"
abbreviation kCrls :: string where "kCrls \<equiv> ''crl''"

record IssuerMetadata =
  im_issuer :: Issuer
  knownCrlDPs :: "string set"
  knownIssuerDNs :: "string set"
  knownExpDates :: "string set"

definition NewIssuerMetadata :: "Issuer \<Rightarrow> IssuerMetadata" where
  "NewIssuerMetadata aIssuer =
     \<lparr>im_issuer = aIssuer, knownCrlDPs = {}, knownIssuerDNs = {}, knownExpDates = {}\<rparr>"

definition im_id :: "IssuerMetadata \<Rightarrow> string" where
  "im_id im = iss_id (im_issuer im)"

definition crlId :: "IssuerMetadata \<Rightarrow> string" where
  "crlId im = kCrls @ ''::'' @ im_id im"

definition issuersId :: "IssuerMetadata \<Rightarrow> string" where
  "issuersId im = kIssuers @ ''::'' @ im_id im"

text \<open>
  \<open>url_Parse\<close> is \<^verbatim>\<open>url.Parse\<close>, of which the code reads the scheme and the text that
  \<^verbatim>\<open>String()\<close> prints.
\<close>

record parsed_url =
  url_Scheme :: string
  url_String :: string

type_synonym url_parser = "string \<Rightarrow> parsed_url res"

definition addCRL ::
    "url_parser \<Rightarrow> 'c RemoteCache \<Rightarrow> IssuerMetadata \<Rightarrow> string \<Rightarrow> 'c \<Rightarrow> (go_error option \<times> 'c) outcome" where
  "addCRL url_Parse rc im aCRL c =
     (case url_Parse (trim_space aCRL) of
        Inl err \<Rightarrow> Done (None, c)
      | Inr url \<Rightarrow>
          (if url_Scheme url = ''ldap'' \<or> url_Scheme url = ''ldaps'' then Done (None, c)
           else if url_Scheme url \<noteq> ''http'' \<and> url_Scheme url \<noteq> ''https'' then Done (None, c)
           else outcome_bind (rc_SetInsert rc (crlId im) (url_String url) c)
                  (\<lambda>((result, err), c). Done (err, c))))"

definition addIssuerDN ::
    "'c RemoteCache \<Rightarrow> IssuerMetadata \<Rightarrow> string \<Rightarrow> 'c \<Rightarrow> (go_error option \<times> 'c) outcome" where
  "addIssuerDN rc im aIssuerDN c =
     outcome_bind (rc_SetInsert rc (issuersId im) aIssuerDN c) (\<lambda>((result, err), c). Done (err, c))"

text \<open>The loop over the distribution points; it stops at the first error of \<^verbatim>\<open>addCRL\<close>.\<close>

fun accumulate_dps ::
    "url_parser \<Rightarrow> 'c RemoteCache \<Rightarrow> IssuerMetadata \<Rightarrow> string list \<Rightarrow> 'c
      \<Rightarrow> (go_error option \<times> IssuerMetadata \<times> 'c) outcome" where
  "accumulate_dps url_Parse rc im [] c = Done (None, im, c)"
| "accumulate_dps url_Parse rc im (dp # dps) c =
     (if dp \<notin> knownCrlDPs im
      then let im = im\<lparr>knownCrlDPs := insert dp (knownCrlDPs im)\<rparr>
           in outcome_bind (addCRL url_Parse rc im dp c) (\<lambda>(err, c).
                case err of
                  Some e \<Rightarrow> Done (Some (Errorf (''Could not accumulate DP '' @ im_id im)), im, c)
                | None \<Rightarrow> accumulate_dps url_Parse rc im dps c)
      else accumulate_dps url_Parse rc im dps c)"

definition Accumulate ::
    "url_parser \<Rightarrow> 'c RemoteCache \<Rightarrow> IssuerMetadata \<Rightarrow> Certificate \<Rightarrow> 'c
      \<Rightarrow> (bool ret \<times> IssuerMetadata \<times> 'c) outcome" where
  "Accumulate url_Parse rc im aCert c =
     (let expDate = NewExpDateFromTime (NotAfter aCert);
          dn = Issuer_String aCert;
          seenExpDateBefore = (ExpDate_ID expDate \<in> knownExpDates im);
          seenIssuerDn = (dn \<in> knownIssuerDNs im);
          im = (if \<not> seenExpDateBefore
                then im\<lparr>knownExpDates := insert (ExpDate_ID expDate) (knownExpDates im)\<rparr> else im)
      in outcome_bind (accumulate_dps url_Parse rc im (CRLDistributionPoints aCert) c) (\<lambda>(err, im, c).
           case err of
             Some e \<Rightarrow> Done ((seenExpDateBefore, Some e), im, c)
           | None \<Rightarrow>
               (if \<not> seenIssuerDn
                then let im = im\<lparr>knownIssuerDNs := insert dn (knownIssuerDNs im)\<rparr>
                     in outcome_bind (addIssuerDN rc im dn c)
                          (\<lambda>(err, c). Done ((seenExpDateBefore, err), im, c))
                else Done ((seenExpDateBefore, None), im, c))))"

text \<open>An error of the cache ends the process.\<close>

definition im_Issuers :: "'c RemoteCache \<Rightarrow> IssuerMetadata \<Rightarrow> 'c \<Rightarrow> (string list \<times> 'c) outcome" where
  "im_Issuers rc im c =
     outcome_bind (rc_SetList rc (issuersId im) c) (\<lambda>((strList, err), c).
       case err of
         Some e \<Rightarrow> Panic ''Error obtaining list of issuers''
       | None \<Rightarrow> Done (strList, c))"

definition im_CRLs :: "'c RemoteCache \<Rightarrow> IssuerMetadata \<Rightarrow> 'c \<Rightarrow> (string list \<times> 'c) outcome" where
  "im_CRLs rc im c =
     outcome_bind (rc_SetList rc (crlId im) c) (\<lambda>((strList, err), c).
       case err of
         Some e \<Rightarrow> Panic ''Error obtaining list of CRLs''
       | None \<Rightarrow> Done (strList, c))"

section \<open>What is remembered is published\<close>

text \<open>The text published for a distribution point, if its scheme is one of the two accepted.\<close>

definition crl_entry :: "url_parser \<Rightarrow> string \<Rightarrow> string option" where
  "crl_entry url_Parse dp =
     (case url_Parse (trim_space dp) of
        Inl err \<Rightarrow> None
      | Inr url \<Rightarrow> if url_Scheme url \<in> {''http'', ''https''} then Some (url_String url) else None)"

definition published :: "url_parser \<Rightarrow> (string \<Rightarrow> string set) \<Rightarrow> IssuerMetadata \<Rightarrow> bool" where
  "published url_Parse C im \<longleftrightarrow>
     (\<forall>dp \<in> knownCrlDPs im. \<forall>u. crl_entry url_Parse dp = Some u \<longrightarrow> u \<in> C (crlId im))
     \<and> knownIssuerDNs im \<subseteq> C (issuersId im)"

lemma addCRL_eq:
  "addCRL url_Parse rc im dp c =
     (case crl_entry url_Parse dp of
        None \<Rightarrow> Done (None, c)
      | Some u \<Rightarrow> outcome_bind (rc_SetInsert rc (crlId im) u c) (\<lambda>((result, err), c). Done (err, c)))"
  by (auto simp: addCRL_def crl_entry_def split: sum.splits)

lemma im_keys [simp]:
  "crlId (im\<lparr>knownCrlDPs := a\<rparr>) = crlId im" "crlId (im\<lparr>knownIssuerDNs := a\<rparr>) = crlId im"
  "crlId (im\<lparr>knownExpDates := a\<rparr>) = crlId im" "issuersId (im\<lparr>knownCrlDPs := a\<rparr>) = issuersId im"
  "issuersId (im\<lparr>knownIssuerDNs := a\<rparr>) = issuersId im" "issuersId (im\<lparr>knownExpDates := a\<rparr>) = issuersId im"
  by (simp_all add: crlId_def issuersId_def im_id_def)

lemma crlId_issuersId [simp]: "crlId im \<noteq> issuersId im'" "issuersId im' \<noteq> crlId im"
  by (simp_all add: crlId_def issuersId_def)

context remote_cache
begin

text \<open>What one successful insertion does to keys that do not expire.\<close>

lemma SetInsert_persistent:
  assumes "inv c" and "rc_SetInsert rc k e c = Done ((b, None), c')"
    and "\<not> expiring c k'"
  shows "inv c' \<and> \<not> expiring c' k' \<and> contents c k' \<subseteq> contents c' k' \<and> e \<in> contents c' k"
proof -
  obtain C where "inv c'" "expiring c' \<le> expiring c" "lapse (expiring c) (contents c) C"
    "contents c' = C(k := insert e (C k))"
    using SetInsert_law [OF assms(1,2)] by auto
  then show ?thesis using assms(3) lapse_stable [of "expiring c" "contents c" C k'] by auto
qed

definition durable :: "IssuerMetadata \<Rightarrow> 'c \<Rightarrow> bool" where
  "durable im c \<longleftrightarrow> inv c \<and> \<not> expiring c (crlId im) \<and> \<not> expiring c (issuersId im)"

lemma SetInsert_durable:
  assumes "durable im c" and "rc_SetInsert rc k e c = Done ((b, None), c')"
    and "k = crlId im \<or> k = issuersId im"
  shows "durable im c' \<and> contents c (crlId im) \<subseteq> contents c' (crlId im)
    \<and> contents c (issuersId im) \<subseteq> contents c' (issuersId im) \<and> e \<in> contents c' k"
  using assms SetInsert_persistent [of c k e b c' "crlId im"]
    SetInsert_persistent [of c k e b c' "issuersId im"]
  by (auto simp: durable_def)

lemma durable_keys:
  "durable (im\<lparr>knownCrlDPs := a\<rparr>) c = durable im c"
  "durable (im\<lparr>knownIssuerDNs := a\<rparr>) c = durable im c"
  "durable (im\<lparr>knownExpDates := a\<rparr>) c = durable im c"
  by (simp_all add: durable_def)

lemma addCRL_publishes:
  assumes "durable im c" and "published url_Parse (contents c) im"
    and "addCRL url_Parse rc im dp c = Done (None, c')"
  shows "durable im c' \<and> published url_Parse (contents c') (im\<lparr>knownCrlDPs := insert dp (knownCrlDPs im)\<rparr>)"
proof (cases "crl_entry url_Parse dp")
  case None
  then have "c' = c" using assms(3) by (simp add: addCRL_eq)
  then show ?thesis using assms(1,2) None by (auto simp: published_def)
next
  case (Some u)
  then obtain b where "rc_SetInsert rc (crlId im) u c = Done ((b, None), c')"
    using assms(3) by (auto simp: addCRL_eq outcome_bind_Done_iff)
  from SetInsert_durable [OF assms(1) this]
  show ?thesis using assms(2) Some by (auto simp: published_def)
qed

lemma accumulate_dps_publishes:
  assumes "durable im c" and "published url_Parse (contents c) im"
    and "accumulate_dps url_Parse rc im dps c = Done (None, im', c')"
  shows "durable im' c' \<and> published url_Parse (contents c') im'
    \<and> im' = im\<lparr>knownCrlDPs := knownCrlDPs im \<union> set dps\<rparr>"
  using assms
proof (induction dps arbitrary: im c)
  case (Cons dp dps)
  show ?case
  proof (cases "dp \<in> knownCrlDPs im")
    case True
    then show ?thesis using Cons by (auto simp: insert_absorb)
  next
    case False
    let ?im = "im\<lparr>knownCrlDPs := insert dp (knownCrlDPs im)\<rparr>"
    obtain c1 where a: "addCRL url_Parse rc ?im dp c = Done (None, c1)"
      and r: "accumulate_dps url_Parse rc ?im dps c1 = Done (None, im', c')"
      using Cons.prems(3) False
      by (auto simp: Let_def outcome_bind_Done_iff split: option.splits)
    have "addCRL url_Parse rc im dp c = Done (None, c1)" using a unfolding addCRL_eq im_keys .
    from addCRL_publishes [OF Cons.prems(1,2) this]
    have "durable ?im c1" "published url_Parse (contents c1) ?im" by (simp_all add: durable_keys)
    from Cons.IH [OF this r] show ?thesis by auto
  qed
qed simp

text \<open>After an \<^verbatim>\<open>Accumulate\<close> without error, all that is remembered of the issuer is published.\<close>

lemma Accumulate_publishes:
  assumes "durable im c" and "published url_Parse (contents c) im"
    and "Accumulate url_Parse rc im aCert c = Done ((seen, None), im', c')"
  shows "durable im' c' \<and> published url_Parse (contents c') im'
    \<and> set (CRLDistributionPoints aCert) \<subseteq> knownCrlDPs im' \<and> Issuer_String aCert \<in> knownIssuerDNs im'
    \<and> im_issuer im' = im_issuer im
    \<and> seen = (ExpDate_ID (NewExpDateFromTime (NotAfter aCert)) \<in> knownExpDates im)
    \<and> knownExpDates im' = insert (ExpDate_ID (NewExpDateFromTime (NotAfter aCert))) (knownExpDates im)"
proof -
  let ?x = "ExpDate_ID (NewExpDateFromTime (NotAfter aCert))" and ?dn = "Issuer_String aCert"
  let ?im = "im\<lparr>knownExpDates := insert ?x (knownExpDates im)\<rparr>"
  have im: "(if ?x \<notin> knownExpDates im then ?im else im) = ?im"
    by (simp add: insert_absorb)
  have p: "durable ?im c" "published url_Parse (contents c) ?im"
    using assms(1,2) by (simp_all add: durable_keys published_def)
  obtain im1 c1 where a: "accumulate_dps url_Parse rc ?im (CRLDistributionPoints aCert) c = Done (None, im1, c1)"
    and seen: "seen = (?x \<in> knownExpDates im)"
    and r: "if ?dn \<notin> knownIssuerDNs im
        then im' = im1\<lparr>knownIssuerDNs := insert ?dn (knownIssuerDNs im1)\<rparr>
          \<and> addIssuerDN rc im1 ?dn c1 = Done (None, c') else im' = im1 \<and> c' = c1"
    using assms(3)
    by (auto simp: Accumulate_def im Let_def outcome_bind_Done_iff addIssuerDN_def split: option.splits if_splits)
  note d = accumulate_dps_publishes [OF p a]
  then have d1: "durable im1 c1" and d2: "published url_Parse (contents c1) im1"
    and d3: "im1 = ?im\<lparr>knownCrlDPs := knownCrlDPs ?im \<union> set (CRLDistributionPoints aCert)\<rparr>"
    by blast+
  show ?thesis
  proof (cases "?dn \<in> knownIssuerDNs im")
    case True
    then show ?thesis using r d1 d2 seen by (simp add: d3)
  next
    case False
    then obtain b where "rc_SetInsert rc (issuersId im1) ?dn c1 = Done ((b, None), c')"
      using r by (auto simp: addIssuerDN_def outcome_bind_Done_iff)
    from SetInsert_durable [OF d1 this]
    have "durable im1 c' \<and> published url_Parse (contents c') (im1\<lparr>knownIssuerDNs := insert ?dn (knownIssuerDNs im1)\<rparr>)"
      using d2 by (auto simp: published_def)
    then show ?thesis using r False seen by (simp add: d3 durable_keys)
  qed
qed

end

section \<open>On the in-memory cache\<close>

lemma SetInsert_mock:
  assumes "world_ok w"
  obtains b w' where "rc_SetInsert (mock_cache js) k e w = Done ((b, None), w')" "world_ok w'"
    "mock_contents (snd w') = (mock_contents (snd w))(k := insert e (mock_contents (snd w) k))"
    "mock_expiring (snd w') = mock_expiring (snd w)"
proof -
  have ok: "mock_ok (snd w)" and en: "env_ok (fst w)" using assms by (simp_all add: world_ok_def)
  obtain b err ec where i: "Mock_SetInsert k e (snd w) = ((b, err), ec)"
    by (metis prod.collapse)
  note m = Mock_SetInsert_spec [OF ok i]
  show ?thesis
    using m i en by (intro that [of b "(fst w, ec)"])
      (simp_all add: mock_cache_def untimed_def world_ok_def mock_expiring_def fun_eq_iff)
qed

lemma accumulate_dps_mock:
  assumes "world_ok w"
  shows "\<exists>w'. accumulate_dps url_Parse (mock_cache js) im dps w =
      Done (None, im\<lparr>knownCrlDPs := knownCrlDPs im \<union> set dps\<rparr>, w') \<and> world_ok w'
    \<and> mock_expiring (snd w') = mock_expiring (snd w)
    \<and> mock_contents (snd w') = (mock_contents (snd w))(crlId im := mock_contents (snd w) (crlId im)
        \<union> {u. \<exists>dp \<in> set dps - knownCrlDPs im. crl_entry url_Parse dp = Some u})"
  using assms
proof (induction dps arbitrary: im w)
  case (Cons dp dps)
  let ?C = "mock_contents (snd w)" and ?im = "im\<lparr>knownCrlDPs := insert dp (knownCrlDPs im)\<rparr>"
  let ?new = "\<lambda>dps im. {u. \<exists>dp \<in> set dps - knownCrlDPs im. crl_entry url_Parse dp = Some u}"
  show ?case
  proof (cases "dp \<in> knownCrlDPs im")
    case True
    then show ?thesis using Cons by (simp add: insert_absorb)
  next
    case new: False
    obtain w1 where a: "addCRL url_Parse (mock_cache js) ?im dp w = Done (None, w1)" and w1: "world_ok w1"
      and e1: "mock_expiring (snd w1) = mock_expiring (snd w)"
      and c1: "mock_contents (snd w1) = ?C(crlId im := ?C (crlId im) \<union> {u. crl_entry url_Parse dp = Some u})"
    proof (cases "crl_entry url_Parse dp")
      case None
      then show ?thesis using Cons.prems by (intro that [of w]) (simp_all add: addCRL_eq)
    next
      case (Some u)
      obtain b w' where "rc_SetInsert (mock_cache js) (crlId im) u w = Done ((b, None), w')" "world_ok w'"
        "mock_contents (snd w') = ?C(crlId im := insert u (?C (crlId im)))"
        "mock_expiring (snd w') = mock_expiring (snd w)"
        using SetInsert_mock [OF Cons.prems] by metis
      then show ?thesis using Some by (intro that [of w']) (simp_all add: addCRL_eq)
    qed
    obtain w' where r: "accumulate_dps url_Parse (mock_cache js) ?im dps w1 =
        Done (None, ?im\<lparr>knownCrlDPs := knownCrlDPs ?im \<union> set dps\<rparr>, w')" "world_ok w'"
        "mock_expiring (snd w') = mock_expiring (snd w1)"
        "mock_contents (snd w') = (mock_contents (snd w1))(crlId im := mock_contents (snd w1) (crlId im) \<union> ?new dps ?im)"
      using Cons.IH [OF w1, of ?im] unfolding im_keys by blast
    have "{u. crl_entry url_Parse dp = Some u} \<union> ?new dps ?im = ?new (dp # dps) im"
      using new by auto
    then have "mock_contents (snd w') = ?C(crlId im := ?C (crlId im) \<union> ?new (dp # dps) im)"
      unfolding r(4) c1 by (simp add: Un_assoc)
    then show ?thesis using a r(1-3) e1 new by (intro exI [of _ w']) (simp add: Let_def)
  qed
qed simp

lemma Accumulate_mock:
  assumes "world_ok w"
  shows "\<exists>im' w'. Accumulate url_Parse (mock_cache js) im aCert w =
      Done ((ExpDate_ID (NewExpDateFromTime (NotAfter aCert)) \<in> knownExpDates im, None), im', w')
    \<and> world_ok w'
    \<and> knownExpDates im' = insert (ExpDate_ID (NewExpDateFromTime (NotAfter aCert))) (knownExpDates im)
    \<and> knownCrlDPs im' = knownCrlDPs im \<union> set (CRLDistributionPoints aCert)
    \<and> knownIssuerDNs im' = insert (Issuer_String aCert) (knownIssuerDNs im)
    \<and> im_issuer im' = im_issuer im
    \<and> mock_contents (snd w') = (mock_contents (snd w))(
        crlId im := mock_contents (snd w) (crlId im)
          \<union> {u. \<exists>dp \<in> set (CRLDistributionPoints aCert) - knownCrlDPs im. crl_entry url_Parse dp = Some u},
        issuersId im := mock_contents (snd w) (issuersId im)
          \<union> ({Issuer_String aCert} - knownIssuerDNs im))"
proof -
  let ?x = "ExpDate_ID (NewExpDateFromTime (NotAfter aCert))" and ?dn = "Issuer_String aCert"
  let ?im = "im\<lparr>knownExpDates := insert ?x (knownExpDates im)\<rparr>"
  have im: "(if ?x \<notin> knownExpDates im then ?im else im) = ?im"
    by (simp add: insert_absorb)
  obtain w1 where a: "accumulate_dps url_Parse (mock_cache js) ?im (CRLDistributionPoints aCert) w =
      Done (None, ?im\<lparr>knownCrlDPs := knownCrlDPs ?im \<union> set (CRLDistributionPoints aCert)\<rparr>, w1)"
    and w1: "world_ok w1"
    and c1: "mock_contents (snd w1) = (mock_contents (snd w))(crlId im := mock_contents (snd w) (crlId im)
          \<union> {u. \<exists>dp \<in> set (CRLDistributionPoints aCert) - knownCrlDPs ?im. crl_entry url_Parse dp = Some u})"
    using accumulate_dps_mock [OF assms, of url_Parse js ?im] unfolding im_keys by blast
  show ?thesis
  proof (cases "?dn \<in> knownIssuerDNs im")
    case True
    then show ?thesis
      using a w1 c1 by (simp add: Accumulate_def im Let_def insert_absorb fun_upd_idem)
  next
    case False
    obtain b w2 where "rc_SetInsert (mock_cache js) (issuersId im) ?dn w1 = Done ((b, None), w2)"
      and "world_ok w2"
      and "mock_contents (snd w2) = (mock_contents (snd w1))(issuersId im := insert ?dn (mock_contents (snd w1) (issuersId im)))"
      using SetInsert_mock [OF w1] by metis
    moreover have "{?dn} - knownIssuerDNs im = {?dn}" using False by auto
    ultimately show ?thesis
      using a w1 c1 False by (simp add: Accumulate_def im Let_def addIssuerDN_def)
  qed
qed

text \<open>
  C16. \<^verbatim>\<open>Accumulate\<close> publishes exactly what is new: the URLs of the \<^verbatim>\<open>http\<close> and
  \<^verbatim>\<open>https\<close> distribution points not seen before go to the issuer's CRL key, a new
  distinguished name to its name key, every other key keeps its contents, and the flag tells
  whether the certificate's expiration bucket had been seen.
\<close>

theorem Accumulate_publishes_new:
  assumes "world_ok w"
  shows "\<exists>im' w'. Accumulate url_Parse (mock_cache js) im aCert w =
      Done ((ExpDate_ID (NewExpDateFromTime (NotAfter aCert)) \<in> knownExpDates im, None), im', w')
    \<and> world_ok w'
    \<and> knownExpDates im' = insert (ExpDate_ID (NewExpDateFromTime (NotAfter aCert))) (knownExpDates im)
    \<and> knownCrlDPs im' = knownCrlDPs im \<union> set (CRLDistributionPoints aCert)
    \<and> knownIssuerDNs im' = insert (Issuer_String aCert) (knownIssuerDNs im)
    \<and> im_issuer im' = im_issuer im
    \<and> mock_contents (snd w') = (mock_contents (snd w))(
        crlId im := mock_contents (snd w) (crlId im)
          \<union> {u. \<exists>dp \<in> set (CRLDistributionPoints aCert) - knownCrlDPs im. crl_entry url_Parse dp = Some u},
        issuersId im := mock_contents (snd w) (issuersId im)
          \<union> ({Issuer_String aCert} - knownIssuerDNs im))"
  by (rule Accumulate_mock [OF assms])

definition sample_url :: url_parser where
  "sample_url s = (if prefix ''http:'' s then Inr \<lparr>url_Scheme = ''http'', url_String = s\<rparr>
     else if prefix ''ldap:'' s then Inr \<lparr>url_Scheme = ''ldap'', url_String = s\<rparr>
     else Inl (Errorf ''parse''))"

theorem Accumulate_publishes_new_witness:
  "\<exists>im' w'. Accumulate sample_url (mock_cache sample_json) (NewIssuerMetadata (NewIssuerFromString ''i'')) sample_cert
      (steady_env (utc 0), NewMockRemoteCache) = Done ((False, None), im', w')
    \<and> mock_contents (snd w') ''crl::i'' = {''http://a/b.crl''} \<and> mock_contents (snd w') ''issuer::i'' = {''CN=ca''}"
proof -
  have w: "world_ok (steady_env (utc 0), NewMockRemoteCache)" by (simp add: world_ok_def)
  have u: "crl_entry sample_url ''http://a/b.crl'' = Some ''http://a/b.crl''"
    by (simp add: crl_entry_def sample_url_def trim_space_def is_space_def)
  let ?im = "NewIssuerMetadata (NewIssuerFromString ''i'')"
  have im: "crlId ?im = ''crl::i''" "issuersId ?im = ''issuer::i''" "knownCrlDPs ?im = {}"
      "knownIssuerDNs ?im = {}" "knownExpDates ?im = {}"
    by (simp_all add: NewIssuerMetadata_def crlId_def issuersId_def im_id_def)
  have c: "CRLDistributionPoints sample_cert = [''http://a/b.crl'']" "Issuer_String sample_cert = ''CN=ca''"
    by (simp_all add: sample_cert_def)
  have n: "mock_contents NewMockRemoteCache k = {}" for k
    by (simp add: mock_contents_def NewMockRemoteCache_def)
  obtain im' w' where a: "Accumulate sample_url (mock_cache sample_json) ?im sample_cert
      (steady_env (utc 0), NewMockRemoteCache)
        = Done ((ExpDate_ID (NewExpDateFromTime (NotAfter sample_cert)) \<in> {}, None), im', w')"
    and m: "mock_contents (snd w') = (mock_contents NewMockRemoteCache)(
        ''crl::i'' := mock_contents NewMockRemoteCache ''crl::i''
          \<union> {u. \<exists>dp \<in> set [''http://a/b.crl''] - {}. crl_entry sample_url dp = Some u},
        ''issuer::i'' := mock_contents NewMockRemoteCache ''issuer::i'' \<union> ({''CN=ca''} - {}))"
    using Accumulate_publishes_new [OF w, of sample_url sample_json ?im sample_cert]
    unfolding im c snd_conv by (elim exE conjE) (rule that; assumption)
  show ?thesis
    using a m by (intro exI [of _ im'] exI [of _ w']) (simp add: n u)
qed

definition sample_metadata :: IssuerMetadata where
  "sample_metadata = (NewIssuerMetadata (NewIssuerFromString ''i''))\<lparr>knownIssuerDNs := {''CN=ca''}\<rparr>"

definition sample_cache_world :: mock_world where
  "sample_cache_world = (steady_env (utc 0), NewMockRemoteCache)"

definition failing_cache :: "mock_world RemoteCache" where
  "failing_cache = (mock_cache sample_json)\<lparr>rc_SetInsert := (\<lambda>k e c. Done ((False, Some (External ''timeout'')), c))\<rparr>"

text \<open>
  C34. A distribution point whose publication failed is not retried: the call that fails still
  remembers it, so the next \<^verbatim>\<open>Accumulate\<close> of the same point leaves the cache untouched
  and reports success.
\<close>

theorem Accumulate_forgets_failed:
  assumes "crl_entry url_Parse dp = Some u" and "dp \<notin> knownCrlDPs im"
    and "CRLDistributionPoints aCert = [dp]" and "Issuer_String aCert \<in> knownIssuerDNs im"
    and "rc_SetInsert rc (crlId im) u c = Done ((b, Some e), c1)"
  shows "\<exists>seen err im'. Accumulate url_Parse rc im aCert c = Done ((seen, Some err), im', c1)
    \<and> (\<forall>c2. Accumulate url_Parse rc im' aCert c2 = Done ((True, None), im', c2))"
  using assms by (auto simp: Accumulate_def Let_def addCRL_eq insert_absorb)

theorem Accumulate_forgets_failed_witness:
  "\<exists>seen err im'.
    Accumulate sample_url failing_cache sample_metadata sample_cert sample_cache_world = Done ((seen, Some err), im', sample_cache_world)
    \<and> (\<forall>c2. Accumulate sample_url failing_cache im' sample_cert c2 = Done ((True, None), im', c2))"
proof -
  have u: "crl_entry sample_url ''http://a/b.crl'' = Some ''http://a/b.crl''"
    by (simp add: crl_entry_def sample_url_def trim_space_def is_space_def)
  show ?thesis
    by (rule Accumulate_forgets_failed [OF u, where b = False and e = "External ''timeout''"])
      (simp_all add: failing_cache_def sample_metadata_def sample_cert_def NewIssuerMetadata_def)
qed

end
