(* ===== verification/Redis_Cache.thy ===== *)
theory Redis_Cache
  imports Known_Certificates Issuer_Metadata
begin

text \<open>
  \<^verbatim>\<open>storage/rediscache.go\<close>: the cache of a deployment, a wrapper of the third-party client
  \<^verbatim>\<open>go-redis\<close>. The client is a parameter, a record of the commands the wrapper sends; what
  the Redis documentation promises of the set commands is the locale \<open>redis_server\<close>, and under
  it the wrapper fulfils the contract \<open>remote_cache\<close>.
\<close>

section \<open>The client\<close>

text \<open>
  The results of the commands, each next to its error and the new state of the server. A scan gives
  the error of its first page, the values the iterator yields and the error the iteration ends with.
\<close>

record 's redis_client =
  r_Ping :: "'s \<Rightarrow> unit ret \<times> 's"
  r_Info :: "string \<Rightarrow> 's \<Rightarrow> string ret \<times> 's"
  r_SAdd :: "string \<Rightarrow> string \<Rightarrow> 's \<Rightarrow> int ret \<times> 's"
  r_SRem :: "string \<Rightarrow> string \<Rightarrow> 's \<Rightarrow> int ret \<times> 's"
  r_SIsMember :: "string \<Rightarrow> string \<Rightarrow> 's \<Rightarrow> bool ret \<times> 's"
  r_SMembers :: "string \<Rightarrow> 's \<Rightarrow> string list ret \<times> 's"
  r_SScan :: "string \<Rightarrow> 's \<Rightarrow> (go_error option \<times> string list \<times> go_error option) \<times> 's"
  r_SCard :: "string \<Rightarrow> 's \<Rightarrow> int ret \<times> 's"
  r_Exists :: "string \<Rightarrow> 's \<Rightarrow> int ret \<times> 's"
  r_ExpireAt :: "string \<Rightarrow> gotime \<Rightarrow> 's \<Rightarrow> bool ret \<times> 's"
  r_Expire :: "string \<Rightarrow> duration \<Rightarrow> 's \<Rightarrow> bool ret \<times> 's"
  r_RPush :: "string \<Rightarrow> string \<Rightarrow> 's \<Rightarrow> int ret \<times> 's"
  r_LPop :: "string \<Rightarrow> 's \<Rightarrow> string ret \<times> 's"
  r_LLen :: "string \<Rightarrow> 's \<Rightarrow> int ret \<times> 's"
  r_LRem :: "string \<Rightarrow> int \<Rightarrow> string \<Rightarrow> 's \<Rightarrow> int ret \<times> 's"
  r_BRPopLPush :: "string \<Rightarrow> string \<Rightarrow> duration \<Rightarrow> 's \<Rightarrow> string ret \<times> 's"
  r_Scan :: "string \<Rightarrow> 's \<Rightarrow> (go_error option \<times> string list \<times> go_error option) \<times> 's"
  r_SetNX :: "string \<Rightarrow> string \<Rightarrow> duration \<Rightarrow> 's \<Rightarrow> bool ret \<times> 's"
  r_Set :: "string \<Rightarrow> string \<Rightarrow> duration \<Rightarrow> 's \<Rightarrow> unit ret \<times> 's"
  r_Get :: "string \<Rightarrow> 's \<Rightarrow> string ret \<times> 's"

abbreviation (input) EMPTY_QUEUE :: string where "EMPTY_QUEUE \<equiv> ''redis: nil''"
abbreviation (input) NO_EXPIRATION :: duration where "NO_EXPIRATION \<equiv> 0"

text \<open>\<^verbatim>\<open>err.Error()\<close>, the text of an error.\<close>

fun error_text :: "go_error \<Rightarrow> string" where
  "error_text (Errorf s) = s"
| "error_text (ParseError s) = s"
| "error_text CorruptInput = ''illegal base64 data''"
| "error_text (InvalidByte c) = ''encoding/hex: invalid byte''"
| "error_text ErrLength = ''encoding/hex: odd length hex string''"
| "error_text (JsonError s) = s"
| "error_text (External s) = s"

section \<open>Operations\<close>

definition MemoryPolicyCorrect :: "'s redis_client \<Rightarrow> 's \<Rightarrow> go_error option \<times> 's" where
  "MemoryPolicyCorrect r s =
     (case r_Info r ''memory'' s of
        ((val, Some err), s) \<Rightarrow> (Some err, s)
      | ((val, None), s) \<Rightarrow>
          (if contains val ''maxmemory_policy:noeviction'' then (None, s)
           else (Some (Errorf (''Redis maxmemory_policy should be `noeviction`. Memory config is set to '' @ val)), s)))"

text \<open>
  Whether the cache was opened; a wrong memory policy is only a warning. \<open>NewClient\<close> sends
  nothing to the server.
\<close>

definition NewRedisCache :: "'s redis_client \<Rightarrow> 's \<Rightarrow> go_error option \<times> 's" where
  "NewRedisCache r s =
     (case r_Ping r s of
        ((_, Some err), s) \<Rightarrow> (Some err, s)
      | ((_, None), s) \<Rightarrow> (case MemoryPolicyCorrect r s of (warning, s) \<Rightarrow> (None, s)))"

definition Redis_SetInsert :: "'s redis_client \<Rightarrow> string \<Rightarrow> string \<Rightarrow> ('s, bool) cache_op" where
  "Redis_SetInsert r key entry s =
     (case r_SAdd r key entry s of
        ((added, err), s) \<Rightarrow>
          (case err of
             Some e \<Rightarrow> if has_prefix (error_text e) ''OOM'' then Panic ''Out of memory on Redis insert''
                       else Done ((added = 1, err), s)
           | None \<Rightarrow> Done ((added = 1, err), s)))"

definition Redis_SetRemove :: "'s redis_client \<Rightarrow> string \<Rightarrow> string \<Rightarrow> ('s, bool) cache_op" where
  "Redis_SetRemove r key entry s =
     (case r_SRem r key entry s of ((removed, err), s) \<Rightarrow> Done ((0 < removed, err), s))"

definition Redis_SetContains :: "'s redis_client \<Rightarrow> string \<Rightarrow> string \<Rightarrow> ('s, bool) cache_op" where
  "Redis_SetContains r key entry s = Done (r_SIsMember r key entry s)"

definition Redis_SetList :: "'s redis_client \<Rightarrow> string \<Rightarrow> ('s, string list) cache_op" where
  "Redis_SetList r key s = Done (r_SMembers r key s)"

definition Redis_SetToChan :: "'s redis_client \<Rightarrow> string \<Rightarrow> ('s, string list) cache_op" where
  "Redis_SetToChan r key s =
     (case r_SScan r key s of
        ((Some err, vals, iter_err), s) \<Rightarrow> Done (([], Some err), s)
      | ((None, vals, iter_err), s) \<Rightarrow> Done ((vals, iter_err), s))"

definition Redis_SetCardinality :: "'s redis_client \<Rightarrow> string \<Rightarrow> ('s, int) cache_op" where
  "Redis_SetCardinality r key s = Done (r_SCard r key s)"

definition Redis_Exists :: "'s redis_client \<Rightarrow> string \<Rightarrow> ('s, bool) cache_op" where
  "Redis_Exists r key s =
     (case r_Exists r key s of ((found, err), s) \<Rightarrow> Done ((found = 1, err), s))"

definition Redis_ExpireAt :: "'s redis_client \<Rightarrow> string \<Rightarrow> gotime \<Rightarrow> ('s, unit) cache_op" where
  "Redis_ExpireAt r key aExpTime s =
     (case r_ExpireAt r key aExpTime s of ((_, err), s) \<Rightarrow> Done (((), err), s))"

definition Redis_ExpireIn :: "'s redis_client \<Rightarrow> string \<Rightarrow> duration \<Rightarrow> ('s, unit) cache_op" where
  "Redis_ExpireIn r key aDuration s =
     (case r_Expire r key aDuration s of ((_, err), s) \<Rightarrow> Done (((), err), s))"

definition Redis_Queue :: "'s redis_client \<Rightarrow> string \<Rightarrow> string \<Rightarrow> ('s, int) cache_op" where
  "Redis_Queue r key identifier s = Done (r_RPush r key identifier s)"

definition Redis_BlockingPopCopy ::
    "'s redis_client \<Rightarrow> string \<Rightarrow> string \<Rightarrow> duration \<Rightarrow> ('s, string) cache_op" where
  "Redis_BlockingPopCopy r key dest timeout s = Done (r_BRPopLPush r key dest timeout s)"

definition Redis_ListRemove :: "'s redis_client \<Rightarrow> string \<Rightarrow> string \<Rightarrow> ('s, unit) cache_op" where
  "Redis_ListRemove r key val s =
     (case r_LRem r key 1 val s of ((_, err), s) \<Rightarrow> Done (((), err), s))"

definition Redis_Pop :: "'s redis_client \<Rightarrow> string \<Rightarrow> ('s, string) cache_op" where
  "Redis_Pop r key s = Done (r_LPop r key s)"

definition Redis_QueueLength :: "'s redis_client \<Rightarrow> string \<Rightarrow> ('s, int) cache_op" where
  "Redis_QueueLength r key s = Done (r_LLen r key s)"

definition Redis_KeysToChan :: "'s redis_client \<Rightarrow> string \<Rightarrow> ('s, string list) cache_op" where
  "Redis_KeysToChan r pattern s =
     (case r_Scan r pattern s of
        ((Some err, vals, iter_err), s) \<Rightarrow> Done (([], Some err), s)
      | ((None, vals, iter_err), s) \<Rightarrow> Done ((vals, iter_err), s))"

definition Redis_TrySet :: "'s redis_client \<Rightarrow> string \<Rightarrow> string \<Rightarrow> duration \<Rightarrow> ('s, string) cache_op" where
  "Redis_TrySet r k v life s =
     (case r_SetNX r k v life s of
        ((_, Some err), s) \<Rightarrow> Done (([], Some err), s)
      | ((_, None), s) \<Rightarrow> Done (r_Get r k s))"

definition shortUrlToLogKey :: "string \<Rightarrow> string" where
  "shortUrlToLogKey shortUrl = ''log::'' @ shortUrl"

definition Redis_StoreLogState :: "log_json \<Rightarrow> 's redis_client \<Rightarrow> CertificateLog \<Rightarrow> ('s, unit) cache_op" where
  "Redis_StoreLogState js r log s =
     (case json_Marshal js log of
        Inl err \<Rightarrow> Done (((), Some err), s)
      | Inr encoded \<Rightarrow> Done (r_Set r (shortUrlToLogKey (ShortURL log)) encoded NO_EXPIRATION s))"

definition Redis_LoadLogState :: "log_json \<Rightarrow> 's redis_client \<Rightarrow> string \<Rightarrow> ('s, CertificateLog option) cache_op" where
  "Redis_LoadLogState js r shortUrl s =
     (case r_Get r (shortUrlToLogKey shortUrl) s of
        ((data, Some err), s) \<Rightarrow> Done ((None, Some err), s)
      | ((data, None), s) \<Rightarrow>
          (case json_Unmarshal_value js data of
             Inl err \<Rightarrow> Done ((None, Some err), s)
           | Inr log \<Rightarrow> Done ((Some log, None), s)))"

definition redis_cache :: "log_json \<Rightarrow> 's redis_client \<Rightarrow> 's RemoteCache" where
  "redis_cache js r =
     \<lparr>rc_Exists = Redis_Exists r, rc_SetInsert = Redis_SetInsert r, rc_SetRemove = Redis_SetRemove r,
      rc_SetContains = Redis_SetContains r, rc_SetList = Redis_SetList r,
      rc_SetToChan = Redis_SetToChan r, rc_SetCardinality = Redis_SetCardinality r,
      rc_ExpireAt = Redis_ExpireAt r, rc_ExpireIn = Redis_ExpireIn r, rc_Queue = Redis_Queue r,
      rc_Pop = Redis_Pop r, rc_QueueLength = Redis_QueueLength r,
      rc_BlockingPopCopy = Redis_BlockingPopCopy r, rc_ListRemove = Redis_ListRemove r,
      rc_TrySet = Redis_TrySet r, rc_KeysToChan = Redis_KeysToChan r,
      rc_StoreLogState = Redis_StoreLogState js r, rc_LoadLogState = Redis_LoadLogState js r\<rparr>"

section \<open>The contract of the set commands\<close>

text \<open>
  Documented behaviour of Redis: \<^verbatim>\<open>SADD\<close> answers the number of members added,
  \<^verbatim>\<open>SISMEMBER\<close>, \<^verbatim>\<open>SMEMBERS\<close> and \<^verbatim>\<open>SCARD\<close> read the set, a full
  \<^verbatim>\<open>SSCAN\<close> yields every member at least once, and a key with a time to live disappears when it
  runs out. A failed \<^verbatim>\<open>SADD\<close> may or may not have reached the server.
\<close>

locale redis_server =
  fixes r :: "'s redis_client"
    and sets :: "'s \<Rightarrow> string \<Rightarrow> string set"
    and ttl :: "'s \<Rightarrow> string \<Rightarrow> bool"
  assumes SADD: "r_SAdd r k e s = ((n, None), s') \<Longrightarrow> ttl s' \<le> ttl s \<and>
      (\<exists>C. lapse (ttl s) (sets s) C \<and> n = (if e \<in> C k then 0 else 1) \<and> sets s' = C(k := insert e (C k)))"
  and SADD_error: "r_SAdd r k e s = ((n, Some err), s') \<Longrightarrow> ttl s' \<le> ttl s \<and>
      (\<exists>C. lapse (ttl s) (sets s) C \<and> (sets s' = C \<or> sets s' = C(k := insert e (C k))))"
  and SISMEMBER: "r_SIsMember r k e s = ((b, None), s') \<Longrightarrow>
      ttl s' \<le> ttl s \<and> lapse (ttl s) (sets s) (sets s') \<and> b = (e \<in> sets s' k)"
  and SMEMBERS: "r_SMembers r k s = ((l, None), s') \<Longrightarrow>
      ttl s' \<le> ttl s \<and> lapse (ttl s) (sets s) (sets s') \<and> set l = sets s' k"
  and SSCAN: "r_SScan r k s = ((None, l, None), s') \<Longrightarrow>
      ttl s' \<le> ttl s \<and> lapse (ttl s) (sets s) (sets s') \<and> set l = sets s' k"
  and SCARD: "r_SCard r k s = ((m, None), s') \<Longrightarrow>
      ttl s' \<le> ttl s \<and> lapse (ttl s) (sets s) (sets s') \<and> finite (sets s' k) \<and> m = int (card (sets s' k))"
  and EXPIREAT: "r_ExpireAt r k t s = ((b, er), s') \<Longrightarrow>
      ttl s' \<le> (ttl s)(k := True) \<and> lapse ((ttl s)(k := True)) (sets s) (sets s')"

lemmas redis_ops =
  redis_cache_def Redis_SetInsert_def Redis_SetContains_def Redis_SetList_def Redis_SetToChan_def
  Redis_SetCardinality_def Redis_ExpireAt_def

sublocale redis_server \<subseteq> redis: remote_cache "redis_cache js r" "\<lambda>s. True" sets ttl for js
proof (unfold_locales, goal_cases)
  case (1 c k e b c')
  then obtain n where "r_SAdd r k e c = ((n, None), c')" "b = (n = 1)"
    by (auto simp: redis_ops split: prod.splits option.splits if_splits)
  with SADD [OF this(1)] show ?case by auto
next
  case (2 c k e b err c')
  then obtain n where "r_SAdd r k e c = ((n, Some err), c')"
    by (auto simp: redis_ops split: prod.splits option.splits if_splits)
  with SADD_error [OF this] show ?case by auto
next
  case (3 c k e b c')
  with SISMEMBER [of k e c b c'] show ?case by (simp add: redis_ops)
next
  case (4 c k l c')
  with SMEMBERS [of k c l c'] show ?case by (simp add: redis_ops)
next
  case (5 c k l c')
  then have "r_SScan r k c = ((None, l, None), c')"
    by (auto simp: redis_ops split: prod.splits option.splits)
  with SSCAN [OF this] show ?case by simp
next
  case (6 c k n c')
  with SCARD [of k c n c'] show ?case by (simp add: redis_ops)
next
  case (7 c k t u er c')
  then obtain b where "r_ExpireAt r k t c = ((b, er), c')"
    by (auto simp: redis_ops split: prod.splits)
  with EXPIREAT [OF this] show ?case by simp
qed

context redis_server
begin

lemma Redis_Known_lists:
  assumes "rearranges ord" and "Known (redis_cache js r) ord kc s = Done (l, s')"
  shows "distinct l \<and> BinaryString ` set l = sets s' (serialId kc []) \<and> lapse (ttl s) (sets s) (sets s')"
  using redis.Known_lists [OF TrueI assms] by blast

lemma Redis_WasUnknown_step:
  assumes "WasUnknown (redis_cache js r) kc n s = Done ((b, None), kc', s')" and "\<not> ttl s (serialId kc [])"
  shows "b = (BinaryString n \<notin> sets s (serialId kc []))
    \<and> sets s' (serialId kc []) \<in> {{}, insert (BinaryString n) (sets s (serialId kc []))}"
proof -
  let ?k = "serialId kc []"
  obtain C where C: "lapse (ttl s) (sets s) C" "b = (BinaryString n \<notin> C ?k)"
    "lapse ((ttl s)(?k := True)) (C(?k := insert (BinaryString n) (C ?k))) (sets s')"
    using redis.WasUnknown_step [OF TrueI assms(1)] by blast
  have "sets s' ?k = insert (BinaryString n) (C ?k) \<or> sets s' ?k = {}"
    using C(3) unfolding lapse_def by (metis fun_upd_same)
  then show ?thesis using C(2) lapse_stable [OF C(1) assms(2)] by auto
qed

end

end
