(* ===== verification/Redis_Model.thy ===== *)
theory Redis_Model
  imports Redis_Cache
begin

text \<open>
  A server that answers the commands of \<open>redis_client\<close> the way the Redis documentation says, in
  memory: the instance that shows the laws of \<open>redis_server\<close> can hold. Keys hold a set, a list or
  a string; a command on a key of another type is an error; a key whose time to live has run out is
  gone before the next command.
\<close>

datatype redis_value = RSet "string list" | RList "string list" | RStr string

record redis_db =
  keyspace :: "(string, redis_value) gomap"
  deadline :: "(string, gotime) gomap"
  server_clock :: "nat \<Rightarrow> gotime"

definition expired_keys :: "redis_db \<Rightarrow> string list" where
  "expired_keys s = map fst (filter (\<lambda>(k, t). Before t (server_clock s 0)) (deadline s))"

definition purge :: "redis_db \<Rightarrow> redis_db" where
  "purge s =
     \<lparr>keyspace = filter (\<lambda>(k, v). k \<notin> set (expired_keys s)) (keyspace s),
      deadline = filter (\<lambda>(k, t). k \<notin> set (expired_keys s)) (deadline s),
      server_clock = (\<lambda>n. server_clock s (Suc n))\<rparr>"

abbreviation WRONGTYPE :: go_error where
  "WRONGTYPE \<equiv> External ''WRONGTYPE Operation against a key holding the wrong kind of value''"

abbreviation redis_nil :: go_error where "redis_nil \<equiv> External EMPTY_QUEUE"

definition as_set :: "redis_db \<Rightarrow> string \<Rightarrow> string list option" where
  "as_set s k = (case gm_get (keyspace s) k of None \<Rightarrow> Some [] | Some (RSet l) \<Rightarrow> Some l | Some _ \<Rightarrow> None)"

definition as_list :: "redis_db \<Rightarrow> string \<Rightarrow> string list option" where
  "as_list s k = (case gm_get (keyspace s) k of None \<Rightarrow> Some [] | Some (RList l) \<Rightarrow> Some l | Some _ \<Rightarrow> None)"

definition put :: "string \<Rightarrow> redis_value \<Rightarrow> redis_db \<Rightarrow> redis_db" where
  "put k v s = s\<lparr>keyspace := gm_set k v (keyspace s)\<rparr>"

definition drop_key :: "string \<Rightarrow> redis_db \<Rightarrow> redis_db" where
  "drop_key k s = s\<lparr>keyspace := gm_del k (keyspace s), deadline := gm_del k (deadline s)\<rparr>"

definition put_list :: "string \<Rightarrow> string list \<Rightarrow> redis_db \<Rightarrow> redis_db" where
  "put_list k l s = (if l = [] then drop_key k s else put k (RList l) s)"

definition put_set :: "string \<Rightarrow> string list \<Rightarrow> redis_db \<Rightarrow> redis_db" where
  "put_set k l s = (if l = [] then drop_key k s else put k (RSet l) s)"

definition read_set :: "'a \<Rightarrow> (string list \<Rightarrow> 'a) \<Rightarrow> string \<Rightarrow> redis_db \<Rightarrow> 'a ret \<times> redis_db" where
  "read_set z f k s =
     (let s = purge s in case as_set s k of None \<Rightarrow> ((z, Some WRONGTYPE), s) | Some l \<Rightarrow> ((f l, None), s))"

definition mem_sadd :: "string \<Rightarrow> string \<Rightarrow> redis_db \<Rightarrow> int ret \<times> redis_db" where
  "mem_sadd k e s =
     (let s = purge s
      in case as_set s k of
           None \<Rightarrow> ((0, Some WRONGTYPE), s)
         | Some l \<Rightarrow> (if e \<in> set l then ((0, None), s) else ((1, None), put k (RSet (e # l)) s)))"

definition mem_expire :: "string \<Rightarrow> (gotime \<Rightarrow> gotime) \<Rightarrow> redis_db \<Rightarrow> bool ret \<times> redis_db" where
  "mem_expire k t s =
     (let now = server_clock s 0; s = purge s
      in if gm_get (keyspace s) k = None then ((False, None), s)
         else ((True, None), s\<lparr>deadline := gm_set k (t now) (deadline s)\<rparr>))"

definition mem_set :: "string \<Rightarrow> string \<Rightarrow> duration \<Rightarrow> redis_db \<Rightarrow> redis_db" where
  "mem_set k v life s =
     (let now = server_clock s 0; s = drop_key k (purge s)
      in if life > 0 then put k (RStr v) (s\<lparr>deadline := gm_set k (Add now life) (deadline s)\<rparr>)
         else put k (RStr v) s)"

definition redis_mem :: "redis_db redis_client" where
  "redis_mem =
     \<lparr>r_Ping = (\<lambda>s. (((), None), purge s)),
      r_Info = (\<lambda>sect s. ((''maxmemory_policy:noeviction'', None), purge s)),
      r_SAdd = mem_sadd,
      r_SRem = (\<lambda>k e s. let s = purge s in case as_set s k of
          None \<Rightarrow> ((0, Some WRONGTYPE), s)
        | Some l \<Rightarrow> (if e \<in> set l then ((1, None), put_set k (removeAll e l) s) else ((0, None), s))),
      r_SIsMember = (\<lambda>k e. read_set False (\<lambda>l. e \<in> set l) k),
      r_SMembers = read_set [] (\<lambda>l. l),
      r_SScan = (\<lambda>k s. case read_set [] (\<lambda>l. l) k s of ((l, err), s) \<Rightarrow> ((err, l, None), s)),
      r_SCard = read_set 0 (\<lambda>l. int (card (set l))),
      r_Exists = (\<lambda>k s. let s = purge s in ((if gm_get (keyspace s) k = None then 0 else 1, None), s)),
      r_ExpireAt = (\<lambda>k t. mem_expire k (\<lambda>now. t)),
      r_Expire = (\<lambda>k d. mem_expire k (\<lambda>now. Add now d)),
      r_RPush = (\<lambda>k v s. let s = purge s in case as_list s k of
          None \<Rightarrow> ((0, Some WRONGTYPE), s)
        | Some l \<Rightarrow> ((int (length l) + 1, None), put k (RList (l @ [v])) s)),
      r_LPop = (\<lambda>k s. let s = purge s in case as_list s k of
          None \<Rightarrow> (([], Some WRONGTYPE), s)
        | Some [] \<Rightarrow> (([], Some redis_nil), s)
        | Some (v # l) \<Rightarrow> ((v, None), put_list k l s)),
      r_LLen = (\<lambda>k s. let s = purge s in case as_list s k of
          None \<Rightarrow> ((0, Some WRONGTYPE), s) | Some l \<Rightarrow> ((int (length l), None), s)),
      r_LRem = (\<lambda>k n v s. let s = purge s in case as_list s k of
          None \<Rightarrow> ((0, Some WRONGTYPE), s)
        | Some l \<Rightarrow> (if v \<in> set l then ((1, None), put_list k (remove1 v l) s) else ((0, None), s))),
      r_BRPopLPush = (\<lambda>k d timeout s. let s = purge s in case (as_list s k, as_list s d) of
          (Some (x # l), Some m) \<Rightarrow>
            (let v = last (x # l); s = put_list k (butlast (x # l)) s
             in ((v, None), put d (RList (v # the (as_list s d))) s))
        | (Some [], _) \<Rightarrow> (([], Some redis_nil), s)
        | _ \<Rightarrow> (([], Some WRONGTYPE), s)),
      r_Scan = (\<lambda>p s. let s = purge s
        in ((None, filter (\<lambda>k. filepath_Match p k = Inr True) (map fst (keyspace s)), None), s)),
      r_SetNX = (\<lambda>k v life s. if gm_get (keyspace (purge s)) k = None
        then ((True, None), mem_set k v life s) else ((False, None), purge s)),
      r_Set = (\<lambda>k v life s. (((), None), mem_set k v life s)),
      r_Get = (\<lambda>k s. let s = purge s in case gm_get (keyspace s) k of
          None \<Rightarrow> (([], Some redis_nil), s)
        | Some (RStr v) \<Rightarrow> ((v, None), s)
        | Some _ \<Rightarrow> (([], Some WRONGTYPE), s))\<rparr>"

definition mem_sets :: "redis_db \<Rightarrow> string \<Rightarrow> string set" where
  "mem_sets s k = (case gm_get (keyspace s) k of Some (RSet l) \<Rightarrow> set l | _ \<Rightarrow> {})"

definition mem_ttl :: "redis_db \<Rightarrow> string \<Rightarrow> bool" where
  "mem_ttl s k \<longleftrightarrow> gm_get (deadline s) k \<noteq> None"

lemma map_of_filter_key: "map_of (filter (\<lambda>(k, v). P k) m) k = (if P k then map_of m k else None)"
  by (induction m) auto

lemma purge_simps [simp]:
  "gm_get (keyspace (purge s)) k = (if k \<in> set (expired_keys s) then None else gm_get (keyspace s) k)"
  "gm_get (deadline (purge s)) k = (if k \<in> set (expired_keys s) then None else gm_get (deadline s) k)"
  by (simp_all add: purge_def map_of_filter_key)

lemma expired_keys_ttl: "k \<in> set (expired_keys s) \<Longrightarrow> mem_ttl s k"
  by (force simp: expired_keys_def mem_ttl_def map_of_eq_None_iff)

lemma purge_lapse: "lapse (mem_ttl s) (mem_sets s) (mem_sets (purge s)) \<and> mem_ttl (purge s) \<le> mem_ttl s"
  by (auto simp: lapse_def mem_sets_def mem_ttl_def le_fun_def dest: expired_keys_ttl [unfolded mem_ttl_def])

lemma as_set_sets: "as_set s k = Some l \<Longrightarrow> mem_sets s k = set l"
  by (auto simp: as_set_def mem_sets_def split: option.splits redis_value.splits)

lemma read_set_law:
  "read_set z f k s = ((x, None), s') \<Longrightarrow>
    mem_ttl s' \<le> mem_ttl s \<and> lapse (mem_ttl s) (mem_sets s) (mem_sets s') \<and> (\<exists>l. mem_sets s' k = set l \<and> x = f l)"
  using purge_lapse [of s] by (auto simp: read_set_def Let_def dest: as_set_sets split: option.splits)

interpretation redis_memory: redis_server redis_mem mem_sets mem_ttl
proof (unfold_locales, goal_cases)
  case (1 k e s n s')
  then obtain l where l: "as_set (purge s) k = Some l"
    and r: "if e \<in> set l then n = 0 \<and> s' = purge s else n = 1 \<and> s' = put k (RSet (e # l)) (purge s)"
    by (auto simp: redis_mem_def mem_sadd_def Let_def split: option.splits if_splits)
  have "mem_sets s' = (mem_sets (purge s))(k := insert e (mem_sets (purge s) k))"
    using r as_set_sets [OF l]
    by (cases "e \<in> set l") (auto simp: put_def mem_sets_def fun_eq_iff split: option.splits redis_value.splits)
  moreover have "mem_ttl s' = mem_ttl (purge s)" using r by (auto simp: put_def mem_ttl_def fun_eq_iff split: if_splits)
  moreover have "n = (if e \<in> mem_sets (purge s) k then 0 else 1)" using r as_set_sets [OF l] by (auto split: if_splits)
  ultimately show ?case using purge_lapse [of s] by (metis (no_types, lifting))
next
  case (2 k e s n err s')
  then show ?case
    using purge_lapse [of s]
    by (auto simp: redis_mem_def mem_sadd_def Let_def split: option.splits if_splits)
next
  case (3 k e s b s')
  then show ?case using read_set_law [of False _ k s b s'] by (force simp: redis_mem_def)
next
  case (4 k s l s')
  then show ?case using read_set_law [of "[]" _ k s l s'] by (force simp: redis_mem_def)
next
  case (5 k s l s')
  then have "read_set [] (\<lambda>l. l) k s = ((l, None), s')"
    by (auto simp: redis_mem_def split: prod.splits)
  from read_set_law [OF this] show ?case by blast
next
  case (6 k s m s')
  then show ?case using read_set_law [of 0 _ k s m s'] by (force simp: redis_mem_def)
next
  case (7 k t s b er s')
  then show ?case
    using purge_lapse [of s]
    by (auto simp: redis_mem_def mem_expire_def Let_def lapse_def le_fun_def mem_ttl_def mem_sets_def
        split: if_splits)
qed

section \<open>Known certificates on Redis\<close>

text \<open>
  On any server that keeps the documented laws, \<^verbatim>\<open>Known\<close> lists each member of the
  set once, however often the scan yields it, and nothing but expiration can have changed the sets.
\<close>

theorem Redis_Known_dedups:
  assumes "redis_server r sets ttl" and "rearranges ord"
    and "Known (redis_cache js r) ord kc s = Done (l, s')"
  shows "distinct l \<and> set l = {n. BinaryString n \<in> sets s' (serialId kc [])}
    \<and> lapse (ttl s) (sets s) (sets s')"
proof -
  note k = redis_server.Redis_Known_lists [OF assms]
  then have img: "BinaryString ` set l = sets s' (serialId kc [])" by blast
  have "set l = {n. BinaryString n \<in> sets s' (serialId kc [])}"
    unfolding img [symmetric] by auto
  with k show ?thesis by blast
qed

definition sample_kc :: KnownCertificates where
  "sample_kc = NewKnownCertificates sample_bucket (NewIssuerFromString ''i'')"

definition sample_redis :: redis_db where
  "sample_redis = \<lparr>keyspace = [(serialId sample_kc [], RSet [''a'', ''b'', ''a''])], deadline = [],
     server_clock = (\<lambda>n. utc 0)\<rparr>"

theorem Redis_Known_dedups_witness:
  "\<exists>l s'. Known (redis_cache sample_json redis_mem) rev sample_kc sample_redis = Done (l, s')
    \<and> distinct l \<and> set l = {n. BinaryString n \<in> {''a'', ''b''}}"
proof -
  have "Known (redis_cache sample_json redis_mem) rev sample_kc sample_redis =
      Done ([Serial (bytes_of_string ''b''), Serial (bytes_of_string ''a'')], purge sample_redis)"
    by (simp add: Known_def redis_cache_def Redis_SetToChan_def redis_mem_def read_set_def Let_def
        as_set_def expired_keys_def sample_redis_def collect_serials_eq)
  moreover have "mem_sets (purge sample_redis) (serialId sample_kc []) = {''a'', ''b''}"
    by (simp add: mem_sets_def expired_keys_def) (simp add: sample_redis_def insert_commute)
  ultimately show ?thesis
    using Redis_Known_dedups [OF redis_memory.redis_server_axioms rearranges_rev] by metis
qed

text \<open>
  An \<^verbatim>\<open>SADD\<close> that fails for lack of memory ends the process; after any other failure
  \<^verbatim>\<open>WasUnknown\<close> reports the error, says no, and does not mark the expiration as set, so
  that the next call sets it.
\<close>

theorem Redis_WasUnknown_error:
  assumes "r_SAdd r (serialId kc []) (BinaryString n) s = ((added, Some err), s')"
  shows "WasUnknown (redis_cache js r) kc n s =
    (if has_prefix (error_text err) ''OOM'' then Panic ''Out of memory on Redis insert''
     else Done ((False, Some err), kc, s'))"
  using assms by (simp add: WasUnknown_def redis_cache_def Redis_SetInsert_def)

theorem Redis_WasUnknown_error_witness:
  "WasUnknown (redis_cache sample_json redis_mem) sample_kc (Serial [1])
      (sample_redis\<lparr>keyspace := [(serialId sample_kc [], RStr ''x'')]\<rparr>)
    = Done ((False, Some WRONGTYPE), sample_kc, purge (sample_redis\<lparr>keyspace := [(serialId sample_kc [], RStr ''x'')]\<rparr>))"
proof -
  have "r_SAdd redis_mem (serialId sample_kc []) (BinaryString (Serial [1]))
      (sample_redis\<lparr>keyspace := [(serialId sample_kc [], RStr ''x'')]\<rparr>)
    = ((0, Some WRONGTYPE), purge (sample_redis\<lparr>keyspace := [(serialId sample_kc [], RStr ''x'')]\<rparr>))"
    by (simp add: redis_mem_def mem_sadd_def Let_def as_set_def expired_keys_def)
      (simp add: sample_redis_def)
  from Redis_WasUnknown_error [OF this] show ?thesis by (simp add: has_prefix_def)
qed

end
