(* ===== verification/Coordinator.thy ===== *)
theory Coordinator
  imports Redis_Model
begin

text \<open>
  \<^verbatim>\<open>coordinator/coordinator.go\<close>: processes that elect a leader by a lease in the remote
  cache, and the start signal the leader gives. What the lease operations promise is the locale
  \<open>lease_cache\<close>.
\<close>

section \<open>Operations\<close>

abbreviation kLeaderKey :: string where "kLeaderKey \<equiv> ''leader-''"
abbreviation kStartedKey :: string where "kStartedKey \<equiv> ''started-''"

record Coordinator =
  co_name :: string
  isLeader :: bool
  co_identifier :: string
  KeyLifeInitial :: duration
  KeyLifeRenewal :: duration
  RenewalPeriod :: duration
  AwaitSleepPeriod :: duration

definition NewCoordinator :: "string \<Rightarrow> Coordinator" where
  "NewCoordinator name =
     \<lparr>co_name = name, isLeader = False, co_identifier = [], KeyLifeInitial = 5 * Minute,
      KeyLifeRenewal = 2 * Minute, RenewalPeriod = Minute, AwaitSleepPeriod = 250 * Millisecond\<rparr>"

text \<open>The verb \<^verbatim>\<open>%X\<close> for a number that is not negative.\<close>

definition upper_hex :: "nat \<Rightarrow> char" where
  "upper_hex n = (if n < 10 then char_of (48 + n) else char_of (55 + n))"

fun hex_of_nat :: "nat \<Rightarrow> string" where
  "hex_of_nat n = (if n < 16 then [upper_hex n] else hex_of_nat (n div 16) @ [upper_hex (n mod 16)])"

declare hex_of_nat.simps [simp del]

definition our_identifier :: "string \<Rightarrow> nat \<Rightarrow> string" where
  "our_identifier hostname r = hostname @ ''-'' @ hex_of_nat r"

definition leader_key :: "Coordinator \<Rightarrow> string" where
  "leader_key co = kLeaderKey @ co_name co"

text \<open>
  One round of the goroutine that renews the leadership, and of the one that renews the start
  signal; each runs at once and then every \<open>RenewalPeriod\<close>, and logs its errors.
\<close>

definition renew_leader :: "'c RemoteCache \<Rightarrow> Coordinator \<Rightarrow> 'c \<Rightarrow> 'c outcome" where
  "renew_leader rc co c =
     outcome_bind (rc_ExpireIn rc (leader_key co) (KeyLifeRenewal co) c) (\<lambda>((_, err), c). Done c)"

definition renew_started :: "'c RemoteCache \<Rightarrow> Coordinator \<Rightarrow> 'c \<Rightarrow> 'c outcome" where
  "renew_started rc co c =
     outcome_bind (rc_ExpireIn rc (kStartedKey @ co_identifier co) (KeyLifeRenewal co) c) (\<lambda>((_, err), c). Done c)"

text \<open>
  \<open>hostname\<close> is what \<^verbatim>\<open>os.Hostname\<close> returns and \<open>r\<close> the random number. The call that
  starts the renewals for a new leader returns without waiting for them.
\<close>

definition AwaitLeader ::
    "'c RemoteCache \<Rightarrow> string res \<Rightarrow> nat \<Rightarrow> Coordinator \<Rightarrow> 'c \<Rightarrow> (bool ret \<times> Coordinator \<times> 'c) outcome" where
  "AwaitLeader rc hostname r co c =
     (case hostname of
        Inl err \<Rightarrow> Done ((False, Some err), co, c)
      | Inr host \<Rightarrow>
          (let ourIdentifier = our_identifier host r
           in outcome_bind (rc_TrySet rc (leader_key co) ourIdentifier (KeyLifeInitial co) c) (\<lambda>((result, err), c).
                case err of
                  Some e \<Rightarrow> Done ((False, Some e), co, c)
                | None \<Rightarrow>
                    (let co = co\<lparr>co_identifier := result\<rparr>;
                         co = co\<lparr>isLeader := (co_identifier co = ourIdentifier)\<rparr>
                     in if isLeader co
                        then outcome_bind (rc_Exists rc (kStartedKey @ co_identifier co) c) (\<lambda>((started, err), c).
                               if err \<noteq> None \<and> started
                               then Panic ''Apparently already started, but we're the leader. Aborting.''
                               else Done ((isLeader co, None), co, c))
                        else Done ((isLeader co, None), co, c)))))"

text \<open>
  The polling loop of \<^verbatim>\<open>AwaitStart\<close>, for at most \<open>polls\<close> rounds: \<open>None\<close> when it is still
  waiting after them.
\<close>

fun await_start_loop ::
    "'c RemoteCache \<Rightarrow> nat \<Rightarrow> Coordinator \<Rightarrow> 'c \<Rightarrow> (go_error option option \<times> 'c) outcome" where
  "await_start_loop rc 0 co c = Done (None, c)"
| "await_start_loop rc (Suc polls) co c =
     outcome_bind (rc_Exists rc (kStartedKey @ co_identifier co) c) (\<lambda>((started, err), c).
       case err of
         Some e \<Rightarrow> Done (Some (Some e), c)
       | None \<Rightarrow> (if started then Done (Some None, c) else await_start_loop rc polls co c))"

definition AwaitStart ::
    "'c RemoteCache \<Rightarrow> nat \<Rightarrow> Coordinator \<Rightarrow> 'c \<Rightarrow> (go_error option option \<times> 'c) outcome" where
  "AwaitStart rc polls co c =
     (if length (co_identifier co) = 0
      then Done (Some (Some (Errorf ''Must not call before AwaitLeader completes'')), c)
      else if isLeader co
      then Done (Some (Some (Errorf ''Must not call unless we're a follower'')), c)
      else await_start_loop rc polls co c)"

definition SendStart :: "'c RemoteCache \<Rightarrow> Coordinator \<Rightarrow> 'c \<Rightarrow> (go_error option \<times> 'c) outcome" where
  "SendStart rc co c =
     (if length (co_identifier co) = 0
      then Done (Some (Errorf ''Must not call before AwaitLeader completes''), c)
      else if \<not> isLeader co
      then Done (Some (Errorf ''Must not call unless we're leader''), c)
      else (let startedKey = kStartedKey @ co_identifier co
            in outcome_bind (rc_TrySet rc startedKey (co_identifier co) (KeyLifeInitial co) c) (\<lambda>((result, err), c).
                 case err of
                   Some e \<Rightarrow> Done (Some e, c)
                 | None \<Rightarrow>
                     (if result \<noteq> co_identifier co then Panic ''Redis error: TrySet should have succeeded''
                      else Done (None, c)))))"

section \<open>The contract of leases\<close>

text \<open>
  \<open>lease c k\<close> is the value held at a key. Before any operation, the leases in a set \<open>gone\<close> may have
  run out; \<^verbatim>\<open>TrySet\<close> takes a free key and otherwise answers its holder.
\<close>

definition lost :: "('k \<Rightarrow> 'v option) \<Rightarrow> ('k \<Rightarrow> 'v option) \<Rightarrow> bool" where
  "lost L L' \<longleftrightarrow> L' \<subseteq>\<^sub>m L"

locale lease_cache =
  fixes rc :: "'c RemoteCache"
    and inv :: "'c \<Rightarrow> bool"
    and lease :: "'c \<Rightarrow> string \<Rightarrow> string option"
  assumes TrySet_law: "inv c \<Longrightarrow> rc_TrySet rc k v life c = Done ((r, None), c') \<Longrightarrow>
      inv c' \<and> (\<exists>L. lost (lease c) L \<and> r = (case L k of None \<Rightarrow> v | Some u \<Rightarrow> u) \<and> lease c' k = Some r
        \<and> (\<forall>k'. k' \<noteq> k \<longrightarrow> lease c' k' = L k'))"
  and Exists_law: "inv c \<Longrightarrow> rc_Exists rc k c = Done ((b, None), c') \<Longrightarrow>
      inv c' \<and> lost (lease c) (lease c') \<and> (b \<longleftrightarrow> lease c' k \<noteq> None)"
  and Exists_keeps: "inv c \<Longrightarrow> rc_Exists rc k c = Done ((b, Some err), c') \<Longrightarrow> inv c' \<and> lost (lease c) (lease c')"
  and ExpireIn_law: "inv c \<Longrightarrow> rc_ExpireIn rc k d c = Done ((u, er), c') \<Longrightarrow> inv c' \<and> lost (lease c) (lease c')"
begin

text \<open>
  A round of \<^verbatim>\<open>AwaitLeader\<close>: the process leads exactly when the holder is itself, and it takes
  the holder's identifier.
\<close>

lemma AwaitLeader_step:
  assumes "inv c" and "AwaitLeader rc (Inr host) r co c = Done ((b, None), co', c')"
  shows "inv c'" and "isLeader co' = b" and "b = (co_identifier co' = our_identifier host r)"
    and "co_name co' = co_name co"
    and "lease c (leader_key co) = None \<Longrightarrow> co_identifier co' = our_identifier host r"
    and "lease c' (leader_key co) = Some h' \<Longrightarrow> h' = co_identifier co'"
proof -
  let ?k = "leader_key co" and ?us = "our_identifier host r"
  obtain res c1 where t: "rc_TrySet rc ?k ?us (KeyLifeInitial co) c = Done ((res, None), c1)"
    and co': "co' = co\<lparr>co_identifier := res, isLeader := (res = ?us)\<rparr>" and b: "b = (res = ?us)"
    and r: "if res = ?us then \<exists>x. rc_Exists rc (kStartedKey @ res) c1 = Done (x, c') else c' = c1"
    using assms(2) by (fastforce simp: AwaitLeader_def Let_def outcome_bind_Done_iff split: option.splits if_splits)
  obtain L where 1: "inv c1" "lost (lease c) L" "res = (case L ?k of None \<Rightarrow> ?us | Some u \<Rightarrow> u)" "lease c1 ?k = Some res"
    using TrySet_law [OF assms(1) t] by blast
  have 2: "inv c' \<and> lost (lease c1) (lease c')"
  proof (cases "res = ?us")
    case True
    then obtain s err where e: "rc_Exists rc (kStartedKey @ res) c1 = Done ((s, err), c')" using r by auto
    show ?thesis
      using Exists_law [OF 1(1), of _ s c'] Exists_keeps [OF 1(1), of _ s _ c'] e by (cases err) blast+
  next
    case False
    then show ?thesis using r 1(1) by (simp add: lost_def)
  qed
  show "inv c'" using 2 ..
  show "isLeader co' = b" "b = (co_identifier co' = ?us)" "co_name co' = co_name co" by (simp_all add: co' b)
  show "co_identifier co' = ?us" if "lease c ?k = None"
  proof -
    have "L ?k = None" using that 1(2) by (cases "L ?k") (auto simp: lost_def map_le_def dom_def)
    then show ?thesis using 1(3) by (simp add: co')
  qed
  show "h' = co_identifier co'" if "lease c' ?k = Some h'"
    using that 2 1(4) by (force simp: co' lost_def map_le_def dom_def)
qed

lemma renew_leader_lost:
  "inv c \<Longrightarrow> renew_leader rc co c = Done c' \<Longrightarrow> inv c' \<and> lost (lease c) (lease c')"
  using ExpireIn_law by (auto simp: renew_leader_def outcome_bind_Done_iff)

lemma await_start_lost:
  "inv c \<Longrightarrow> await_start_loop rc n co c = Done (x, c') \<Longrightarrow> inv c' \<and> lost (lease c) (lease c')"
proof (induction n arbitrary: c)
  case (Suc n)
  then obtain s err c1 where e: "rc_Exists rc (kStartedKey @ co_identifier co) c = Done ((s, err), c1)"
    and r: "c' = c1 \<or> await_start_loop rc n co c1 = Done (x, c')"
    by (auto simp: outcome_bind_Done_iff split: option.splits if_splits)
  have 1: "inv c1 \<and> lost (lease c) (lease c1)"
    using Exists_law [OF Suc.prems(1), of _ s c1] Exists_keeps [OF Suc.prems(1), of _ s _ c1] e by (cases err) blast+
  then show ?case
    using r Suc.IH [of c1] unfolding lost_def by (metis map_le_trans)
qed (simp add: lost_def)

lemma SendStart_inv:
  assumes "inv c" and "SendStart rc co c = Done (None, c')"
  shows "inv c'"
proof -
  have "rc_TrySet rc (kStartedKey @ co_identifier co) (co_identifier co) (KeyLifeInitial co) c
      = Done ((co_identifier co, None), c')"
    using assms(2) by (auto simp: SendStart_def Let_def outcome_bind_Done_iff split: if_splits option.splits)
  then show ?thesis using TrySet_law [OF assms(1)] by blast
qed

lemma SendStart_leader_key:
  assumes "inv c" and "SendStart rc co c = Done (None, c')" and h: "lease c' (leader_key co') = Some h'"
  shows "lease c (leader_key co') = Some h'"
proof -
  have t: "rc_TrySet rc (kStartedKey @ co_identifier co) (co_identifier co) (KeyLifeInitial co) c
      = Done ((co_identifier co, None), c')"
    using assms(2) by (auto simp: SendStart_def Let_def outcome_bind_Done_iff split: if_splits option.splits)
  have ne: "leader_key co' \<noteq> kStartedKey @ co_identifier co" by (simp add: leader_key_def)
  obtain L where L: "lost (lease c) L" "\<forall>k'. k' \<noteq> kStartedKey @ co_identifier co \<longrightarrow> lease c' k' = L k'"
    using TrySet_law [OF assms(1) t] by blast
  then have "L (leader_key co') = Some h'" using h ne by simp
  then show ?thesis using L(1) by (force simp: lost_def map_le_def dom_def)
qed

end

section \<open>Elections\<close>

text \<open>
  Processes run the election under one name: each joins once with an identifier of its own that no
  other process has (a random number), a leader renews its lease or sends the start signal, and
  followers poll. A process is its own identifier next to its coordinator.
\<close>

type_synonym processes = "nat \<Rightarrow> (string \<times> Coordinator) option"

inductive election_step :: "'c RemoteCache \<Rightarrow> string \<Rightarrow> processes \<times> 'c \<Rightarrow> processes \<times> 'c \<Rightarrow> bool"
  for rc name where
  join: "\<lbrakk>ps i = None; \<forall>j co. ps j \<noteq> Some (our_identifier host r, co);
      AwaitLeader rc (Inr host) r (NewCoordinator name) c = Done ((b, None), co, c')\<rbrakk>
    \<Longrightarrow> election_step rc name (ps, c) (ps(i \<mapsto> (our_identifier host r, co)), c')"
| renew: "\<lbrakk>ps i = Some (own, co); isLeader co; renew_leader rc co c = Done c'\<rbrakk>
    \<Longrightarrow> election_step rc name (ps, c) (ps, c')"
| start: "\<lbrakk>ps i = Some (own, co); isLeader co; SendStart rc co c = Done (None, c')\<rbrakk>
    \<Longrightarrow> election_step rc name (ps, c) (ps, c')"
| poll: "\<lbrakk>ps i = Some (own, co); AwaitStart rc n co c = Done (x, c')\<rbrakk>
    \<Longrightarrow> election_step rc name (ps, c) (ps, c')"

text \<open>Runs, and runs in which the lease of the name is never lost once it is taken.\<close>

inductive election :: "'c RemoteCache \<Rightarrow> string \<Rightarrow> processes \<times> 'c \<Rightarrow> processes \<times> 'c \<Rightarrow> bool"
  for rc name s0 where
  start: "election rc name s0 s0"
| step: "election rc name s0 s \<Longrightarrow> election_step rc name s s' \<Longrightarrow> election rc name s0 s'"

inductive leased_election ::
    "'c RemoteCache \<Rightarrow> ('c \<Rightarrow> string \<Rightarrow> string option) \<Rightarrow> string \<Rightarrow> processes \<times> 'c \<Rightarrow> processes \<times> 'c \<Rightarrow> bool"
  for rc lease name s0 where
  start: "leased_election rc lease name s0 s0"
| step: "\<lbrakk>leased_election rc lease name s0 s; election_step rc name s s';
      \<forall>h. lease (snd s) (kLeaderKey @ name) = Some h \<longrightarrow> lease (snd s') (kLeaderKey @ name) = Some h;
      fst s' \<noteq> fst s \<longrightarrow> lease (snd s') (kLeaderKey @ name) \<noteq> None\<rbrakk>
    \<Longrightarrow> leased_election rc lease name s0 s'"

text \<open>
  The agreement: every process has taken the holder's identifier, it leads exactly when that is its
  own, own identifiers are distinct, and the holder is one of the processes.
\<close>

definition agreed :: "('c \<Rightarrow> string \<Rightarrow> string option) \<Rightarrow> string \<Rightarrow> processes \<times> 'c \<Rightarrow> bool" where
  "agreed lease name s \<longleftrightarrow> (case s of (ps, c) \<Rightarrow>
     (\<forall>i own co. ps i = Some (own, co) \<longrightarrow> co_name co = name \<and> isLeader co = (own = co_identifier co)
        \<and> lease c (kLeaderKey @ name) = Some (co_identifier co))
   \<and> (\<forall>i j own co co'. ps i = Some (own, co) \<longrightarrow> ps j = Some (own, co') \<longrightarrow> i = j)
   \<and> (\<forall>h. lease c (kLeaderKey @ name) = Some h \<longrightarrow> (\<exists>i co. ps i = Some (h, co))))"

lemma agreed_same: "agreed lease name (ps, c) \<Longrightarrow> lease c' (kLeaderKey @ name) = lease c (kLeaderKey @ name)
    \<Longrightarrow> agreed lease name (ps, c')"
  by (simp add: agreed_def)

lemma agreed_member: "agreed lease name (ps, c) \<Longrightarrow> ps i = Some (own, co) \<Longrightarrow>
    co_name co = name \<and> isLeader co = (own = co_identifier co) \<and> lease c (kLeaderKey @ name) = Some (co_identifier co)"
  unfolding agreed_def prod.case by blast

lemma agreed_distinct: "agreed lease name (ps, c) \<Longrightarrow> ps i = Some (own, co) \<Longrightarrow> ps j = Some (own, co') \<Longrightarrow> i = j"
  unfolding agreed_def prod.case by blast

lemma agreed_holder: "agreed lease name (ps, c) \<Longrightarrow> lease c (kLeaderKey @ name) = Some h \<Longrightarrow> \<exists>i co. ps i = Some (h, co)"
  unfolding agreed_def prod.case by blast

lemma lost_same: "lost L L' \<Longrightarrow> \<forall>h. L k = Some h \<longrightarrow> L' k = Some h \<Longrightarrow> L' k = L k"
  by (cases "L k"; cases "L' k") (auto simp: lost_def map_le_def dom_def)

lemma option_eqI: "(\<And>h. x = Some h \<Longrightarrow> y = Some h) \<Longrightarrow> (\<And>h. y = Some h \<Longrightarrow> x = Some h) \<Longrightarrow> x = y"
  by (cases x; cases y) auto

text \<open>A process that joins and agrees with the lease keeps the agreement.\<close>

lemma agreed_join:
  assumes a: "agreed lease name (ps, c)" and i: "ps i = None" and fresh: "\<forall>j co. ps j \<noteq> Some (us, co)"
    and co: "co_name co = name" "isLeader co = (us = co_identifier co)"
    and lease': "lease c' (kLeaderKey @ name) = Some (co_identifier co)"
    and kept: "\<forall>h. lease c (kLeaderKey @ name) = Some h \<longrightarrow> h = co_identifier co"
    and free: "lease c (kLeaderKey @ name) = None \<Longrightarrow> co_identifier co = us"
  shows "agreed lease name (ps(i \<mapsto> (us, co)), c')"
  unfolding agreed_def prod.case
proof (intro conjI allI impI)
  let ?k = "kLeaderKey @ name"
  fix j own co2 assume j: "(ps(i \<mapsto> (us, co))) j = Some (own, co2)"
  show "co_name co2 = name"
    using j co(1) agreed_member [OF a, of j own co2] by (cases "j = i") auto
  show "isLeader co2 = (own = co_identifier co2)"
    using j co(2) agreed_member [OF a, of j own co2] by (cases "j = i") auto
  show "lease c' ?k = Some (co_identifier co2)"
    using j lease' kept agreed_member [OF a, of j own co2] by (cases "j = i") auto
next
  fix j j' own co2 co3
  assume j: "(ps(i \<mapsto> (us, co))) j = Some (own, co2)" and j': "(ps(i \<mapsto> (us, co))) j' = Some (own, co3)"
  show "j = j'"
    using j j' fresh agreed_distinct [OF a, of j own co2 j' co3] by (cases "j = i"; cases "j' = i") auto
next
  fix h assume h: "lease c' (kLeaderKey @ name) = Some h"
  show "\<exists>j co2. (ps(i \<mapsto> (us, co))) j = Some (h, co2)"
  proof (cases "lease c (kLeaderKey @ name)")
    case None
    then show ?thesis using free h lease' by (intro exI [of _ i]) simp
  next
    case (Some h2)
    then have "lease c (kLeaderKey @ name) = Some h" using kept h lease' by simp
    then obtain j co2 where "ps j = Some (h, co2)" using agreed_holder [OF a] by blast
    then show ?thesis using i by (intro exI [of _ j]) auto
  qed
qed

context lease_cache
begin

lemma agreed_step:
  assumes "election_step rc name s s'" and "inv (snd s)" and "agreed lease name s"
    and kept: "\<forall>h. lease (snd s) (kLeaderKey @ name) = Some h \<longrightarrow> lease (snd s') (kLeaderKey @ name) = Some h"
    and held: "fst s' \<noteq> fst s \<longrightarrow> lease (snd s') (kLeaderKey @ name) \<noteq> None"
  shows "inv (snd s') \<and> agreed lease name s'"
  using assms(1)
proof cases
  case (join ps i host r c b co c')
  let ?us = "our_identifier host r" and ?k = "kLeaderKey @ name"
  have k: "leader_key (NewCoordinator name) = ?k" by (simp add: leader_key_def NewCoordinator_def)
  have inv: "inv c" using assms(2) join(1) by simp
  note a = AwaitLeader_step [OF inv join(5), unfolded k]
  have "ps(i \<mapsto> (?us, co)) \<noteq> ps" using join(3) by (metis fun_upd_same option.distinct(1))
  then obtain h' where h': "lease c' ?k = Some h'" using held join(1,2) by auto
  then have id: "h' = co_identifier co" by (rule a(6))
  have "agreed lease name (ps(i \<mapsto> (?us, co)), c')"
  proof (rule agreed_join [of lease name ps c])
    show "agreed lease name (ps, c)" using assms(3) join(1) by simp
    show "isLeader co = (?us = co_identifier co)" using a(2,3) by auto
    show "co_name co = name" using a(4) by (simp add: NewCoordinator_def)
    show "\<forall>h. lease c ?k = Some h \<longrightarrow> h = co_identifier co" using kept join(1,2) h' id by simp
  qed (use join(3,4) a(5) h' id in simp_all)
  then show ?thesis using a(1) join(2) by simp
next
  case (renew ps i own co c c')
  then have "inv c' \<and> lost (lease c) (lease c')" using renew_leader_lost [of c co c'] assms(2) by simp
  then show ?thesis using agreed_same [of lease name ps c c'] lost_same [of "lease c" "lease c'"] assms(3) kept renew(1,2) by simp
next
  case (start ps i own co c c')
  have inv: "inv c'" using SendStart_inv [OF _ start(5)] assms(2) start(1) by simp
  have "lease c' (kLeaderKey @ name) = lease c (kLeaderKey @ name)"
  proof (rule option_eqI)
    fix h assume "lease c' (kLeaderKey @ name) = Some h"
    then show "lease c (kLeaderKey @ name) = Some h"
      using SendStart_leader_key [OF _ start(5), of "NewCoordinator name" h] assms(2) start(1)
      by (simp add: leader_key_def NewCoordinator_def)
  qed (use kept start(1,2) in simp)
  then show ?thesis using agreed_same [of lease name ps c c'] assms(3) start(1,2) inv by simp
next
  case (poll ps i own co n c x c')
  have "inv c' \<and> lost (lease c) (lease c')"
    using await_start_lost [of c n co x c'] poll(4) assms(2) poll(1)
    by (auto simp: AwaitStart_def lost_def split: if_splits)
  then show ?thesis using agreed_same [of lease name ps c c'] lost_same [of "lease c" "lease c'"] assms(3) kept poll(1,2) by simp
qed

text \<open>So the agreement holds all along a run that keeps the lease.\<close>

lemma leased_election_agreed:
  assumes "leased_election rc lease name s0 s" and "inv (snd s0)" and "agreed lease name s0"
  shows "inv (snd s) \<and> agreed lease name s"
  using assms
proof (induction rule: leased_election.induct)
  case (step s s')
  then show ?case using agreed_step [of name s s'] by blast
qed simp

end

section \<open>Leases of the in-memory cache\<close>

text \<open>A lease is the first entry of a key; no key holds the empty slice.\<close>

definition mock_lease :: "mock_world \<Rightarrow> string \<Rightarrow> string option" where
  "mock_lease w k = (case gm_get (Data (snd w)) k of Some (v # vs) \<Rightarrow> Some v | _ \<Rightarrow> None)"

definition leases_ok :: "mock_world \<Rightarrow> bool" where
  "leases_ok w \<longleftrightarrow> world_ok w \<and> (\<forall>k. gm_get (Data (snd w)) k \<noteq> Some [])"

lemma leases_ok_get: "leases_ok w \<Longrightarrow> gm_get (Data (snd w)) k = Some l \<Longrightarrow> \<exists>v vs. l = v # vs"
  by (cases l) (auto simp: leases_ok_def)

lemma mock_lease_iff: "leases_ok w \<Longrightarrow> (mock_lease w k \<noteq> None) = (gm_get (Data (snd w)) k \<noteq> None)"
  using leases_ok_get [of w k] by (fastforce simp: mock_lease_def split: option.splits list.splits)

lemma lost_refl [simp]: "lost L L"
  by (simp add: lost_def)

text \<open>Dropping the expired keys loses leases and nothing else.\<close>

lemma cleanup_leases:
  fixes now
  assumes "leases_ok w"
  defines "w' \<equiv> (tick (fst w), CleanupExpiry (order (fst w) 0) now (snd w))"
  shows "leases_ok w'" and "lost (mock_lease w) (mock_lease w')"
    and "mock_lease w' k = (if gone now (snd w) k then None else mock_lease w k)"
proof -
  have ok: "world_ok w" and m: "mock_ok (snd w)" and r: "rearranges (order (fst w) 0)"
    using assms(1) by (simp_all add: leases_ok_def world_ok_def env_ok_def)
  note get = CleanupExpiry_simps(1) [OF m r]
  show "leases_ok w'"
    using assms(1) world_lapse(1) [OF ok, of now] get by (simp add: leases_ok_def w'_def)
  show lease: "mock_lease w' k = (if gone now (snd w) k then None else mock_lease w k)" for k
    by (simp add: mock_lease_def w'_def get)
  show "lost (mock_lease w) (mock_lease w')"
    by (auto simp: lost_def map_le_def dom_def lease split: if_splits)
qed

lemma mock_Exists_eq:
  "rc_Exists (mock_cache js) k w =
     (let w' = (tick (fst w), CleanupExpiry (order (fst w) 0) (clock (fst w) 0) (snd w))
      in Done ((gm_get (Data (snd w')) k \<noteq> None, None), w'))"
  by (simp add: mock_cache_def timed_def Mock_Exists_def Let_def)

lemma mock_TrySet_eq:
  assumes "leases_ok w"
  shows "rc_TrySet (mock_cache js) k v life w =
     (case mock_lease w k of
        Some u \<Rightarrow> Done ((u, None), tick (fst w), snd w)
      | None \<Rightarrow> Done ((v, None), tick (fst w), (snd w)\<lparr>Data := gm_set k [v] (Data (snd w)),
          Expirations := gm_set k (Add (clock (fst w) 0) life) (Expirations (snd w))\<rparr>))"
  using leases_ok_get [OF assms, of k]
  by (auto simp: mock_cache_def Mock_TrySet_def mock_lease_def Mock_ExpireAt_def Let_def
      split: option.splits list.splits)

lemma mock_ok_lease:
  "mock_ok ec \<Longrightarrow> mock_ok (ec\<lparr>Data := gm_set k [v] (Data ec), Expirations := gm_set k t (Expirations ec)\<rparr>)"
  by (simp add: mock_ok_def list_all_update)

lemma leases_ok_tick: "leases_ok w \<Longrightarrow> leases_ok (tick (fst w), snd w)"
  by (simp add: leases_ok_def world_ok_def)

interpretation mock_leases: lease_cache "mock_cache js" leases_ok mock_lease
proof (unfold_locales, goal_cases)
  case (1 c k v life r c')
  show ?case
  proof (cases "mock_lease c k")
    case None
    then have c': "c' = (tick (fst c), (snd c)\<lparr>Data := gm_set k [v] (Data (snd c)),
          Expirations := gm_set k (Add (clock (fst c) 0) life) (Expirations (snd c))\<rparr>)" "r = v"
      using 1(2) mock_TrySet_eq [OF 1(1), of js k v life] by auto
    have "leases_ok c'"
      using 1(1) by (simp add: c' leases_ok_def world_ok_def mock_ok_lease)
    moreover have "mock_lease c' k' = (if k' = k then Some v else mock_lease c k')" for k'
      by (simp add: c' mock_lease_def)
    ultimately show ?thesis using None c'(2) by (intro conjI exI [of _ "mock_lease c"]) simp_all
  next
    case (Some u)
    then have c': "c' = (tick (fst c), snd c)" "r = u"
      using 1(2) mock_TrySet_eq [OF 1(1), of js k v life] by auto
    have "mock_lease c' = mock_lease c" by (simp add: c' mock_lease_def fun_eq_iff)
    then show ?thesis
      using Some c' leases_ok_tick [OF 1(1)] by (intro conjI exI [of _ "mock_lease c"]) simp_all
  qed
next
  case (2 c k b c')
  note cl = cleanup_leases [OF 2(1), of "clock (fst c) 0"]
  have c': "c' = (tick (fst c), CleanupExpiry (order (fst c) 0) (clock (fst c) 0) (snd c))"
    and b: "b = (gm_get (Data (snd c')) k \<noteq> None)"
    using 2(2) by (auto simp: mock_Exists_eq Let_def)
  then show ?case using cl(1,2) mock_lease_iff [OF cl(1)] by simp
next
  case (3 c k b err c')
  then show ?case by (simp add: mock_Exists_eq Let_def)
next
  case (4 c k d u er c')
  then have c': "c' = (tick (fst c), (snd c)\<lparr>Expirations := gm_set k (Add (clock (fst c) 0) d) (Expirations (snd c))\<rparr>)"
    by (simp add: mock_cache_def timed_def Mock_ExpireIn_def)
  have "mock_lease c' = mock_lease c" by (simp add: c' mock_lease_def fun_eq_iff)
  moreover have "leases_ok c'" using 4(1) by (simp add: c' leases_ok_def world_ok_def mock_ok_def)
  ultimately show ?case by simp
qed

section \<open>Properties\<close>

lemma agreed_unique_leader:
  assumes a: "agreed lease name (ps, c)" and i: "ps i = Some (own, co)"
  shows "\<exists>!i. \<exists>own co. ps i = Some (own, co) \<and> isLeader co"
proof -
  have h: "lease c (kLeaderKey @ name) = Some (co_identifier co)" using agreed_member [OF a i] by simp
  then obtain j co2 where j: "ps j = Some (co_identifier co, co2)" using agreed_holder [OF a] by blast
  then have "isLeader co2" using agreed_member [OF a j] h by simp
  moreover have "j' = j" if "ps j' = Some (own', co')" "isLeader co'" for j' own' co'
    using agreed_member [OF a that(1)] that h agreed_distinct [OF a _ j] by simp
  ultimately show ?thesis using j by blast
qed

definition sample_world :: mock_world where
  "sample_world = (steady_env (utc 0), NewMockRemoteCache)"

lemma sample_world_ok: "leases_ok sample_world"
  by (simp add: leases_ok_def world_ok_def sample_world_def NewMockRemoteCache_def mock_ok_def)

text \<open>Without a start signal a follower goes on polling; with one that has not run out it stops.\<close>

lemma await_start_waits:
  "leases_ok w \<Longrightarrow> mock_lease w (kStartedKey @ co_identifier co) = None \<Longrightarrow>
    \<exists>w'. await_start_loop (mock_cache js) n co w = Done (None, w')"
proof (induction n arbitrary: w)
  case (Suc n)
  let ?k = "kStartedKey @ co_identifier co"
  let ?w1 = "(tick (fst w), CleanupExpiry (order (fst w) 0) (clock (fst w) 0) (snd w))"
  have ok: "leases_ok ?w1" and lease: "mock_lease ?w1 ?k = None"
    using cleanup_leases(1,3) [OF Suc.prems(1)] Suc.prems(2) by simp_all
  then have "gm_get (Data (snd ?w1)) ?k = None" using mock_lease_iff by blast
  then show ?case using Suc.IH [OF ok lease] by (simp add: mock_Exists_eq Let_def)
qed simp

lemma await_start_gets:
  assumes "leases_ok w" and "mock_lease w (kStartedKey @ co_identifier co) \<noteq> None"
    and "\<not> gone (clock (fst w) 0) (snd w) (kStartedKey @ co_identifier co)"
  shows "\<exists>w'. await_start_loop (mock_cache js) (Suc n) co w = Done (Some None, w')"
proof -
  let ?k = "kStartedKey @ co_identifier co"
  let ?w1 = "(tick (fst w), CleanupExpiry (order (fst w) 0) (clock (fst w) 0) (snd w))"
  have ok: "leases_ok ?w1" and lease: "mock_lease ?w1 ?k \<noteq> None"
    using cleanup_leases(1,3) [OF assms(1)] assms(2,3) by simp_all
  have "gm_get (Data (snd ?w1)) ?k \<noteq> None" using iffD1 [OF arg_cong [OF mock_lease_iff [OF ok, of ?k], of "\<lambda>x. x"]] lease by simp
  then show ?thesis by (auto simp: mock_Exists_eq Let_def)
qed

text \<open>
  C10. Whatever processes join, renew, poll and send, and in whatever order: as long as the leader's
  lease is not lost, all of them have taken the same identifier, a process thinks itself the leader
  exactly when that identifier is its own, and there is exactly one such process.
\<close>

theorem Election_agrees:
  assumes "leased_election (mock_cache js) mock_lease name (\<lambda>i. None, w0) (ps, w)"
    and "leases_ok w0" and "mock_lease w0 (kLeaderKey @ name) = None" and "ps i = Some (own, co)"
  shows "isLeader co = (own = co_identifier co)
    \<and> (\<forall>j own' co'. ps j = Some (own', co') \<longrightarrow> co_identifier co' = co_identifier co)
    \<and> (\<exists>!j. \<exists>own' co'. ps j = Some (own', co') \<and> isLeader co')"
proof -
  have "agreed mock_lease name (\<lambda>i. None, w0)" using assms(3) by (simp add: agreed_def)
  then have a: "agreed mock_lease name (ps, w)"
    using mock_leases.leased_election_agreed [OF assms(1)] assms(2) by simp
  have "co_identifier co' = co_identifier co" if "ps j = Some (own', co')" for j own' co'
    using agreed_member [OF a that] agreed_member [OF a assms(4)] by simp
  then show ?thesis
    using agreed_member [OF a assms(4)] agreed_unique_leader [OF a assms(4)] by blast
qed

text \<open>Two processes on host \<open>h\<close>, the first of which becomes the leader.\<close>

definition joined :: "string \<Rightarrow> bool \<Rightarrow> Coordinator" where
  "joined identifier leads = (NewCoordinator ''ct'')\<lparr>co_identifier := identifier, isLeader := leads\<rparr>"

definition leased_cache :: "(string \<times> int) list \<Rightarrow> MockRemoteCache" where
  "leased_cache ls = \<lparr>Data = map (\<lambda>(v, t). (''leader-ct'', [v])) ls, Expirations = map (\<lambda>(v, t). (''leader-ct'', utc t)) ls, Duplicate = 0\<rparr>"

lemma sample_ids: "our_identifier ''h'' (Suc 0) = ''h-1''" "our_identifier ''h'' 1 = ''h-1''" "our_identifier ''h'' 2 = ''h-2''"
  by code_simp+

lemma joined_simps [simp]: "co_identifier (joined x b) = x" "isLeader (joined x b) = b"
  by (simp_all add: joined_def)

lemmas joining =
  AwaitLeader_def sample_ids joined_def NewCoordinator_def leader_key_def
  mock_cache_def Mock_TrySet_def Mock_ExpireAt_def Mock_Exists_def CleanupExpiry_def cleanup_key_def timed_def
  NewMockRemoteCache_def Before_def Add_def utc_def leased_cache_def Let_def

lemma join_first:
  "AwaitLeader (mock_cache js) (Inr ''h'') 1 (NewCoordinator ''ct'') sample_world
    = Done ((True, None), joined ''h-1'' True, (steady_env (utc 0), leased_cache [(''h-1'', 5 * Minute)]))"
  by (simp add: joining sample_world_def tick_def steady_env_def)

lemma join_second:
  "AwaitLeader (mock_cache js) (Inr ''h'') 2 (NewCoordinator ''ct'') (steady_env (utc 0), leased_cache [(''h-1'', 5 * Minute)])
    = Done ((False, None), joined ''h-1'' False, (steady_env (utc 0), leased_cache [(''h-1'', 5 * Minute)]))"
  by (simp add: joining)

theorem Election_agrees_witness:
  "\<exists>ps w. ps 0 = Some (''h-1'', joined ''h-1'' True) \<and> ps (Suc 0) = Some (''h-2'', joined ''h-1'' False)
    \<and> isLeader (joined ''h-1'' False) = (''h-2'' = ''h-1'')
    \<and> (\<exists>!j. \<exists>own' co'. ps j = Some (own', co') \<and> isLeader co')"
proof -
  let ?js = sample_json and ?w = "(steady_env (utc 0), leased_cache [(''h-1'', 5 * Minute)])"
  let ?p1 = "(\<lambda>i. None)(0 \<mapsto> (our_identifier ''h'' 1, joined ''h-1'' True)) :: processes"
  let ?p2 = "?p1(Suc 0 \<mapsto> (our_identifier ''h'' 2, joined ''h-1'' False))"
  have 1: "election_step (mock_cache ?js) ''ct'' (\<lambda>i. None, sample_world) (?p1, ?w)"
    by (rule election_step.join [OF _ _ join_first]) simp_all
  have 2: "election_step (mock_cache ?js) ''ct'' (?p1, ?w) (?p2, ?w)"
    by (rule election_step.join [OF _ _ join_second]) (simp_all add: sample_ids)
  have "leased_election (mock_cache ?js) mock_lease ''ct'' (\<lambda>i. None, sample_world) (?p1, ?w)"
    by (rule leased_election.step [OF leased_election.start 1])
      (simp_all add: mock_lease_def sample_world_def NewMockRemoteCache_def leased_cache_def)
  then have run: "leased_election (mock_cache ?js) mock_lease ''ct'' (\<lambda>i. None, sample_world) (?p2, ?w)"
    by (rule leased_election.step [OF _ 2]) (simp_all add: mock_lease_def leased_cache_def)
  have "mock_lease sample_world (kLeaderKey @ ''ct'') = None"
    by (simp add: mock_lease_def sample_world_def NewMockRemoteCache_def)
  from Election_agrees [OF run sample_world_ok this, of "Suc 0" "''h-2''" "joined ''h-1'' False"] show ?thesis
    by (intro exI [of _ ?p2]) (simp add: sample_ids)
qed

text \<open>A clock that has moved on by ten minutes after its first reading.\<close>

definition slow_world :: mock_world where
  "slow_world = ((steady_env (utc (10 * Minute)))\<lparr>clock := (\<lambda>n. utc (if n = 0 then 0 else 10 * Minute))\<rparr>, NewMockRemoteCache)"

text \<open>
  C31. The lease is all that keeps leaders apart: when it runs out before its holder renews it, a
  second process becomes the leader while the first goes on thinking it leads.
\<close>

theorem Election_splits_when_lease_lapses:
  "\<exists>w. leases_ok slow_world
    \<and> election (mock_cache js) ''ct'' (\<lambda>i. None, slow_world)
       ((\<lambda>i. None)(0 \<mapsto> (''h-1'', joined ''h-1'' True), 1 \<mapsto> (''h-2'', joined ''h-2'' True)), w)"
proof -
  let ?w1 = "(steady_env (utc (10 * Minute)), NewMockRemoteCache)"
  let ?w2 = "(steady_env (utc (10 * Minute)), leased_cache [(''h-2'', 15 * Minute)])"
  let ?p1 = "(\<lambda>i. None)(0 \<mapsto> (our_identifier ''h'' 1, joined ''h-1'' True)) :: processes"
  let ?p2 = "?p1(1 \<mapsto> (our_identifier ''h'' 2, joined ''h-2'' True))"
  have a1: "AwaitLeader (mock_cache js) (Inr ''h'') 1 (NewCoordinator ''ct'') slow_world
    = Done ((True, None), joined ''h-1'' True, ?w1)"
    by (simp add: joining slow_world_def tick_def steady_env_def)
  have a2: "AwaitLeader (mock_cache js) (Inr ''h'') 2 (NewCoordinator ''ct'') ?w1
    = Done ((True, None), joined ''h-2'' True, ?w2)"
    by (simp add: joining tick_def steady_env_def)
  have 1: "election_step (mock_cache js) ''ct'' (\<lambda>i. None, slow_world) (?p1, ?w1)"
    by (rule election_step.join [OF _ _ a1]) simp_all
  have 2: "election_step (mock_cache js) ''ct'' (?p1, ?w1) (?p2, ?w2)"
    by (rule election_step.join [OF _ _ a2]) (simp_all add: sample_ids)
  have ok: "leases_ok slow_world"
    by (simp add: leases_ok_def world_ok_def slow_world_def NewMockRemoteCache_def mock_ok_def env_ok_def steady_env_def)
  have "election (mock_cache js) ''ct'' (\<lambda>i. None, slow_world) (?p2, ?w2)"
    by (rule election.step [OF election.step [OF election.start 1] 2])
  then show ?thesis using ok by (auto simp: sample_ids)
qed

text \<open>
  C30. A follower waits for the leader it was told of: before the leader sends the start signal any
  number of polls leaves it waiting, and the first poll after the signal lets it go, unless the
  signal has run out by then.
\<close>

theorem Follower_starts_after_SendStart:
  assumes "leases_ok w" and "mock_lease w (kStartedKey @ co_identifier leader) = None"
    and "SendStart (mock_cache js) leader w = Done (None, w1)"
    and "co_identifier follower = co_identifier leader" and "\<not> isLeader follower"
    and "t_ns (clock (fst w) 1) \<le> t_ns (clock (fst w) 0) + KeyLifeInitial leader"
  shows "(\<exists>w2. AwaitStart (mock_cache js) n follower w = Done (None, w2))
    \<and> (\<exists>w2. AwaitStart (mock_cache js) (Suc n) follower w1 = Done (Some None, w2))"
proof
  let ?k = "kStartedKey @ co_identifier leader"
  have ne: "co_identifier leader \<noteq> []" using assms(3) by (auto simp: SendStart_def split: if_splits)
  have w1: "w1 = (tick (fst w), (snd w)\<lparr>Data := gm_set ?k [co_identifier leader] (Data (snd w)),
          Expirations := gm_set ?k (Add (clock (fst w) 0) (KeyLifeInitial leader)) (Expirations (snd w))\<rparr>)"
    using assms(2,3) mock_TrySet_eq [OF assms(1), of js ?k "co_identifier leader" "KeyLifeInitial leader"]
    by (auto simp: SendStart_def Let_def split: if_splits)
  have ok: "leases_ok w1" using mock_leases.SendStart_inv [OF assms(1,3)] .
  have lease: "mock_lease w1 ?k \<noteq> None" by (simp add: w1 mock_lease_def)
  have kept: "\<not> gone (clock (fst w1) 0) (snd w1) ?k"
    using assms(6) by (simp add: w1 gone_def tick_def Before_def Add_def)
  show "\<exists>w2. AwaitStart (mock_cache js) n follower w = Done (None, w2)"
    using await_start_waits [OF assms(1), of follower js n] assms(2,4,5) ne by (simp add: AwaitStart_def)
  show "\<exists>w2. AwaitStart (mock_cache js) (Suc n) follower w1 = Done (Some None, w2)"
    using await_start_gets [OF ok, of follower js n] lease kept assms(4,5) ne
    by (simp add: AwaitStart_def del: await_start_loop.simps)
qed

theorem Follower_starts_after_SendStart_witness:
  "\<exists>w1 w2. SendStart (mock_cache sample_json) (joined ''h-1'' True) sample_world = Done (None, w1)
    \<and> AwaitStart (mock_cache sample_json) 1 (joined ''h-1'' False) w1 = Done (Some None, w2)"
proof -
  have "mock_lease sample_world (kStartedKey @ co_identifier (joined ''h-1'' True)) = None"
    by (simp add: mock_lease_def sample_world_def NewMockRemoteCache_def)
  moreover obtain w1 where s: "SendStart (mock_cache sample_json) (joined ''h-1'' True) sample_world = Done (None, w1)"
    using calculation mock_TrySet_eq [OF sample_world_ok] by (simp add: SendStart_def Let_def)
  ultimately show ?thesis
    using Follower_starts_after_SendStart [OF sample_world_ok _ s, of "joined ''h-1'' False" 0]
    by (auto simp: sample_world_def steady_env_def joined_def NewCoordinator_def)
qed

text \<open>
  C32. The check for an election that was already started never stops the new leader: it asks for an
  error together with \<open>started\<close>, and the cache reports no presence next to an error.
\<close>

theorem AwaitLeader_never_aborts:
  "AwaitLeader (mock_cache js) hostname r co w \<noteq> Panic ''Apparently already started, but we're the leader. Aborting.''"
proof (cases hostname)
  case (Inr host)
  let ?t = "rc_TrySet (mock_cache js) (leader_key co) (our_identifier host r) (KeyLifeInitial co) w"
  show ?thesis
  proof (cases ?t)
    case (Done x)
    then obtain res err w1 where "?t = Done ((res, err), w1)" by (cases x) auto
    then show ?thesis
      using Inr by (cases err; cases "res = our_identifier host r") (simp_all add: AwaitLeader_def Let_def mock_Exists_eq)
  next
    case (Panic m)
    then have "m = ''index out of range''"
      by (simp add: mock_cache_def Mock_TrySet_def Mock_ExpireAt_def Let_def split: option.splits list.splits)
    then show ?thesis using Inr Panic by (simp add: AwaitLeader_def)
  qed
qed (simp add: AwaitLeader_def)

end
