(* ===== verification/Go_Strconv.thy ===== *)
theory Go_Strconv
  imports Go_Encoding
begin

text \<open>
  The readers of the package \<^verbatim>\<open>strconv\<close> that the repository calls, for base ten, and
  \<^verbatim>\<open>time.ParseDuration\<close>.
\<close>

section \<open>Integers and booleans\<close>

abbreviation ErrSyntax :: go_error where "ErrSyntax \<equiv> ParseError ''invalid syntax''"
abbreviation ErrRange :: go_error where "ErrRange \<equiv> ParseError ''value out of range''"

text \<open>\<open>ParseUint s 10 bits\<close>.\<close>

definition ParseUint :: "string \<Rightarrow> nat \<Rightarrow> nat res" where
  "ParseUint s bits =
     (if s = [] \<or> \<not> list_all is_digit s then Inl ErrSyntax
      else if 2 ^ bits \<le> nat_of_dec s then Inl ErrRange
      else Inr (nat_of_dec s))"

text \<open>\<open>ParseInt s 10 bits\<close>: an optional sign and digits, in the range of a signed integer.\<close>

definition ParseInt :: "string \<Rightarrow> nat \<Rightarrow> int res" where
  "ParseInt s bits =
     (case (case s of c # r \<Rightarrow> if c = CHR ''-'' then (True, r) else if c = CHR ''+'' then (False, r) else (False, s)
            | [] \<Rightarrow> (False, [])) of
        (neg, ds) \<Rightarrow>
          (if ds = [] \<or> \<not> list_all is_digit ds then Inl ErrSyntax
           else let un = nat_of_dec ds; cutoff = 2 ^ (bits - 1)
                in if \<not> neg \<and> cutoff \<le> un then Inl ErrRange
                   else if neg \<and> cutoff < un then Inl ErrRange
                   else Inr (if neg then - int un else int un)))"

definition ParseBool :: "string \<Rightarrow> bool res" where
  "ParseBool s =
     (if s \<in> {''1'', ''t'', ''T'', ''true'', ''TRUE'', ''True''} then Inr True
      else if s \<in> {''0'', ''f'', ''F'', ''false'', ''FALSE'', ''False''} then Inr False
      else Inl ErrSyntax)"

lemma int_less_power: "n < 2 ^ k \<Longrightarrow> int n < 2 ^ k" and int_le_power: "n \<le> 2 ^ k \<Longrightarrow> int n \<le> 2 ^ k"
  by (metis of_nat_less_iff of_nat_numeral of_nat_power)
    (metis of_nat_le_iff of_nat_numeral of_nat_power)

lemma ParseInt_range: 
  assumes "ParseInt s bits = Inr i"
  shows "- (2 ^ (bits - 1)) \<le> i \<and> i < 2 ^ (bits - 1)"
proof -
  have p: "(0 :: int) < 2 ^ (bits - 1)" by simp
  obtain neg ds where i: "i = (if neg then - int (nat_of_dec ds) else int (nat_of_dec ds))"
    and n: "neg \<longrightarrow> nat_of_dec ds \<le> 2 ^ (bits - 1)" and q: "\<not> neg \<longrightarrow> nat_of_dec ds < 2 ^ (bits - 1)"
    using assms unfolding ParseInt_def Let_def
    by (simp split: prod.splits if_splits) (metis not_le)+
  define K :: int where "K = 2 ^ (bits - 1)"
  have "neg \<longrightarrow> int (nat_of_dec ds) \<le> K" "\<not> neg \<longrightarrow> int (nat_of_dec ds) < K"
    using n q int_less_power [of "nat_of_dec ds" "bits - 1"] int_le_power [of "nat_of_dec ds" "bits - 1"]
    unfolding K_def by blast+
  then show ?thesis
    using p unfolding i K_def [symmetric] by (cases neg) simp_all
qed

lemma ParseUint_range: "ParseUint s bits = Inr n \<Longrightarrow> n < 2 ^ bits"
  by (auto simp: ParseUint_def split: if_splits)

lemma ParseUint_dec [go_codec]: "n < 2 ^ bits \<Longrightarrow> ParseUint (dec_of_nat n) bits = Inr n"
  using digits_dec_of_nat [of n] by (simp add: ParseUint_def list_all_iff)

section \<open>Durations\<close>

text \<open>
  \<^verbatim>\<open>time.ParseDuration\<close>: a sign, then one or more decimal numbers, each with a unit. The
  sum must fit 64 bits.
\<close>

definition span_digits :: "string \<Rightarrow> string \<times> string" where
  "span_digits s = (takeWhile is_digit s, dropWhile is_digit s)"

text \<open>The value of a unit in nanoseconds; \<^verbatim>\<open>us\<close> also as micro sign or Greek mu in UTF-8.\<close>

definition unit_ns :: "string \<Rightarrow> nat option" where
  "unit_ns u =
     (if u = ''ns'' then Some 1
      else if u = ''us'' \<or> u = [CHR 0xC2, CHR 0xB5, CHR ''s''] \<or> u = [CHR 0xCE, CHR 0xBC, CHR ''s''] then Some 1000
      else if u = ''ms'' then Some 1000000
      else if u = ''s'' then Some 1000000000
      else if u = ''m'' then Some 60000000000
      else if u = ''h'' then Some 3600000000000
      else None)"

definition is_unit_char :: "char \<Rightarrow> bool" where
  "is_unit_char c \<longleftrightarrow> c \<noteq> CHR ''.'' \<and> \<not> is_digit c"

abbreviation bad_duration :: go_error where "bad_duration \<equiv> ParseError ''time: invalid duration''"

text \<open>One number and its unit; the fraction's digits are read as an exact decimal, rounded down.\<close>

definition parse_term :: "string \<Rightarrow> (nat \<times> string) option" where
  "parse_term s =
     (case span_digits s of (ds, r) \<Rightarrow>
      case (if r \<noteq> [] \<and> hd r = CHR ''.'' then span_digits (tl r) else ([], r)) of (fs, r') \<Rightarrow>
      if ds = [] \<and> fs = [] then None
      else let u = takeWhile is_unit_char r'
           in case unit_ns u of
                None \<Rightarrow> None
              | Some n \<Rightarrow> Some (nat_of_dec ds * n + nat_of_dec fs * n div 10 ^ length fs, dropWhile is_unit_char r'))"

lemma parse_term_shrinks: "parse_term s = Some (n, r) \<Longrightarrow> length r < length s"
proof -
  assume a: "parse_term s = Some (n, r)"
  obtain ds t where d: "span_digits s = (ds, t)" by fastforce
  obtain fs t' where f: "(if t \<noteq> [] \<and> hd t = CHR ''.'' then span_digits (tl t) else ([], t)) = (fs, t')" by fastforce
  have s: "s = ds @ t" using d by (auto simp: span_digits_def)
  have t: "length t = length fs + length t' \<or> length t = length fs + length t' + 1 \<and> t \<noteq> []"
  proof (cases "t \<noteq> [] \<and> hd t = CHR ''.''")
    case True
    then have "tl t = fs @ t'" using f by (auto simp: span_digits_def)
    then show ?thesis using True by (cases t) auto
  qed (use f in auto)
  have r: "r = dropWhile is_unit_char t'" and ne: "ds \<noteq> [] \<or> fs \<noteq> []"
    using a d f by (auto simp: parse_term_def Let_def split: if_splits option.splits)
  have "length r \<le> length t'" unfolding r by (rule length_dropWhile_le)
  moreover have "0 < length ds \<or> 0 < length fs" using ne by auto
  moreover have "length s = length ds + length t" using s by simp
  ultimately show "length r < length s" using t by linarith
qed

function parse_terms :: "string \<Rightarrow> nat \<Rightarrow> nat option" where
  "parse_terms s acc =
     (if s = [] then Some acc
      else case parse_term s of
             None \<Rightarrow> None
           | Some (n, r) \<Rightarrow> parse_terms r (acc + n))"
  by pat_completeness auto
termination
  by (relation "measure (\<lambda>(s, acc). length s)") (auto dest: parse_term_shrinks)

declare parse_terms.simps [simp del]

definition ParseDuration :: "string \<Rightarrow> int res" where
  "ParseDuration s =
     (case (case s of c # r \<Rightarrow> if c = CHR ''-'' then (True, r) else if c = CHR ''+'' then (False, r) else (False, s)
            | [] \<Rightarrow> (False, [])) of
        (neg, r) \<Rightarrow>
          (if r = ''0'' then Inr 0
           else if r = [] then Inl bad_duration
           else case parse_terms r 0 of
                  None \<Rightarrow> Inl bad_duration
                | Some n \<Rightarrow> (if 2 ^ 63 \<le> n then Inl bad_duration else Inr (if neg then - int n else int n))))"

text \<open>Reading a constant.\<close>

lemmas ParseDuration_eval =
  ParseDuration_def parse_terms.simps parse_term_def span_digits_def unit_ns_def is_unit_char_def
  is_digit_def nat_of_dec_def digit_val_def

lemma ParseDuration_range:
  assumes "ParseDuration s = Inr d"
  shows "\<bar>d\<bar> < 2 ^ 63"
proof -
  have "d = 0 \<or> (\<exists>n. \<not> 2 ^ 63 \<le> n \<and> (d = int n \<or> d = - int n))"
    using assms unfolding ParseDuration_def by (simp split: prod.splits if_splits option.splits) blast+
  then show ?thesis by auto
qed

end
