(* ===== verification/Config.thy ===== *)
theory Config
  imports Go_Strconv
begin

text \<open>
  \<^verbatim>\<open>config/config.go\<close>: where each setting comes from. The command line, the process
  environment, the file system and the third-party reader of \<^verbatim>\<open>.ini\<close> files are parameters.
\<close>

section \<open>Sources of settings\<close>

text \<open>
  A section of a loaded file: for every key its text and the values its typed readers give. A key
  that is not in the file is created empty, so reading one never yields nil.
\<close>

record ini_section =
  ini_String :: "string \<Rightarrow> string"
  ini_Int :: "string \<Rightarrow> int res"
  ini_Uint64 :: "string \<Rightarrow> nat res"
  ini_Bool :: "string \<Rightarrow> bool res"

type_synonym env_vars = "string \<Rightarrow> string option"

definition confInt :: "env_vars \<Rightarrow> ini_section option \<Rightarrow> string \<Rightarrow> int \<Rightarrow> int" where
  "confInt env section key dflt =
     (let from_file = (case section of
                         None \<Rightarrow> dflt
                       | Some sec \<Rightarrow> (case ini_Int sec key of Inr v \<Rightarrow> v | Inl err \<Rightarrow> dflt))
      in case env key of
           Some val \<Rightarrow> (case ParseInt val 32 of Inr i \<Rightarrow> i | Inl err \<Rightarrow> from_file)
         | None \<Rightarrow> from_file)"

definition confUint64 :: "env_vars \<Rightarrow> ini_section option \<Rightarrow> string \<Rightarrow> nat \<Rightarrow> nat" where
  "confUint64 env section key dflt =
     (let from_file = (case section of
                         None \<Rightarrow> dflt
                       | Some sec \<Rightarrow> (case ini_Uint64 sec key of Inr v \<Rightarrow> v | Inl err \<Rightarrow> dflt))
      in case env key of
           Some val \<Rightarrow> (case ParseUint val 64 of Inr u \<Rightarrow> u | Inl err \<Rightarrow> from_file)
         | None \<Rightarrow> from_file)"

definition confBool :: "env_vars \<Rightarrow> ini_section option \<Rightarrow> string \<Rightarrow> bool \<Rightarrow> bool" where
  "confBool env section key dflt =
     (let from_file = (case section of
                         None \<Rightarrow> dflt
                       | Some sec \<Rightarrow> (case ini_Bool sec key of Inr v \<Rightarrow> v | Inl err \<Rightarrow> dflt))
      in case env key of
           Some val \<Rightarrow> (case ParseBool val of Inr b \<Rightarrow> b | Inl err \<Rightarrow> from_file)
         | None \<Rightarrow> from_file)"

definition confString :: "env_vars \<Rightarrow> ini_section option \<Rightarrow> string \<Rightarrow> string \<Rightarrow> string" where
  "confString env section key dflt =
     (let p = dflt;
          p = (case section of
                 None \<Rightarrow> p
               | Some sec \<Rightarrow> (if 0 < length (ini_String sec key) then ini_String sec key else p))
      in case env key of Some val \<Rightarrow> val | None \<Rightarrow> p)"

section \<open>The configuration\<close>

text \<open>
  Every field but \<^verbatim>\<open>Config\<close> points to a value from the start, so the fields are the values.
  A 64-bit number is a natural number below \<open>2 ^ 64\<close>.
\<close>

record CTConfig =
  LogUrlList :: string
  CertPath :: string
  GoogleProjectId :: string
  RedisHost :: string
  RedisTimeout :: string
  cfg_Offset :: nat
  cfg_Limit :: nat
  NumThreads :: int
  RunForever :: bool
  IssuerCNFilter :: string
  LogExpiredEntries :: bool
  SavePeriod :: string
  PollingDelayMean :: string
  PollingDelayStdDev :: int
  StatsRefreshPeriod :: string
  OutputRefreshPeriod :: string
  cfg_Config :: "string option"
  StatsDHost :: string
  StatsDPort :: int
  HealthAddr :: string

definition NewCTConfig :: CTConfig where
  "NewCTConfig =
     \<lparr>LogUrlList = [], CertPath = [], GoogleProjectId = [], RedisHost = [], RedisTimeout = [],
      cfg_Offset = 0, cfg_Limit = 0, NumThreads = 0, RunForever = False, IssuerCNFilter = [],
      LogExpiredEntries = False, SavePeriod = [], PollingDelayMean = [], PollingDelayStdDev = 0,
      StatsRefreshPeriod = [], OutputRefreshPeriod = [], cfg_Config = None, StatsDHost = [],
      StatsDPort = 0, HealthAddr = []\<rparr>"

text \<open>
  The parsed command line (a flag that is not given has its default: nothing, zero,
  \<^verbatim>\<open>125ms\<close>) and what \<^verbatim>\<open>Init\<close> asks of the system.
\<close>

record cli_flags =
  confFile :: string
  flagOffset :: nat
  flagLimit :: nat
  flagOutputRefreshPeriod :: string

record conf_system =
  sys_env :: env_vars
  sys_HomeDir :: "string res"
  sys_exists :: "string \<Rightarrow> bool"
  sys_Load :: "string \<Rightarrow> ini_section res"

definition conf_path :: "conf_system \<Rightarrow> cli_flags \<Rightarrow> string" where
  "conf_path sys flags =
     (if confFile flags = []
      then (case sys_HomeDir sys of
              Inl err \<Rightarrow> []
            | Inr home \<Rightarrow>
                (let defPath = home @ ''/.ct-fetch.ini'' in if sys_exists sys defPath then defPath else []))
      else confFile flags)"

definition conf_section :: "conf_system \<Rightarrow> cli_flags \<Rightarrow> ini_section option" where
  "conf_section sys flags =
     (if 0 < length (conf_path sys flags)
      then (case sys_Load sys (conf_path sys flags) of Inl err \<Rightarrow> None | Inr cfg \<Rightarrow> Some cfg)
      else None)"

definition Init :: "conf_system \<Rightarrow> cli_flags \<Rightarrow> CTConfig \<Rightarrow> CTConfig" where
  "Init sys flags c =
     (let section = conf_section sys flags;
          env = sys_env sys;
          c = c\<lparr>cfg_Offset := confUint64 env section ''offset'' 0,
                cfg_Limit := confUint64 env section ''limit'' 0,
                LogUrlList := confString env section ''logList'' [],
                NumThreads := confInt env section ''numThreads'' 1,
                LogExpiredEntries := confBool env section ''logExpiredEntries'' False,
                RunForever := confBool env section ''runForever'' False,
                PollingDelayStdDev := confInt env section ''pollingDelayStdDev'' 10,
                PollingDelayMean := confString env section ''pollingDelayMean'' ''10m'',
                SavePeriod := confString env section ''savePeriod'' ''15m'',
                IssuerCNFilter := confString env section ''issuerCNFilter'' [],
                CertPath := confString env section ''certPath'' [],
                GoogleProjectId := confString env section ''googleProjectId'' [],
                RedisHost := confString env section ''redisHost'' [],
                RedisTimeout := confString env section ''redisTimeout'' ''5s'',
                OutputRefreshPeriod := confString env section ''outputRefreshPeriod'' ''125ms'',
                StatsRefreshPeriod := confString env section ''statsRefreshPeriod'' ''10m'',
                StatsDHost := confString env section ''statsdHost'' [],
                StatsDPort := confInt env section ''statsdPort'' 0,
                HealthAddr := confString env section ''healthAddr'' '':8080''\<rparr>;
          c = (if 0 < flagOffset flags then c\<lparr>cfg_Offset := flagOffset flags\<rparr> else c);
          c = (if 0 < flagLimit flags then c\<lparr>cfg_Limit := flagLimit flags\<rparr> else c)
      in if flagOutputRefreshPeriod flags \<noteq> ''125ms''
         then c\<lparr>OutputRefreshPeriod := flagOutputRefreshPeriod flags\<rparr> else c)"

text \<open>
  The lines that \<^verbatim>\<open>Usage\<close> prints after the description of the flags, and the names of the
  settings among them.
\<close>

definition Usage :: "string list" where
  "Usage =
     [[],
      ''Environment variable or config file directives:'',
      [],
      ''Choose at most one backing store:'',
      ''certPath = Path under which to store full DER-encoded certificates'',
      [],
      ''The external data cache is mandatory:'',
      ''redisHost = address:port of the Redis instance'',
      [],
      ''Options:'',
      ''googleProjectId = Google Cloud Platform Project ID, used for stackdriver logging'',
      ''issuerCNFilter = Prefixes to match for CNs for permitted issuers, comma delimited'',
      ''runForever = Run forever, pausing `pollingDelay` between runs'',
      ''pollingDelayMean = Wait a mean of this long between polls'',
      ''pollingDelayStdDev = Use this standard deviation between polls'',
      ''logExpiredEntries = Add expired entries to the database'',
      ''numThreads = Use this many threads for normal operations'',
      ''savePeriod = Duration between state saves, e.g. 15m'',
      ''logList = URLs of the CT Logs, comma delimited'',
      ''outputRefreshPeriod = Period between output publications'',
      ''statsRefreshPeriod = Period between stats being dumped to stderr, only if statsdDhost and statsdPort are not set'',
      ''statsdHost = host for StatsD information'',
      ''statsdPort = port for StatsD information'',
      ''redisTimeout = Timeout for operations from Redis, e.g. 10s'',
      ''healthAddr = Address to host the /health information http endpoint, e.g. localhost:8080'']"

definition usage_key :: "string \<Rightarrow> string option" where
  "usage_key line =
     (let key = takeWhile (\<lambda>c. c \<noteq> CHR '' '') line
      in if take 3 (drop (length key) line) = '' = '' then Some key else None)"

section \<open>Properties\<close>

text \<open>The first of several sources that has a value.\<close>

fun first_some :: "'a option list \<Rightarrow> 'a \<Rightarrow> 'a" where
  "first_some [] d = d"
| "first_some (Some x # xs) d = x"
| "first_some (None # xs) d = first_some xs d"

definition ok_value :: "'a res \<Rightarrow> 'a option" where
  "ok_value r = (case r of Inl err \<Rightarrow> None | Inr x \<Rightarrow> Some x)"

lemma confInt_first:
  "confInt env section key d = first_some
     [Option.bind (env key) (\<lambda>v. ok_value (ParseInt v 32)), Option.bind section (\<lambda>sec. ok_value (ini_Int sec key))] d"
  by (auto simp: confInt_def ok_value_def split: option.splits sum.splits)

lemma confUint64_first:
  "confUint64 env section key d = first_some
     [Option.bind (env key) (\<lambda>v. ok_value (ParseUint v 64)), Option.bind section (\<lambda>sec. ok_value (ini_Uint64 sec key))] d"
  by (auto simp: confUint64_def ok_value_def split: option.splits sum.splits)

lemma confBool_first:
  "confBool env section key d = first_some
     [Option.bind (env key) (\<lambda>v. ok_value (ParseBool v)), Option.bind section (\<lambda>sec. ok_value (ini_Bool sec key))] d"
  by (auto simp: confBool_def ok_value_def split: option.splits sum.splits)

lemma confString_first:
  "confString env section key d = first_some
     [env key, Option.bind section (\<lambda>sec. if ini_String sec key = [] then None else Some (ini_String sec key))] d"
  by (auto simp: confString_def split: option.splits)

lemmas conf_first = confInt_first confUint64_first confBool_first confString_first

lemma first_some_Cons: "first_some (x # xs) d = (case x of Some y \<Rightarrow> y | None \<Rightarrow> first_some xs d)"
  by (cases x) simp_all

text \<open>
  C27. Each of the nineteen settings comes from the first source that has a readable value for it:
  the command line (for an offset, a limit, a refresh period), then the environment, then the file,
  then the default. An environment variable whose number or boolean cannot be read is passed over;
  one whose text is empty still counts for a textual setting, while an empty text in the file does
  not. The field for the file itself stays as it was.
\<close>

theorem Init_precedence:
  "cfg_Offset (Init sys flags c) = first_some
      [if 0 < flagOffset flags then Some (flagOffset flags) else None,
       Option.bind (sys_env sys ''offset'') (\<lambda>v. ok_value (ParseUint v 64)),
       Option.bind (conf_section sys flags) (\<lambda>sec. ok_value (ini_Uint64 sec ''offset''))] 0
   \<and> cfg_Limit (Init sys flags c) = first_some
      [if 0 < flagLimit flags then Some (flagLimit flags) else None,
       Option.bind (sys_env sys ''limit'') (\<lambda>v. ok_value (ParseUint v 64)),
       Option.bind (conf_section sys flags) (\<lambda>sec. ok_value (ini_Uint64 sec ''limit''))] 0
   \<and> LogUrlList (Init sys flags c) = first_some
      [sys_env sys ''logList'',
       Option.bind (conf_section sys flags) (\<lambda>sec. if ini_String sec ''logList'' = [] then None else Some (ini_String sec ''logList''))] []
   \<and> NumThreads (Init sys flags c) = first_some
      [Option.bind (sys_env sys ''numThreads'') (\<lambda>v. ok_value (ParseInt v 32)),
       Option.bind (conf_section sys flags) (\<lambda>sec. ok_value (ini_Int sec ''numThreads''))] 1
   \<and> LogExpiredEntries (Init sys flags c) = first_some
      [Option.bind (sys_env sys ''logExpiredEntries'') (\<lambda>v. ok_value (ParseBool v)),
       Option.bind (conf_section sys flags) (\<lambda>sec. ok_value (ini_Bool sec ''logExpiredEntries''))] False
   \<and> RunForever (Init sys flags c) = first_some
      [Option.bind (sys_env sys ''runForever'') (\<lambda>v. ok_value (ParseBool v)),
       Option.bind (conf_section sys flags) (\<lambda>sec. ok_value (ini_Bool sec ''runForever''))] False
   \<and> PollingDelayStdDev (Init sys flags c) = first_some
      [Option.bind (sys_env sys ''pollingDelayStdDev'') (\<lambda>v. ok_value (ParseInt v 32)),
       Option.bind (conf_section sys flags) (\<lambda>sec. ok_value (ini_Int sec ''pollingDelayStdDev''))] 10
   \<and> PollingDelayMean (Init sys flags c) = first_some
      [sys_env sys ''pollingDelayMean'',
       Option.bind (conf_section sys flags) (\<lambda>sec. if ini_String sec ''pollingDelayMean'' = [] then None else Some (ini_String sec ''pollingDelayMean''))] ''10m''
   \<and> SavePeriod (Init sys flags c) = first_some
      [sys_env sys ''savePeriod'',
       Option.bind (conf_section sys flags) (\<lambda>sec. if ini_String sec ''savePeriod'' = [] then None else Some (ini_String sec ''savePeriod''))] ''15m''
   \<and> IssuerCNFilter (Init sys flags c) = first_some
      [sys_env sys ''issuerCNFilter'',
       Option.bind (conf_section sys flags) (\<lambda>sec. if ini_String sec ''issuerCNFilter'' = [] then None else Some (ini_String sec ''issuerCNFilter''))] []
   \<and> CertPath (Init sys flags c) = first_some
      [sys_env sys ''certPath'',
       Option.bind (conf_section sys flags) (\<lambda>sec. if ini_String sec ''certPath'' = [] then None else Some (ini_String sec ''certPath''))] []
   \<and> GoogleProjectId (Init sys flags c) = first_some
      [sys_env sys ''googleProjectId'',
       Option.bind (conf_section sys flags) (\<lambda>sec. if ini_String sec ''googleProjectId'' = [] then None else Some (ini_String sec ''googleProjectId''))] []
   \<and> RedisHost (Init sys flags c) = first_some
      [sys_env sys ''redisHost'',
       Option.bind (conf_section sys flags) (\<lambda>sec. if ini_String sec ''redisHost'' = [] then None else Some (ini_String sec ''redisHost''))] []
   \<and> RedisTimeout (Init sys flags c) = first_some
      [sys_env sys ''redisTimeout'',
       Option.bind (conf_section sys flags) (\<lambda>sec. if ini_String sec ''redisTimeout'' = [] then None else Some (ini_String sec ''redisTimeout''))] ''5s''
   \<and> OutputRefreshPeriod (Init sys flags c) = first_some
      [if flagOutputRefreshPeriod flags \<noteq> ''125ms'' then Some (flagOutputRefreshPeriod flags) else None,
       sys_env sys ''outputRefreshPeriod'',
       Option.bind (conf_section sys flags) (\<lambda>sec. if ini_String sec ''outputRefreshPeriod'' = [] then None else Some (ini_String sec ''outputRefreshPeriod''))] ''125ms''
   \<and> StatsRefreshPeriod (Init sys flags c) = first_some
      [sys_env sys ''statsRefreshPeriod'',
       Option.bind (conf_section sys flags) (\<lambda>sec. if ini_String sec ''statsRefreshPeriod'' = [] then None else Some (ini_String sec ''statsRefreshPeriod''))] ''10m''
   \<and> StatsDHost (Init sys flags c) = first_some
      [sys_env sys ''statsdHost'',
       Option.bind (conf_section sys flags) (\<lambda>sec. if ini_String sec ''statsdHost'' = [] then None else Some (ini_String sec ''statsdHost''))] []
   \<and> StatsDPort (Init sys flags c) = first_some
      [Option.bind (sys_env sys ''statsdPort'') (\<lambda>v. ok_value (ParseInt v 32)),
       Option.bind (conf_section sys flags) (\<lambda>sec. ok_value (ini_Int sec ''statsdPort''))] 0
   \<and> HealthAddr (Init sys flags c) = first_some
      [sys_env sys ''healthAddr'',
       Option.bind (conf_section sys flags) (\<lambda>sec. if ini_String sec ''healthAddr'' = [] then None else Some (ini_String sec ''healthAddr''))] '':8080''
   \<and> cfg_Config (Init sys flags c) = cfg_Config c"
  by (intro conjI) (simp_all add: Init_def Let_def conf_first)

text \<open>
  The value of an integer setting that comes from the environment fits 32 bits and that of a
  64-bit setting fits 64 bits; whatever the environment holds, the settings keep these bounds when
  the file's and the default values do.
\<close>

theorem conf_bounds:
  assumes "case section of None \<Rightarrow> True | Some sec \<Rightarrow>
      (case ini_Int sec key of Inl _ \<Rightarrow> True | Inr v \<Rightarrow> - (2 ^ 31) \<le> v \<and> v < 2 ^ 31)
      \<and> (case ini_Uint64 sec key of Inl _ \<Rightarrow> True | Inr v \<Rightarrow> v < 2 ^ 64)"
    and "- (2 ^ 31) \<le> di" and "di < 2 ^ 31" and "du < 2 ^ 64"
  shows "- (2 ^ 31) \<le> confInt env section key di \<and> confInt env section key di < 2 ^ 31
    \<and> confUint64 env section key du < 2 ^ 64"
proof -
  have "- (2 ^ 31) \<le> i \<and> i < 2 ^ 31" if "ParseInt v 32 = Inr i" for v i
    using ParseInt_range [OF that] by simp
  moreover have "u < 2 ^ 64" if "ParseUint v 64 = Inr u" for v u
    using ParseUint_range [OF that] by simp
  ultimately show ?thesis
    using assms by (auto simp: confInt_def confUint64_def Let_def split: option.splits sum.splits)
qed

theorem conf_bounds_witness:
  "- (2 ^ 31) \<le> confInt (\<lambda>k. Some ''99999999999'') None ''numThreads'' 1
    \<and> confInt (\<lambda>k. Some ''99999999999'') None ''numThreads'' 1 < 2 ^ 31"
  using conf_bounds [of "''numThreads''" None 1 0 "\<lambda>k. Some ''99999999999''"] by simp

lemma Usage_keys:
  "List.map_filter usage_key Usage
    = [''certPath'', ''redisHost'', ''googleProjectId'', ''issuerCNFilter'', ''runForever'', ''pollingDelayMean'', ''pollingDelayStdDev'', ''logExpiredEntries'', ''numThreads'', ''savePeriod'', ''logList'', ''outputRefreshPeriod'', ''statsRefreshPeriod'', ''statsdHost'', ''statsdPort'', ''redisTimeout'', ''healthAddr'']"
  by code_simp

text \<open>The settings that \<^verbatim>\<open>Usage\<close> does not name and that are no flags are not read.\<close>

theorem Usage_names_all_settings:
  assumes "key \<notin> set (List.map_filter usage_key Usage)" and "key \<noteq> ''offset''" and "key \<noteq> ''limit''"
  shows "Init (sys\<lparr>sys_env := (sys_env sys)(key := v)\<rparr>) flags c = Init sys flags c"
proof -
  have c: "conf_section (sys\<lparr>sys_env := e\<rparr>) flags = conf_section sys flags" for e
    by (cases "sys_HomeDir sys") (simp_all add: conf_section_def conf_path_def Let_def)
  have s: "sys_env (sys\<lparr>sys_env := e\<rparr>) = e" for e by simp
  have same: "confInt (e(key := v)) sec k d = confInt e sec k d" "confUint64 (e(key := v)) sec k u = confUint64 e sec k u"
    "confBool (e(key := v)) sec k b = confBool e sec k b" "confString (e(key := v)) sec k t = confString e sec k t"
    if "k \<noteq> key" for e sec k d u b t
    using that by (simp_all add: confInt_def confUint64_def confBool_def confString_def)
  have ne: "''offset'' \<noteq> key" "''limit'' \<noteq> key" "''logList'' \<noteq> key" "''numThreads'' \<noteq> key" "''logExpiredEntries'' \<noteq> key"
    "''runForever'' \<noteq> key" "''pollingDelayStdDev'' \<noteq> key" "''pollingDelayMean'' \<noteq> key" "''savePeriod'' \<noteq> key"
    "''issuerCNFilter'' \<noteq> key" "''certPath'' \<noteq> key" "''googleProjectId'' \<noteq> key" "''redisHost'' \<noteq> key"
    "''redisTimeout'' \<noteq> key" "''outputRefreshPeriod'' \<noteq> key" "''statsRefreshPeriod'' \<noteq> key"
    "''statsdHost'' \<noteq> key" "''statsdPort'' \<noteq> key" "''healthAddr'' \<noteq> key"
    using assms unfolding Usage_keys by auto
  show ?thesis
    unfolding Init_def Let_def c s by (simp only: ne [THEN same(1)] ne [THEN same(2)] ne [THEN same(3)] ne [THEN same(4)])
qed

end
