(* ===== verification/Go_Pem.thy ===== *)
theory Go_Pem
  imports Go_Encoding
begin

text \<open>
  \<^verbatim>\<open>pem.EncodeToMemory\<close> for a block without headers: the standard base64 alphabet in
  lines of 64 characters between the two marker lines. Only its injectivity is used elsewhere.
\<close>

definition std_char :: "char \<Rightarrow> char" where
  "std_char c = (if c = CHR ''-'' then CHR ''+'' else if c = CHR ''_'' then CHR ''/'' else c)"

definition unstd_char :: "char \<Rightarrow> char" where
  "unstd_char c = (if c = CHR ''+'' then CHR ''-'' else if c = CHR ''/'' then CHR ''_'' else c)"

abbreviation newline :: char where "newline \<equiv> CHR 0x0A"

function break_lines :: "string \<Rightarrow> string" where
  "break_lines s = (if s = [] then [] else take 64 s @ [newline] @ break_lines (drop 64 s))"
  by pat_completeness auto
termination by (relation "measure length") auto

declare break_lines.simps [simp del]

definition pem_begin :: "string \<Rightarrow> string" where
  "pem_begin ty = ''-----BEGIN '' @ ty @ ''-----'' @ [newline]"

definition pem_end :: "string \<Rightarrow> string" where
  "pem_end ty = ''-----END '' @ ty @ ''-----'' @ [newline]"

definition pem_EncodeToMemory :: "string \<Rightarrow> bytes \<Rightarrow> string" where
  "pem_EncodeToMemory ty b =
     pem_begin ty @ break_lines (map std_char (b64_encode b)) @ pem_end ty"

text \<open>The bytes of such a block.\<close>

definition pem_bytes :: "string \<Rightarrow> string \<Rightarrow> bytes res" where
  "pem_bytes ty s =
     (let body = drop (length (pem_begin ty)) s
      in b64_decode (map unstd_char (filter (\<lambda>c. c \<noteq> newline) (take (length body - length (pem_end ty)) body))))"

lemma filter_break_lines: "newline \<notin> set s \<Longrightarrow> filter (\<lambda>c. c \<noteq> newline) (break_lines s) = s"
proof (induction s rule: break_lines.induct)
  case (1 s)
  show ?case
  proof (cases "s = []")
    case False
    have "newline \<notin> set (drop 64 s)" using "1.prems" by (auto dest: in_set_dropD)
    then have "filter (\<lambda>c. c \<noteq> newline) (break_lines (drop 64 s)) = drop 64 s" using "1.IH" False by blast
    moreover have "filter (\<lambda>c. c \<noteq> newline) (take 64 s) = take 64 s"
      using "1.prems" by (auto simp: filter_id_conv dest: in_set_takeD)
    ultimately show ?thesis using False by (subst break_lines.simps) simp
  qed (simp add: break_lines.simps)
qed

lemma b64_encode_std: "map unstd_char (map std_char (b64_encode b)) = b64_encode b"
proof -
  have "CHR ''+'' \<notin> set (b64_encode b)" "CHR ''/'' \<notin> set (b64_encode b)"
    by (rule b64_encode_free; simp)+
  then have "\<forall>c \<in> set (b64_encode b). unstd_char (std_char c) = c"
    by (auto simp: unstd_char_def std_char_def)
  then show ?thesis by (simp add: map_idI)
qed

lemma newline_free: "newline \<notin> set (map std_char (b64_encode b))"
proof -
  have "newline \<notin> set (b64_encode b)" by (rule b64_encode_free; simp)
  then show ?thesis by (auto simp: std_char_def split: if_splits)
qed

lemma pem_bytes_Encode [simp, go_codec]: "pem_bytes ty (pem_EncodeToMemory ty b) = Inr b"
  using newline_free [of b] b64_encode_std [of b]
  by (simp add: pem_bytes_def pem_EncodeToMemory_def Let_def filter_break_lines del: map_map)

lemma pem_EncodeToMemory_inject [simp]: "pem_EncodeToMemory ty a = pem_EncodeToMemory ty b \<longleftrightarrow> a = b"
  by (metis pem_bytes_Encode sum.inject(2))

end
