(* ===== verification/Storage_Backends.thy ===== *)
theory Storage_Backends
  imports Mock_Cache Go_Pem
begin

text \<open>
  The interface \<^verbatim>\<open>StorageBackend\<close> of \<^verbatim>\<open>storage/types.go\<close>, what its clients
  rely on as a locale, and two of its providers: \<^verbatim>\<open>storage/noopbackend.go\<close> and
  \<^verbatim>\<open>storage/mockbackend.go\<close>.
\<close>

section \<open>The interface\<close>

text \<open>
  The context argument of every method carries no data and is left out. A certificate list that is
  streamed is the list of the identifiers sent on the channel.
\<close>

record 'b StorageBackend =
  sb_MarkDirty :: "string \<Rightarrow> 'b \<Rightarrow> go_error option \<times> 'b"
  sb_StoreCertificatePEM :: "Serial \<Rightarrow> ExpDate \<Rightarrow> Issuer \<Rightarrow> string \<Rightarrow> 'b \<Rightarrow> go_error option \<times> 'b"
  sb_StoreLogState :: "CertificateLog \<Rightarrow> 'b \<Rightarrow> go_error option \<times> 'b"
  sb_StoreKnownCertificateList :: "Issuer \<Rightarrow> Serial list \<Rightarrow> 'b \<Rightarrow> go_error option \<times> 'b"
  sb_LoadCertificatePEM :: "Serial \<Rightarrow> ExpDate \<Rightarrow> Issuer \<Rightarrow> 'b \<Rightarrow> string ret \<times> 'b"
  sb_LoadLogState :: "string \<Rightarrow> 'b \<Rightarrow> CertificateLog option ret \<times> 'b"
  sb_AllocateExpDateAndIssuer :: "ExpDate \<Rightarrow> Issuer \<Rightarrow> 'b \<Rightarrow> go_error option \<times> 'b"
  sb_ListExpirationDates :: "gotime \<Rightarrow> 'b \<Rightarrow> ExpDate list ret \<times> 'b"
  sb_ListIssuersForExpirationDate :: "ExpDate \<Rightarrow> 'b \<Rightarrow> Issuer list ret \<times> 'b"
  sb_ListSerialsForExpirationDateAndIssuer :: "ExpDate \<Rightarrow> Issuer \<Rightarrow> 'b \<Rightarrow> Serial list ret \<times> 'b"
  sb_StreamSerialsForExpirationDateAndIssuer ::
    "ExpDate \<Rightarrow> Issuer \<Rightarrow> 'b \<Rightarrow> UniqueCertIdentifier list ret \<times> 'b"

section \<open>The backend that stores nothing\<close>

definition noopLoadError :: go_error where
  "noopLoadError = Errorf ''Unable to load from the NoopBackend.''"

definition Noop_MarkDirty :: "string \<Rightarrow> 'b \<Rightarrow> go_error option \<times> 'b" where
  "Noop_MarkDirty ident st = (None, st)"

definition Noop_AllocateExpDateAndIssuer :: "ExpDate \<Rightarrow> Issuer \<Rightarrow> 'b \<Rightarrow> go_error option \<times> 'b" where
  "Noop_AllocateExpDateAndIssuer expDate issuer st = (None, st)"

definition Noop_StoreCertificatePEM ::
    "Serial \<Rightarrow> ExpDate \<Rightarrow> Issuer \<Rightarrow> string \<Rightarrow> 'b \<Rightarrow> go_error option \<times> 'b" where
  "Noop_StoreCertificatePEM sn expDate issuer b st = (None, st)"

definition Noop_StoreLogState :: "CertificateLog \<Rightarrow> 'b \<Rightarrow> go_error option \<times> 'b" where
  "Noop_StoreLogState log st = (None, st)"

definition Noop_StoreKnownCertificateList :: "Issuer \<Rightarrow> Serial list \<Rightarrow> 'b \<Rightarrow> go_error option \<times> 'b" where
  "Noop_StoreKnownCertificateList issuer serials st = (None, st)"

definition Noop_LoadCertificatePEM :: "Serial \<Rightarrow> ExpDate \<Rightarrow> Issuer \<Rightarrow> 'b \<Rightarrow> string ret \<times> 'b" where
  "Noop_LoadCertificatePEM sn expDate issuer st = (([], Some noopLoadError), st)"

definition Noop_LoadLogState :: "string \<Rightarrow> 'b \<Rightarrow> CertificateLog option ret \<times> 'b" where
  "Noop_LoadLogState logURL st = ((None, Some noopLoadError), st)"

definition Noop_ListExpirationDates :: "gotime \<Rightarrow> 'b \<Rightarrow> ExpDate list ret \<times> 'b" where
  "Noop_ListExpirationDates aNotBefore st = (([], Some noopLoadError), st)"

definition Noop_ListIssuersForExpirationDate :: "ExpDate \<Rightarrow> 'b \<Rightarrow> Issuer list ret \<times> 'b" where
  "Noop_ListIssuersForExpirationDate expDate st = (([], Some noopLoadError), st)"

definition Noop_ListSerialsForExpirationDateAndIssuer ::
    "ExpDate \<Rightarrow> Issuer \<Rightarrow> 'b \<Rightarrow> Serial list ret \<times> 'b" where
  "Noop_ListSerialsForExpirationDateAndIssuer expDate issuer st = (([], Some noopLoadError), st)"

definition Noop_StreamSerialsForExpirationDateAndIssuer ::
    "ExpDate \<Rightarrow> Issuer \<Rightarrow> 'b \<Rightarrow> UniqueCertIdentifier list ret \<times> 'b" where
  "Noop_StreamSerialsForExpirationDateAndIssuer expDate issuer st = (([], Some noopLoadError), st)"

definition noop_backend :: "'b StorageBackend" where
  "noop_backend =
     \<lparr>sb_MarkDirty = Noop_MarkDirty,
      sb_StoreCertificatePEM = Noop_StoreCertificatePEM,
      sb_StoreLogState = Noop_StoreLogState,
      sb_StoreKnownCertificateList = Noop_StoreKnownCertificateList,
      sb_LoadCertificatePEM = Noop_LoadCertificatePEM,
      sb_LoadLogState = Noop_LoadLogState,
      sb_AllocateExpDateAndIssuer = Noop_AllocateExpDateAndIssuer,
      sb_ListExpirationDates = Noop_ListExpirationDates,
      sb_ListIssuersForExpirationDate = Noop_ListIssuersForExpirationDate,
      sb_ListSerialsForExpirationDateAndIssuer = Noop_ListSerialsForExpirationDateAndIssuer,
      sb_StreamSerialsForExpirationDateAndIssuer = Noop_StreamSerialsForExpirationDateAndIssuer\<rparr>"

section \<open>The backend in memory\<close>

text \<open>The stored byte slices are texts.\<close>

record MockBackend =
  expDateToIssuer :: "(string, Issuer list) gomap"
  expDateIssuerIDToSerials :: "(string, Serial list) gomap"
  mb_store :: "(string, string) gomap"

definition NewMockBackend :: MockBackend where
  "NewMockBackend = \<lparr>expDateToIssuer = [], expDateIssuerIDToSerials = [], mb_store = []\<rparr>"

definition MB_MarkDirty :: "string \<Rightarrow> MockBackend \<Rightarrow> go_error option \<times> MockBackend" where
  "MB_MarkDirty ident st = (None, st)"

definition MB_AllocateExpDateAndIssuer :: "ExpDate \<Rightarrow> Issuer \<Rightarrow> MockBackend \<Rightarrow> go_error option \<times> MockBackend" where
  "MB_AllocateExpDateAndIssuer expDate issuer st =
     (let issuers = gm_list (expDateToIssuer st) (ExpDate_ID expDate);
          i = sort_Search (length issuers) (\<lambda>i. go_compare (iss_id (issuers ! i)) (iss_id issuer) \<ge> 0)
      in if i < length issuers \<and> iss_id (issuers ! i) = iss_id issuer then (None, st)
         else (let issuers = issuers @ [\<lparr>issuer_id = None, issuer_spki = SPKI []\<rparr>];
                   issuers = copy_within (i + 1) i issuers;
                   issuers = issuers[i := issuer]
               in (None, st\<lparr>expDateToIssuer := gm_set (ExpDate_ID expDate) issuers (expDateToIssuer st)\<rparr>)))"

definition pem_key :: "ExpDate \<Rightarrow> Issuer \<Rightarrow> Serial \<Rightarrow> string" where
  "pem_key expDate issuer sn = ''pem'' @ ExpDate_ID expDate @ iss_id issuer @ Serial_ID sn"

definition MB_StoreCertificatePEM ::
    "Serial \<Rightarrow> ExpDate \<Rightarrow> Issuer \<Rightarrow> string \<Rightarrow> MockBackend \<Rightarrow> go_error option \<times> MockBackend" where
  "MB_StoreCertificatePEM sn expDate issuer b st =
     (let st = st\<lparr>mb_store := gm_set (pem_key expDate issuer sn) b (mb_store st)\<rparr>;
          k = ExpDate_ID expDate @ iss_id issuer;
          val = gm_list (expDateIssuerIDToSerials st) k
      in (None, st\<lparr>expDateIssuerIDToSerials := gm_set k (val @ [sn]) (expDateIssuerIDToSerials st)\<rparr>))"

definition MB_StoreLogState :: "log_json \<Rightarrow> CertificateLog \<Rightarrow> MockBackend \<Rightarrow> go_error option \<times> MockBackend" where
  "MB_StoreLogState js log st =
     (case json_Marshal js log of
        Inl err \<Rightarrow> (Some err, st)
      | Inr data \<Rightarrow> (None, st\<lparr>mb_store := gm_set (''logstate'' @ ShortURL log) data (mb_store st)\<rparr>))"

text \<open>\<^verbatim>\<open>json.Marshal\<close> of a slice of serials that is not nil.\<close>

definition json_Marshal_serials :: "Serial list \<Rightarrow> string" where
  "json_Marshal_serials serials = ''['' @ strings_join '','' (map Serial_MarshalJSON serials) @ '']''"

definition MB_StoreKnownCertificateList ::
    "Issuer \<Rightarrow> Serial list \<Rightarrow> MockBackend \<Rightarrow> go_error option \<times> MockBackend" where
  "MB_StoreKnownCertificateList issuer serials st =
     (None, st\<lparr>mb_store := gm_set (iss_id issuer) (json_Marshal_serials serials) (mb_store st)\<rparr>)"

definition MB_LoadCertificatePEM :: "Serial \<Rightarrow> ExpDate \<Rightarrow> Issuer \<Rightarrow> MockBackend \<Rightarrow> string ret \<times> MockBackend" where
  "MB_LoadCertificatePEM sn expDate issuer st =
     (case gm_get (mb_store st) (pem_key expDate issuer sn) of
        Some data \<Rightarrow> ((data, None), st)
      | None \<Rightarrow> (([], Some (Errorf ''Couldn't find'')), st))"

definition MB_LoadLogState :: "log_json \<Rightarrow> string \<Rightarrow> MockBackend \<Rightarrow> CertificateLog option ret \<times> MockBackend" where
  "MB_LoadLogState js logURL st =
     (case gm_get (mb_store st) (''logstate'' @ logURL) of
        Some data \<Rightarrow> (json_Unmarshal js data, st)
      | None \<Rightarrow> ((Some (blank_log logURL), None), st))"

text \<open>The keys are visited in the unspecified order \<open>ord\<close>.\<close>

fun mb_dates :: "gotime \<Rightarrow> string list \<Rightarrow> ExpDate list \<Rightarrow> ExpDate list ret" where
  "mb_dates truncatedNotBefore [] dates = (dates, None)"
| "mb_dates truncatedNotBefore (key # keys) dates =
     (case Parse_day key of
        Inl err \<Rightarrow> ([], Some err)
      | Inr v \<Rightarrow>
          (if \<not> Before v truncatedNotBefore
           then (case NewExpDate key of
                   Inl err \<Rightarrow> (dates, Some err)
                 | Inr ed \<Rightarrow> mb_dates truncatedNotBefore keys (dates @ [ed]))
           else mb_dates truncatedNotBefore keys dates))"

definition day_start :: "gotime \<Rightarrow> gotime" where
  "day_start t = (case local_date t of (y, m, d) \<Rightarrow> time_Date y m d 0)"

definition MB_ListExpirationDates ::
    "(string list \<Rightarrow> string list) \<Rightarrow> gotime \<Rightarrow> MockBackend \<Rightarrow> ExpDate list ret \<times> MockBackend" where
  "MB_ListExpirationDates ord aNotBefore st =
     (mb_dates (day_start aNotBefore) (ord (map fst (expDateToIssuer st))) [], st)"

definition MB_ListIssuersForExpirationDate :: "ExpDate \<Rightarrow> MockBackend \<Rightarrow> Issuer list ret \<times> MockBackend" where
  "MB_ListIssuersForExpirationDate expDate st =
     ((gm_list (expDateToIssuer st) (ExpDate_ID expDate), None), st)"

definition MB_ListSerialsForExpirationDateAndIssuer ::
    "ExpDate \<Rightarrow> Issuer \<Rightarrow> MockBackend \<Rightarrow> Serial list ret \<times> MockBackend" where
  "MB_ListSerialsForExpirationDateAndIssuer expDate issuer st =
     ((gm_list (expDateIssuerIDToSerials st) (ExpDate_ID expDate @ iss_id issuer), None), st)"

definition MB_StreamSerialsForExpirationDateAndIssuer ::
    "ExpDate \<Rightarrow> Issuer \<Rightarrow> MockBackend \<Rightarrow> UniqueCertIdentifier list ret \<times> MockBackend" where
  "MB_StreamSerialsForExpirationDateAndIssuer expDate issuer st =
     (case MB_ListSerialsForExpirationDateAndIssuer expDate issuer st of
        ((allSerials, Some err), st) \<Rightarrow> (([], Some err), st)
      | ((allSerials, None), st) \<Rightarrow>
          ((map (\<lambda>s. \<lparr>uci_ExpDate = expDate, uci_Issuer = issuer, uci_SerialNum = s\<rparr>) allSerials, None), st))"

definition mock_backend :: "log_json \<Rightarrow> (string list \<Rightarrow> string list) \<Rightarrow> MockBackend StorageBackend" where
  "mock_backend js ord =
     \<lparr>sb_MarkDirty = MB_MarkDirty,
      sb_StoreCertificatePEM = MB_StoreCertificatePEM,
      sb_StoreLogState = MB_StoreLogState js,
      sb_StoreKnownCertificateList = MB_StoreKnownCertificateList,
      sb_LoadCertificatePEM = MB_LoadCertificatePEM,
      sb_LoadLogState = MB_LoadLogState js,
      sb_AllocateExpDateAndIssuer = MB_AllocateExpDateAndIssuer,
      sb_ListExpirationDates = MB_ListExpirationDates ord,
      sb_ListIssuersForExpirationDate = MB_ListIssuersForExpirationDate,
      sb_ListSerialsForExpirationDateAndIssuer = MB_ListSerialsForExpirationDateAndIssuer,
      sb_StreamSerialsForExpirationDateAndIssuer = MB_StreamSerialsForExpirationDateAndIssuer\<rparr>"

section \<open>What clients rely on\<close>

text \<open>
  A certificate text is stored under its bucket, issuer and serial and can be loaded again. A
  provider may restrict the keys for which it promises to keep texts apart (\<open>pem_ok\<close>).
\<close>

type_synonym cert_key = "string \<times> string \<times> Serial"

abbreviation cert_key :: "ExpDate \<Rightarrow> Issuer \<Rightarrow> Serial \<Rightarrow> cert_key" where
  "cert_key e i n \<equiv> (ExpDate_ID e, iss_id i, n)"

locale pem_store =
  fixes sb :: "'b StorageBackend"
    and pem_of :: "'b \<Rightarrow> cert_key \<Rightarrow> string option"
    and pem_ok :: "cert_key \<Rightarrow> bool"
  assumes StorePEM: "sb_StoreCertificatePEM sb n e i b st = (None, st') \<Longrightarrow> pem_ok (cert_key e i n) \<Longrightarrow>
      pem_of st' (cert_key e i n) = Some b \<and>
      (\<forall>k. pem_ok k \<longrightarrow> k \<noteq> cert_key e i n \<longrightarrow> pem_of st' k = pem_of st k)"
  and LoadPEM: "sb_LoadCertificatePEM sb n e i st = ((d, None), st') \<Longrightarrow> pem_of st (cert_key e i n) = Some d"
  and MarkDirty: "sb_MarkDirty sb d st = (er, st') \<Longrightarrow> pem_of st' = pem_of st"
  and Allocate: "sb_AllocateExpDateAndIssuer sb e i st = (er, st') \<Longrightarrow> pem_of st' = pem_of st"

text \<open>A backend that also lists, per bucket, the issuers allocated.\<close>

locale listing_backend = pem_store +
  fixes issuers_of :: "'b \<Rightarrow> string \<Rightarrow> string set"
    and listing_ok :: "'b \<Rightarrow> bool"
  assumes Allocate_lists: "listing_ok st \<Longrightarrow> sb_AllocateExpDateAndIssuer sb e i st = (None, st') \<Longrightarrow> listing_ok st' \<and>
      issuers_of st' = (issuers_of st)(ExpDate_ID e := insert (iss_id i) (issuers_of st (ExpDate_ID e)))"
  and StorePEM_lists: "sb_StoreCertificatePEM sb n e i b st = (er, st') \<Longrightarrow>
      listing_ok st' = listing_ok st \<and> issuers_of st' = issuers_of st"
  and MarkDirty_lists: "sb_MarkDirty sb d st = (er, st') \<Longrightarrow>
      listing_ok st' = listing_ok st \<and> issuers_of st' = issuers_of st"
  and ListIssuers: "listing_ok st \<Longrightarrow> sb_ListIssuersForExpirationDate sb e st = ((l, None), st') \<Longrightarrow>
      distinct (map iss_id l) \<and> iss_id ` set l = issuers_of st (ExpDate_ID e)"
begin

lemma Allocate_then_List:
  assumes "listing_ok st" and "sb_AllocateExpDateAndIssuer sb e i st = (None, st1)"
    and "sb_ListIssuersForExpirationDate sb e st1 = ((l, None), st2)"
  shows "iss_id i \<in> iss_id ` set l"
  using Allocate_lists [OF assms(1,2)] ListIssuers [of st1 e l st2] assms(3) by simp

end

section \<open>The in-memory backend keeps the contract\<close>

definition mb_pem :: "MockBackend \<Rightarrow> cert_key \<Rightarrow> string option" where
  "mb_pem st k = (case k of (e, i, n) \<Rightarrow> gm_get (mb_store st) (''pem'' @ e @ i @ Serial_ID n))"

text \<open>
  The keys are concatenated without a separator: they are kept apart for hour buckets (13
  characters) and issuers named by a digest (44 characters).
\<close>

definition mb_key_ok :: "cert_key \<Rightarrow> bool" where
  "mb_key_ok k \<longleftrightarrow> (case k of (e, i, n) \<Rightarrow> length e = 13 \<and> length i = 44)"

definition mb_issuers :: "MockBackend \<Rightarrow> string \<Rightarrow> string set" where
  "mb_issuers st e = iss_id ` set (gm_list (expDateToIssuer st) e)"

definition mb_sorted :: "MockBackend \<Rightarrow> bool" where
  "mb_sorted st \<longleftrightarrow> (\<forall>e. sorted_wrt (<) (map iss_id (gm_list (expDateToIssuer st) e)))"

lemma mb_key_inject:
  assumes "mb_key_ok (e, i, n)" and "mb_key_ok (e', i', n')"
  shows "''pem'' @ e @ i @ Serial_ID n = ''pem'' @ e' @ i' @ Serial_ID n' \<longleftrightarrow> (e, i, n) = (e', i', n')"
  using assms by (auto simp: mb_key_ok_def)

text \<open>Allocating is the sorted insertion of the cache, on the identifiers.\<close>

lemma MB_Allocate_eq:
  assumes "sorted_wrt (<) (map iss_id l)"
    and "k = sort_Search (length l) (\<lambda>i. go_compare (iss_id (l ! i)) (iss_id iss) \<ge> 0)"
  shows "set_search (map iss_id l) (iss_id iss) = (k, k < length l \<and> iss_id (l ! k) = iss_id iss)"
proof -
  have "search_loop (\<lambda>i. 0 \<le> go_compare (iss_id (l ! i)) (iss_id iss)) i j
      = search_loop (\<lambda>i. go_compare (iss_id iss) (map iss_id l ! i) \<le> 0) i j" if "j \<le> length l" for i j
    using that
  proof (induction "j - i" arbitrary: i j rule: less_induct)
    case less
    show ?case
    proof (cases "i < j")
      case True
      then have "(i + j) div 2 < length l" using less.prems by auto
      then show ?thesis
        using less.hyps [of j "(i + j) div 2 + 1"] less.hyps [of "(i + j) div 2" i] less.prems True
        by (cases "iss_id iss \<le> iss_id (l ! ((i + j) div 2))") (simp_all add: search_loop_unfold)
    qed (simp add: search_loop_stop)
  qed
  then have "k = sort_Search (length l) (\<lambda>i. go_compare (iss_id iss) (map iss_id l ! i) \<le> 0)"
    unfolding assms(2) sort_Search_def by simp
  then show ?thesis by (auto simp: set_search_def Let_def)
qed

lemma MB_Allocate_spec:
  assumes "mb_sorted st" and "MB_AllocateExpDateAndIssuer e i st = (er, st')"
  shows "er = None \<and> mb_sorted st' \<and> mb_store st' = mb_store st
    \<and> mb_issuers st' = (mb_issuers st)(ExpDate_ID e := insert (iss_id i) (mb_issuers st (ExpDate_ID e)))"
proof -
  define l where "l = gm_list (expDateToIssuer st) (ExpDate_ID e)"
  define k where "k = sort_Search (length l) (\<lambda>j. go_compare (iss_id (l ! j)) (iss_id i) \<ge> 0)"
  have srt: "sorted_wrt (<) (map iss_id l)" using assms(1) by (simp add: mb_sorted_def l_def)
  note s = MB_Allocate_eq [OF srt k_def]
  note m = set_search_sorted(1,2) [OF srt s]
  have eq: "MB_AllocateExpDateAndIssuer e i st =
    (if k < length l \<and> iss_id (l ! k) = iss_id i then (None, st)
     else (None, st\<lparr>expDateToIssuer := gm_set (ExpDate_ID e)
       ((copy_within (k + 1) k (l @ [\<lparr>issuer_id = None, issuer_spki = SPKI []\<rparr>]))[k := i]) (expDateToIssuer st)\<rparr>))"
    unfolding MB_AllocateExpDateAndIssuer_def Let_def l_def [symmetric] k_def [symmetric] ..
  show ?thesis
  proof (cases "k < length l \<and> iss_id (l ! k) = iss_id i")
    case True
    then have "st' = st" "er = None"
      using assms(2) by (simp_all add: eq)
    then show ?thesis using assms(1) True m(1) by (auto simp: mb_issuers_def l_def fun_eq_iff)
  next
    case False
    then have st': "er = None" "st' = st\<lparr>expDateToIssuer := gm_set (ExpDate_ID e) (take k l @ i # drop k l) (expDateToIssuer st)\<rparr>"
      using assms(2) copy_within_insert [of k l "\<lparr>issuer_id = None, issuer_spki = SPKI []\<rparr>" i] m(2)
      by (auto simp: eq)
    have "sorted_wrt (<) (map iss_id (take k l @ i # drop k l))"
      and "set (map iss_id (take k l @ i # drop k l)) = insert (iss_id i) (set (map iss_id l))"
      using sorted_insert_at [OF srt, of "iss_id i" k] s False by (simp_all add: take_map drop_map)
    then show ?thesis using assms(1) st' by (simp add: mb_sorted_def mb_issuers_def l_def fun_eq_iff image_Un)
  qed
qed

interpretation mock_store: pem_store "mock_backend js ord" mb_pem mb_key_ok
proof (unfold_locales, goal_cases)
  case (1 n e i b st st')
  then show ?case
    using mb_key_inject
    by (auto simp: mock_backend_def MB_StoreCertificatePEM_def mb_pem_def pem_key_def Let_def
        split: prod.splits)
next
  case (2 n e i st d st')
  then show ?case
    by (auto simp: mock_backend_def MB_LoadCertificatePEM_def mb_pem_def pem_key_def split: option.splits)
next
  case (3 d st er st')
  then show ?case by (simp add: mock_backend_def MB_MarkDirty_def)
next
  case (4 e i st er st')
  then show ?case
    by (auto simp: mock_backend_def MB_AllocateExpDateAndIssuer_def mb_pem_def Let_def fun_eq_iff split: if_splits)
qed

lemma mb_sorted_distinct: "mb_sorted st \<Longrightarrow> distinct (map iss_id (gm_list (expDateToIssuer st) e))"
  by (simp add: mb_sorted_def strict_sorted_iff)

interpretation mock_listing: listing_backend "mock_backend js ord" mb_pem mb_key_ok mb_issuers mb_sorted
proof (unfold_locales, goal_cases)
  case (1 st e i st')
  then show ?case using MB_Allocate_spec [of st e i None st'] by (simp add: mock_backend_def)
next
  case (2 n e i b st er st')
  then show ?case
    by (auto simp: mock_backend_def MB_StoreCertificatePEM_def mb_issuers_def mb_sorted_def Let_def fun_eq_iff)
next
  case (3 d st er st')
  then show ?case by (simp add: mock_backend_def MB_MarkDirty_def)
next
  case (4 st e l st')
  then show ?case
    using mb_sorted_distinct [of st "ExpDate_ID e"]
    by (auto simp: mock_backend_def MB_ListIssuersForExpirationDate_def mb_issuers_def)
qed

section \<open>Properties\<close>

text \<open>
  Allocating a bucket for an issuer keeps the bucket's issuers strictly sorted by identifier
  and adds exactly that issuer; listing the bucket afterwards gives each allocated issuer once.
\<close>

theorem MB_Allocate_lists_once:
  assumes "mb_sorted st"
  shows "case MB_AllocateExpDateAndIssuer e i st of (er, st') \<Rightarrow>
    er = None \<and> mb_sorted st'
    \<and> (case MB_ListIssuersForExpirationDate e st' of ((l, er'), st'') \<Rightarrow>
        er' = None \<and> st'' = st' \<and> distinct (map iss_id l)
        \<and> iss_id ` set l = insert (iss_id i) (mb_issuers st (ExpDate_ID e)))"
proof -
  obtain er st' where a: "MB_AllocateExpDateAndIssuer e i st = (er, st')" by fastforce
  note m = MB_Allocate_spec [OF assms a]
  then have "iss_id ` set (gm_list (expDateToIssuer st') (ExpDate_ID e)) = insert (iss_id i) (mb_issuers st (ExpDate_ID e))"
    by (metis fun_upd_same mb_issuers_def)
  then show ?thesis
    using a m mb_sorted_distinct [of st' "ExpDate_ID e"] by (simp add: MB_ListIssuersForExpirationDate_def)
qed

theorem MB_Allocate_lists_once_witness:
  "case MB_AllocateExpDateAndIssuer sample_bucket (NewIssuerFromString ''i'') NewMockBackend of (er, st') \<Rightarrow>
    er = None \<and> mb_sorted st'"
proof -
  have "mb_sorted NewMockBackend" by (simp add: mb_sorted_def NewMockBackend_def)
  from MB_Allocate_lists_once [OF this, where e = sample_bucket and i = "NewIssuerFromString ''i''"]
  show ?thesis by (auto split: prod.splits)
qed

lemma mb_dates_hour_fails:
  "\<lbrakk>key \<in> set keys; length key \<noteq> 10\<rbrakk> \<Longrightarrow> snd (mb_dates nb keys dates) \<noteq> None"
proof (induction nb keys dates rule: mb_dates.induct)
  case (2 nb k ks dates)
  show ?case
  proof (cases "k = key")
    case True
    then have "\<exists>err. Parse_day k = Inl err"
      using "2.prems"(2) Parse_day_length by (cases "Parse_day k") auto
    then show ?thesis by auto
  next
    case False
    then show ?thesis using 2 by (auto split: sum.splits)
  qed
qed simp

text \<open>
  Listing the expiration dates fails as soon as any bucket was allocated for an hour, as
  every certificate stored through the database allocates: the keys are read with the day format
  only.
\<close>

theorem MB_ListExpirationDates_hours:
  assumes "rearranges ord" and "e \<in> fst ` set (expDateToIssuer st)" and "length e = 13"
  shows "\<exists>dates err. MB_ListExpirationDates ord nb st = ((dates, Some err), st)"
proof -
  have "e \<in> set (ord (map fst (expDateToIssuer st)))" using assms(1,2) by (simp add: rearranges_set)
  then have "snd (mb_dates (day_start nb) (ord (map fst (expDateToIssuer st))) []) \<noteq> None"
    by (rule mb_dates_hour_fails) (simp add: assms(3))
  then show ?thesis by (metis MB_ListExpirationDates_def not_None_eq prod.collapse)
qed

theorem MB_ListExpirationDates_hours_witness:
  "\<exists>dates err. MB_ListExpirationDates rev (utc 0)
      (NewMockBackend\<lparr>expDateToIssuer := [(''2029-01-30-04'', [])]\<rparr>)
    = ((dates, Some err), NewMockBackend\<lparr>expDateToIssuer := [(''2029-01-30-04'', [])]\<rparr>)"
  by (rule MB_ListExpirationDates_hours [where e = "''2029-01-30-04''"]) auto

end
