(* ===== verification/Filesystem_Database.thy ===== *)
theory Filesystem_Database
  imports Redis_Model Storage_Backends
begin

text \<open>
  \<^verbatim>\<open>storage/filesystemdatabase.go\<close>: the database that joins a storage backend, a remote
  cache and the per-issuer state of the process.
\<close>

section \<open>State\<close>

text \<open>
  \<^verbatim>\<open>gcache\<close> is a third-party cache that may forget entries at any time: a parameter with
  its own state. Its values are pointers to \<^verbatim>\<open>KnownCertificates\<close>, positions in the list of
  all the objects allocated so far; \<^verbatim>\<open>meta\<close> points into the list of issuer metadata.
\<close>

record 'g gcache =
  gc_GetIFPresent :: "string \<Rightarrow> 'g \<Rightarrow> nat res \<times> 'g"
  gc_Set :: "string \<Rightarrow> nat \<Rightarrow> 'g \<Rightarrow> go_error option \<times> 'g"

abbreviation KeyNotFoundError :: go_error where
  "KeyNotFoundError \<equiv> External ''Key not found.''"

record ('b, 'c, 'g) FilesystemDatabase =
  fs_backend :: 'b
  extCache :: 'c
  knownCertsCache :: 'g
  kc_heap :: "KnownCertificates list"
  meta :: "(string, nat) gomap"
  im_heap :: "IssuerMetadata list"

definition NewFilesystemDatabase :: "'b \<Rightarrow> 'c \<Rightarrow> 'g \<Rightarrow> ('b, 'c, 'g) FilesystemDatabase ret" where
  "NewFilesystemDatabase aBackend aExtCache emptyCache =
     (\<lparr>fs_backend = aBackend, extCache = aExtCache, knownCertsCache = emptyCache,
       kc_heap = [], meta = [], im_heap = []\<rparr>, None)"

text \<open>The code the database calls.\<close>

record ('b, 'c, 'g) fs_deps =
  dep_backend :: "'b StorageBackend"
  dep_cache :: "'c RemoteCache"
  dep_known :: "'g gcache"
  dep_url :: url_parser

section \<open>Issuers and buckets\<close>

definition GetIssuerMetadata ::
    "Issuer \<Rightarrow> ('b, 'c, 'g) FilesystemDatabase \<Rightarrow> nat \<times> ('b, 'c, 'g) FilesystemDatabase" where
  "GetIssuerMetadata aIssuer db =
     (case gm_get (meta db) (iss_id aIssuer) of
        Some im \<Rightarrow> (im, db)
      | None \<Rightarrow>
          (let im = length (im_heap db)
           in (im, db\<lparr>im_heap := im_heap db @ [NewIssuerMetadata aIssuer],
                      meta := gm_set (iss_id aIssuer) im (meta db)\<rparr>)))"

definition GetKnownCertificates ::
    "'g gcache \<Rightarrow> ExpDate \<Rightarrow> Issuer \<Rightarrow> ('b, 'c, 'g) FilesystemDatabase
      \<Rightarrow> (nat \<times> ('b, 'c, 'g) FilesystemDatabase) outcome" where
  "GetKnownCertificates gc aExpDate aIssuer db =
     (let ident = ExpDate_ID aExpDate @ iss_id aIssuer
      in case gc_GetIFPresent gc ident (knownCertsCache db) of
           (Inl err, g) \<Rightarrow>
             (if err = KeyNotFoundError
              then let kc = length (kc_heap db);
                       db = db\<lparr>knownCertsCache := g, kc_heap := kc_heap db @ [NewKnownCertificates aExpDate aIssuer]\<rparr>
                   in (case gc_Set gc ident kc (knownCertsCache db) of
                         (Some err, g) \<Rightarrow> Panic ''Couldn't set into the cache''
                       | (None, g) \<Rightarrow> Done (kc, db\<lparr>knownCertsCache := g\<rparr>))
              else Panic ''Couldn't load from cache'')
         | (Inr kc, g) \<Rightarrow> Done (kc, db\<lparr>knownCertsCache := g\<rparr>))"

definition fs_ListExpirationDates ::
    "'b StorageBackend \<Rightarrow> gotime \<Rightarrow> ('b, 'c, 'g) FilesystemDatabase
      \<Rightarrow> ExpDate list ret \<times> ('b, 'c, 'g) FilesystemDatabase" where
  "fs_ListExpirationDates sb aNotBefore db =
     (case sb_ListExpirationDates sb aNotBefore (fs_backend db) of (r, b) \<Rightarrow> (r, db\<lparr>fs_backend := b\<rparr>))"

definition fs_ListIssuersForExpirationDate ::
    "'b StorageBackend \<Rightarrow> ExpDate \<Rightarrow> ('b, 'c, 'g) FilesystemDatabase
      \<Rightarrow> Issuer list ret \<times> ('b, 'c, 'g) FilesystemDatabase" where
  "fs_ListIssuersForExpirationDate sb expDate db =
     (case sb_ListIssuersForExpirationDate sb expDate (fs_backend db) of (r, b) \<Rightarrow> (r, db\<lparr>fs_backend := b\<rparr>))"

text \<open>
  The keys received are gathered per issuer in a map, visited at the end in the unspecified order
  \<open>ord\<close>. An error of the cache ends the process; a key of another shape is an error, and leaves
  the sending goroutine blocked.
\<close>

type_synonym issuer_dates = "(string, IssuerDate) gomap"

fun gather_keys :: "string list \<Rightarrow> issuer_dates \<Rightarrow> issuer_dates res" where
  "gather_keys [] issuerMap = Inr issuerMap"
| "gather_keys (entry # entries) issuerMap =
     (let parts = strings_split ''::'' entry
      in if length parts \<noteq> 3 then Inl (Errorf (''Unexpected key format: '' @ entry))
         else let issuer = NewIssuerFromString (parts ! 2)
              in case NewExpDate (parts ! 1) of
                   Inl err \<Rightarrow> gather_keys entries issuerMap
                 | Inr expDate \<Rightarrow>
                     (let issuerMap =
                            (if gm_get issuerMap (iss_id issuer) = None
                             then gm_set (iss_id issuer) \<lparr>idt_Issuer = issuer, idt_ExpDates = []\<rparr> issuerMap
                             else issuerMap);
                          tmp = the (gm_get issuerMap (iss_id issuer));
                          tmp = tmp\<lparr>idt_ExpDates := idt_ExpDates tmp @ [expDate]\<rparr>
                      in gather_keys entries (gm_set (iss_id issuer) tmp issuerMap)))"

definition GetIssuerAndDatesFromCache ::
    "'c RemoteCache \<Rightarrow> (issuer_dates \<Rightarrow> issuer_dates) \<Rightarrow> ('b, 'c, 'g) FilesystemDatabase
      \<Rightarrow> (IssuerDate list ret \<times> ('b, 'c, 'g) FilesystemDatabase) outcome" where
  "GetIssuerAndDatesFromCache rc ord db =
     outcome_bind (rc_KeysToChan rc ''serials::*'' (extCache db)) (\<lambda>((sent, err), c).
       case err of
         Some e \<Rightarrow> Panic ''Couldn't list from cache''
       | None \<Rightarrow>
           (case gather_keys sent [] of
              Inl e \<Rightarrow> Done (([], Some e), db\<lparr>extCache := c\<rparr>)
            | Inr issuerMap \<Rightarrow> Done ((map snd (ord issuerMap), None), db\<lparr>extCache := c\<rparr>)))"

section \<open>Log states\<close>

definition SaveLogState ::
    "('b, 'c, 'g) fs_deps \<Rightarrow> CertificateLog \<Rightarrow> ('b, 'c, 'g) FilesystemDatabase
      \<Rightarrow> (go_error option \<times> ('b, 'c, 'g) FilesystemDatabase) outcome" where
  "SaveLogState deps aLogObj db =
     outcome_bind (rc_StoreLogState (dep_cache deps) aLogObj (extCache db)) (\<lambda>((_, warning), c).
       case sb_StoreLogState (dep_backend deps) aLogObj (fs_backend db) of
         (err, b) \<Rightarrow> Done (err, db\<lparr>extCache := c, fs_backend := b\<rparr>))"

text \<open>\<open>host\<close> and \<open>path\<close> are the fields of the URL that the code reads.\<close>

definition GetLogState ::
    "('b, 'c, 'g) fs_deps \<Rightarrow> string \<Rightarrow> string \<Rightarrow> ('b, 'c, 'g) FilesystemDatabase
      \<Rightarrow> (CertificateLog ret \<times> ('b, 'c, 'g) FilesystemDatabase) outcome" where
  "GetLogState deps host path db =
     (let shortUrl = host @ path
      in outcome_bind (rc_LoadLogState (dep_cache deps) shortUrl (extCache db)) (\<lambda>((log, cacheErr), c).
           let db = db\<lparr>extCache := c\<rparr> in
           case log of
             Some l \<Rightarrow> Done ((l, cacheErr), db)
           | None \<Rightarrow>
               (case sb_LoadLogState (dep_backend deps) shortUrl (fs_backend db) of
                  ((log, backendErr), b) \<Rightarrow>
                    (let db = db\<lparr>fs_backend := b\<rparr> in
                     case log of
                       Some l \<Rightarrow> Done ((l, backendErr), db)
                     | None \<Rightarrow> Done ((blank_log shortUrl, None), db)))))"

section \<open>Storing a certificate\<close>

definition markDirty ::
    "'b StorageBackend \<Rightarrow> gotime \<Rightarrow> ('b, 'c, 'g) FilesystemDatabase
      \<Rightarrow> go_error option \<times> ('b, 'c, 'g) FilesystemDatabase" where
  "markDirty sb aExpiration db =
     (let subdirName = Format_day aExpiration
      in case sb_MarkDirty sb subdirName (fs_backend db) of (err, b) \<Rightarrow> (err, db\<lparr>fs_backend := b\<rparr>))"

definition getSpki :: "Certificate \<Rightarrow> SPKI" where
  "getSpki aCert =
     (if length (SubjectKeyId aCert) < 8 then SPKI (sha1 (RawSubjectPublicKeyInfo aCert))
      else SPKI (SubjectKeyId aCert))"

text \<open>The last step of \<^verbatim>\<open>Store\<close>, on every path that does not return an error before it.\<close>

definition store_finish ::
    "('b, 'c, 'g) fs_deps \<Rightarrow> Certificate \<Rightarrow> ('b, 'c, 'g) FilesystemDatabase
      \<Rightarrow> (go_error option \<times> ('b, 'c, 'g) FilesystemDatabase) outcome" where
  "store_finish deps aCert db = Done (markDirty (dep_backend deps) (NotAfter aCert) db)"

text \<open>The body of the branch for a certificate that was unknown.\<close>

definition store_unknown ::
    "('b, 'c, 'g) fs_deps \<Rightarrow> Certificate \<Rightarrow> ExpDate \<Rightarrow> Issuer \<Rightarrow> Serial \<Rightarrow> ('b, 'c, 'g) FilesystemDatabase
      \<Rightarrow> (go_error option \<times> ('b, 'c, 'g) FilesystemDatabase) outcome" where
  "store_unknown deps aCert expDate issuer serialNum db =
     (case GetIssuerMetadata issuer db of (im, db) \<Rightarrow>
      outcome_bind (Accumulate (dep_url deps) (dep_cache deps) (im_heap db ! im) aCert (extCache db))
        (\<lambda>((issuerDateSeenBefore, err), im', c).
          let db = db\<lparr>im_heap := (im_heap db)[im := im'], extCache := c\<rparr> in
          case err of
            Some e \<Rightarrow> Done (Some e, db)
          | None \<Rightarrow>
              (case (if \<not> issuerDateSeenBefore
                     then sb_AllocateExpDateAndIssuer (dep_backend deps) expDate issuer (fs_backend db)
                     else (None, fs_backend db)) of
                 (errAlloc, b) \<Rightarrow>
                   (let db = db\<lparr>fs_backend := b\<rparr> in
                    case errAlloc of
                      Some e \<Rightarrow> Done (Some e, db)
                    | None \<Rightarrow>
                        (case sb_StoreCertificatePEM (dep_backend deps) serialNum expDate issuer
                                (pem_EncodeToMemory ''CERTIFICATE'' (Raw aCert)) (fs_backend db) of
                           (errStore, b) \<Rightarrow>
                             (let db = db\<lparr>fs_backend := b\<rparr> in
                              case errStore of
                                Some e \<Rightarrow> Done (Some e, db)
                              | None \<Rightarrow> store_finish deps aCert db))))))"

definition Store ::
    "('b, 'c, 'g) fs_deps \<Rightarrow> Certificate \<Rightarrow> Certificate \<Rightarrow> string \<Rightarrow> int \<Rightarrow> ('b, 'c, 'g) FilesystemDatabase
      \<Rightarrow> (go_error option \<times> ('b, 'c, 'g) FilesystemDatabase) outcome" where
  "Store deps aCert aIssuer aLogURL aEntryId db =
     (let expDate = NewExpDateFromTime (NotAfter aCert);
          issuer = NewIssuer aIssuer
      in outcome_bind (GetKnownCertificates (dep_known deps) expDate issuer db) (\<lambda>(kc, db).
         outcome_bind (NewSerial aCert) (\<lambda>serialNum.
         outcome_bind (WasUnknown (dep_cache deps) (kc_heap db ! kc) serialNum (extCache db))
           (\<lambda>((certWasUnknown, err), kc', c).
             let db = db\<lparr>kc_heap := (kc_heap db)[kc := kc'], extCache := c\<rparr> in
             case err of
               Some e \<Rightarrow> Done (Some e, db)
             | None \<Rightarrow>
                 (if certWasUnknown then store_unknown deps aCert expDate issuer serialNum db
                  else store_finish deps aCert db)))))"

definition fs_Cleanup :: "('b, 'c, 'g) FilesystemDatabase \<Rightarrow> go_error option \<times> ('b, 'c, 'g) FilesystemDatabase" where
  "fs_Cleanup db = (None, db)"

section \<open>The objects the database hands out\<close>

text \<open>What is assumed of \<^verbatim>\<open>gcache\<close>: it returns what was set, or nothing.\<close>

definition gcache_laws :: "'g gcache \<Rightarrow> ('g \<Rightarrow> string \<Rightarrow> nat option) \<Rightarrow> bool" where
  "gcache_laws gc held \<longleftrightarrow>
     (\<forall>k g. case gc_GetIFPresent gc k g of (r, g') \<Rightarrow>
        (r = Inl KeyNotFoundError \<or> (\<exists>p. r = Inr p \<and> held g k = Some p)) \<and> held g' \<subseteq>\<^sub>m held g)
   \<and> (\<forall>k p g. case gc_Set gc k p g of (er, g') \<Rightarrow> er = None \<and> held g' \<subseteq>\<^sub>m (held g)(k \<mapsto> p))"

text \<open>
  Every held pointer is allocated and points to the object of its key, and the buckets are hour
  buckets: their identifiers have 13 characters, so the concatenated keys are unambiguous.
\<close>

definition fs_ok :: "('g \<Rightarrow> string \<Rightarrow> nat option) \<Rightarrow> ('b, 'c, 'g) FilesystemDatabase \<Rightarrow> bool" where
  "fs_ok held db \<longleftrightarrow>
     (\<forall>ident p. held (knownCertsCache db) ident = Some p \<longrightarrow> p < length (kc_heap db) \<and>
        ident = ExpDate_ID (kc_expDate (kc_heap db ! p)) @ iss_id (kc_issuer (kc_heap db ! p)) \<and>
        length (ExpDate_ID (kc_expDate (kc_heap db ! p))) = 13)
   \<and> (\<forall>ident p. gm_get (meta db) ident = Some p \<longrightarrow> p < length (im_heap db) \<and> im_id (im_heap db ! p) = ident)"

lemma fs_ok_update [simp]:
  "fs_ok held (db\<lparr>fs_backend := b\<rparr>) = fs_ok held db"
  "fs_ok held (db\<lparr>extCache := c\<rparr>) = fs_ok held db"
  by (simp_all add: fs_ok_def)

lemma fs_ok_im:
  "fs_ok held db \<Longrightarrow> im_issuer im' = im_issuer (im_heap db ! p) \<Longrightarrow> fs_ok held (db\<lparr>im_heap := (im_heap db)[p := im']\<rparr>)"
  by (cases "p < length (im_heap db)") (auto simp: fs_ok_def im_id_def nth_list_update list_update_beyond)

lemma fs_ok_kc:
  "fs_ok held db \<Longrightarrow> kc' = (kc_heap db ! p)\<lparr>kc_expirySet := x\<rparr> \<Longrightarrow> fs_ok held (db\<lparr>kc_heap := (kc_heap db)[p := kc']\<rparr>)"
  by (cases "p < length (kc_heap db)") (auto simp: fs_ok_def nth_list_update list_update_beyond)

lemma serialId_New:
  "serialId kc [] = ''serials::'' @ ExpDate_ID (kc_expDate kc) @ ''::'' @ iss_id (kc_issuer kc)"
  by (simp add: serialId_def kc_id_def)

lemma GetKnownCertificates_spec:
  assumes "gcache_laws gc held" and "fs_ok held db" and "length (ExpDate_ID e) = 13"
  obtains p g h where "GetKnownCertificates gc e i db = Done (p, db\<lparr>knownCertsCache := g, kc_heap := h\<rparr>)"
    and "p < length h" and "serialId (h ! p) [] = serialId (NewKnownCertificates e i) []"
    and "fs_ok held (db\<lparr>knownCertsCache := g, kc_heap := h\<rparr>)"
proof -
  let ?id = "ExpDate_ID e @ iss_id i"
  obtain r g where g: "gc_GetIFPresent gc ?id (knownCertsCache db) = (r, g)" by fastforce
  then have r: "r = Inl KeyNotFoundError \<or> (\<exists>p. r = Inr p \<and> held (knownCertsCache db) ?id = Some p)"
    and sub: "held g \<subseteq>\<^sub>m held (knownCertsCache db)"
    using assms(1) unfolding gcache_laws_def by (auto dest!: spec [of _ ?id] spec [of _ "knownCertsCache db"])
  from r show ?thesis
  proof (elim disjE exE conjE)
    fix p assume p: "r = Inr p" "held (knownCertsCache db) ?id = Some p"
    have k: "p < length (kc_heap db)" "?id = ExpDate_ID (kc_expDate (kc_heap db ! p)) @ iss_id (kc_issuer (kc_heap db ! p))"
      "length (ExpDate_ID (kc_expDate (kc_heap db ! p))) = 13"
      using assms(2) p(2) by (auto simp: fs_ok_def)
    then have "ExpDate_ID (kc_expDate (kc_heap db ! p)) = ExpDate_ID e" "iss_id (kc_issuer (kc_heap db ! p)) = iss_id i"
      using assms(3) by auto
    then have "serialId (kc_heap db ! p) [] = serialId (NewKnownCertificates e i) []"
      by (simp add: serialId_New NewKnownCertificates_def)
    moreover have "fs_ok held (db\<lparr>knownCertsCache := g, kc_heap := kc_heap db\<rparr>)"
      using assms(2) sub unfolding fs_ok_def map_le_def by (simp add: dom_def) (metis option.distinct(1))
    ultimately show ?thesis
      using that [where p = p and g = g and h = "kc_heap db"] g p(1) k(1) by (simp add: GetKnownCertificates_def)
  next
    assume n: "r = Inl KeyNotFoundError"
    let ?p = "length (kc_heap db)" and ?h = "kc_heap db @ [NewKnownCertificates e i]"
    obtain er g' where s: "gc_Set gc ?id ?p g = (er, g')" by fastforce
    then have er: "er = None" and sub': "held g' \<subseteq>\<^sub>m (held g)(?id \<mapsto> ?p)"
      using assms(1) unfolding gcache_laws_def by (auto dest!: spec [of _ ?id] spec [of _ ?p] spec [of _ g])
    have h: "held (knownCertsCache db) k = Some q" if "held g' k = Some q" "k \<noteq> ?id" for k q
      using that sub sub' unfolding map_le_def dom_def by (metis (mono_tags, lifting) fun_upd_apply mem_Collect_eq option.distinct(1))
    have h': "q = ?p" if "held g' ?id = Some q" for q
      using that sub' unfolding map_le_def dom_def by (metis (mono_tags, lifting) fun_upd_same mem_Collect_eq option.distinct(1) option.inject)
    have "fs_ok held (db\<lparr>knownCertsCache := g', kc_heap := ?h\<rparr>)"
      unfolding fs_ok_def
    proof (rule conjI; intro allI impI)
      fix k q assume kq: "held (knownCertsCache (db\<lparr>knownCertsCache := g', kc_heap := ?h\<rparr>)) k = Some q"
      show "q < length (kc_heap (db\<lparr>knownCertsCache := g', kc_heap := ?h\<rparr>)) \<and>
        k = ExpDate_ID (kc_expDate (kc_heap (db\<lparr>knownCertsCache := g', kc_heap := ?h\<rparr>) ! q))
          @ iss_id (kc_issuer (kc_heap (db\<lparr>knownCertsCache := g', kc_heap := ?h\<rparr>) ! q)) \<and>
        length (ExpDate_ID (kc_expDate (kc_heap (db\<lparr>knownCertsCache := g', kc_heap := ?h\<rparr>) ! q))) = 13"
      proof (cases "k = ?id")
        case True
        then show ?thesis using h' kq assms(3) by (auto simp: NewKnownCertificates_def)
      next
        case False
        with kq have "held (knownCertsCache db) k = Some q" by (intro h) simp_all
        then show ?thesis using assms(2) unfolding fs_ok_def by (auto simp: nth_append intro!: less_SucI)
      qed
    qed (use assms(2) in \<open>auto simp: fs_ok_def\<close>)
    then show ?thesis
      using that [where p = ?p and g = g' and h = ?h] g n s er by (simp add: GetKnownCertificates_def Let_def)
  qed
qed

lemma GetIssuerMetadata_spec:
  assumes "fs_ok held db"
  obtains p m h where "GetIssuerMetadata i db = (p, db\<lparr>meta := m, im_heap := h\<rparr>)"
    and "p < length h" and "im_id (h ! p) = iss_id i" and "fs_ok held (db\<lparr>meta := m, im_heap := h\<rparr>)"
    and "h = im_heap db \<or> h = im_heap db @ [NewIssuerMetadata i]"
proof (cases "gm_get (meta db) (iss_id i)")
  case (Some p)
  then show ?thesis
    using that [where p = p and m = "meta db" and h = "im_heap db"] assms by (auto simp: GetIssuerMetadata_def fs_ok_def)
next
  case None
  let ?h = "im_heap db @ [NewIssuerMetadata i]" and ?p = "length (im_heap db)"
  have "fs_ok held (db\<lparr>meta := gm_set (iss_id i) ?p (meta db), im_heap := ?h\<rparr>)"
    using assms by (auto simp: fs_ok_def nth_append im_id_def NewIssuerMetadata_def intro!: less_SucI)
  then show ?thesis
    using that [where p = ?p and m = "gm_set (iss_id i) ?p (meta db)" and h = ?h] None
    by (simp add: GetIssuerMetadata_def Let_def im_id_def NewIssuerMetadata_def)
qed

section \<open>Storing on the in-memory cache and backend\<close>

abbreviation mock_deps ::
    "log_json \<Rightarrow> (string list \<Rightarrow> string list) \<Rightarrow> 'g gcache \<Rightarrow> url_parser \<Rightarrow> (MockBackend, mock_world, 'g) fs_deps" where
  "mock_deps js ord gc url_Parse \<equiv>
     \<lparr>dep_backend = mock_backend js ord, dep_cache = mock_cache js, dep_known = gc, dep_url = url_Parse\<rparr>"

type_synonym 'g mock_db = "(MockBackend, mock_world, 'g) FilesystemDatabase"

definition serials_key :: "string \<Rightarrow> string \<Rightarrow> string" where
  "serials_key e i = ''serials::'' @ e @ ''::'' @ i"

definition recorded :: "'g mock_db \<Rightarrow> cert_key \<Rightarrow> bool" where
  "recorded db k = (case k of (e, i, n) \<Rightarrow> BinaryString n \<in> mock_contents (snd (extCache db)) (serials_key e i))"

text \<open>Every bucket that the metadata of an issuer remembers has been allocated for the issuer.\<close>

definition allocated :: "'g mock_db \<Rightarrow> bool" where
  "allocated db \<longleftrightarrow> (\<forall>im \<in> set (im_heap db). \<forall>x \<in> knownExpDates im. im_id im \<in> mb_issuers (fs_backend db) x)"

text \<open>
  The invariant: every certificate recorded as known has its text stored and its issuer listed.
\<close>

definition db_inv :: "('g \<Rightarrow> string \<Rightarrow> nat option) \<Rightarrow> 'g mock_db \<Rightarrow> bool" where
  "db_inv held db \<longleftrightarrow> world_ok (extCache db) \<and> mb_sorted (fs_backend db) \<and> fs_ok held db \<and> allocated db
     \<and> (\<forall>k. mb_key_ok k \<longrightarrow> recorded db k \<longrightarrow>
          mb_pem (fs_backend db) k \<noteq> None \<and> fst (snd k) \<in> mb_issuers (fs_backend db) (fst k))"

lemma serials_key_other [simp]:
  "serials_key e i \<noteq> crlId im" "serials_key e i \<noteq> issuersId im"
  by (simp_all add: serials_key_def crlId_def issuersId_def)

text \<open>The keys of the issuer metadata, and the keys that are none of the database's own.\<close>

definition issuer_key :: "string \<Rightarrow> bool" where
  "issuer_key k \<longleftrightarrow> prefix ''crl::'' k \<or> prefix ''issuer::'' k"

definition log_key :: "string \<Rightarrow> bool" where
  "log_key k \<longleftrightarrow> \<not> issuer_key k \<and> \<not> prefix ''serials::'' k"

lemma issuer_key_simps [simp]:
  "issuer_key (crlId im)" "issuer_key (issuersId im)" "\<not> issuer_key (serials_key e i)"
  by (simp_all add: issuer_key_def serials_key_def crlId_def issuersId_def)

lemma log_key_other: "log_key k \<Longrightarrow> k \<noteq> serials_key e i \<and> \<not> issuer_key k"
  by (auto simp: log_key_def serials_key_def)

lemma serialId_key: "serialId kc [] = serials_key (ExpDate_ID (kc_expDate kc)) (iss_id (kc_issuer kc))"
  by (simp add: serials_key_def serialId_New)

lemma serials_key_inject:
  "mb_key_ok (e, i, n) \<Longrightarrow> mb_key_ok (e', i', n') \<Longrightarrow> serials_key e i = serials_key e' i' \<longleftrightarrow> e = e' \<and> i = i'"
  by (auto simp: serials_key_def mb_key_ok_def)

lemma MB_StorePEM_spec:
  assumes "mb_key_ok (cert_key e i n)"
  obtains st' where "MB_StoreCertificatePEM n e i b st = (None, st')" and "expDateToIssuer st' = expDateToIssuer st"
    and "\<And>k. mb_key_ok k \<Longrightarrow> mb_pem st' k = (if k = cert_key e i n then Some b else mb_pem st k)"
proof -
  obtain st' where s: "MB_StoreCertificatePEM n e i b st = (None, st')" "expDateToIssuer st' = expDateToIssuer st"
    by (simp add: MB_StoreCertificatePEM_def Let_def)
  then have "sb_StoreCertificatePEM (mock_backend undefined undefined) n e i b st = (None, st')"
    by (simp add: mock_backend_def)
  from mock_store.StorePEM [OF this assms] show ?thesis by (intro that [OF s]) auto
qed

lemma store_unknown_mock:
  fixes db :: "'g mock_db"
  assumes "world_ok (extCache db)" and "mb_sorted (fs_backend db)" and "fs_ok held db" and "allocated db"
    and e: "e = NewExpDateFromTime (NotAfter aCert)" and ok: "mb_key_ok (cert_key e i n)"
  obtains db' where
    "store_unknown (mock_deps js ord gc url_Parse) aCert e i n db = Done (None, db')"
    "world_ok (extCache db')" "mb_sorted (fs_backend db')" "fs_ok held db'" "allocated db'"
    "\<And>k. \<not> issuer_key k \<Longrightarrow> mock_contents (snd (extCache db')) k = mock_contents (snd (extCache db)) k"
    "\<And>k. mb_key_ok k \<Longrightarrow> mb_pem (fs_backend db') k =
       (if k = cert_key e i n then Some (pem_EncodeToMemory ''CERTIFICATE'' (Raw aCert)) else mb_pem (fs_backend db) k)"
    "mb_issuers (fs_backend db') = (mb_issuers (fs_backend db))(ExpDate_ID e := insert (iss_id i) (mb_issuers (fs_backend db) (ExpDate_ID e)))"
proof -
  let ?x = "ExpDate_ID e" and ?st = "fs_backend db"
  obtain p m h where g: "GetIssuerMetadata i db = (p, db\<lparr>meta := m, im_heap := h\<rparr>)"
    and p: "p < length h" "im_id (h ! p) = iss_id i" and f: "fs_ok held (db\<lparr>meta := m, im_heap := h\<rparr>)"
    and h: "h = im_heap db \<or> h = im_heap db @ [NewIssuerMetadata i]"
    using GetIssuerMetadata_spec [OF assms(3)] .
  have al: "\<forall>im \<in> set h. \<forall>y \<in> knownExpDates im. im_id im \<in> mb_issuers ?st y"
    using assms(4) h by (auto simp: allocated_def NewIssuerMetadata_def)
  obtain im' w' where a: "Accumulate url_Parse (mock_cache js) (h ! p) aCert (extCache db)
        = Done ((?x \<in> knownExpDates (h ! p), None), im', w')"
    and w': "world_ok w'" and x: "knownExpDates im' = insert ?x (knownExpDates (h ! p))" and im': "im_issuer im' = im_issuer (h ! p)"
    and c: "\<And>k. \<not> issuer_key k \<Longrightarrow> mock_contents (snd w') k = mock_contents (snd (extCache db)) k"
    using Accumulate_mock [OF assms(1), of url_Parse js "h ! p" aCert] unfolding e [symmetric]
    by (elim exE conjE) (rule that, assumption, assumption, assumption, assumption, auto)
  obtain st1 where s1: "(if ?x \<notin> knownExpDates (h ! p) then MB_AllocateExpDateAndIssuer e i ?st else (None, ?st)) = (None, st1)"
    and st1: "mb_sorted st1" "mb_store st1 = mb_store ?st"
      "mb_issuers st1 = (mb_issuers ?st)(?x := insert (iss_id i) (mb_issuers ?st ?x))"
  proof (cases "?x \<in> knownExpDates (h ! p)")
    case True
    then have "iss_id i \<in> mb_issuers ?st ?x" using al p nth_mem [of p h] by metis
    then show ?thesis using True assms(2) that [of ?st] by (simp add: insert_absorb)
  next
    case False
    obtain er st1 where s: "MB_AllocateExpDateAndIssuer e i ?st = (er, st1)" by fastforce
    from MB_Allocate_spec [OF assms(2) s] show ?thesis using False s that [of st1] by simp
  qed
  obtain st2 where s2: "MB_StoreCertificatePEM n e i (pem_EncodeToMemory ''CERTIFICATE'' (Raw aCert)) st1 = (None, st2)"
    and st2: "expDateToIssuer st2 = expDateToIssuer st1"
      "\<And>k. mb_key_ok k \<Longrightarrow> mb_pem st2 k =
        (if k = cert_key e i n then Some (pem_EncodeToMemory ''CERTIFICATE'' (Raw aCert)) else mb_pem st1 k)"
    using MB_StorePEM_spec [OF ok] by blast
  define db' where "db' = db\<lparr>meta := m, im_heap := h[p := im'], extCache := w', fs_backend := st2\<rparr>"
  have is2: "mb_issuers st2 = mb_issuers st1" "mb_sorted st2 = mb_sorted st1"
    using st2(1) by (simp_all add: mb_issuers_def mb_sorted_def fun_eq_iff)
  show ?thesis
  proof (rule that [of db'])
    show "store_unknown (mock_deps js ord gc url_Parse) aCert e i n db = Done (None, db')"
      using s1 s2 by (cases "?x \<in> knownExpDates (h ! p)")
        (simp_all add: store_unknown_def g a Let_def mock_backend_def store_finish_def markDirty_def MB_MarkDirty_def db'_def)
    show "world_ok (extCache db')" "mb_sorted (fs_backend db')" using w' st1(1) is2 by (simp_all add: db'_def)
    have "fs_ok held ((db\<lparr>meta := m, im_heap := h\<rparr>)\<lparr>im_heap := h[p := im']\<rparr>)"
      using fs_ok_im [OF f, of im' p] im' by simp
    then show "fs_ok held db'" by (simp add: db'_def fs_ok_def)
    show "allocated db'"
      unfolding allocated_def
    proof (intro ballI)
      fix im y assume im: "im \<in> set (im_heap db')" and y: "y \<in> knownExpDates im"
      show "im_id im \<in> mb_issuers (fs_backend db') y"
      proof (cases "im = im'")
        case True
        then have "y = ?x \<or> im_id (h ! p) \<in> mb_issuers ?st y" using y x al p(1) nth_mem by fastforce
        moreover have "im_id im = iss_id i" using True im' p(2) by (simp add: im_id_def)
        ultimately show ?thesis using p(2) is2 st1(3) by (auto simp: db'_def)
      next
        case False
        then have "im \<in> set h" using im set_update_subset_insert [of h p im'] by (auto simp: db'_def)
        then show ?thesis using al y is2 st1(3) by (auto simp: db'_def)
      qed
    qed
    show "mock_contents (snd (extCache db')) k = mock_contents (snd (extCache db)) k" if "\<not> issuer_key k" for k
      using c [OF that] by (simp add: db'_def)
    show "mb_pem (fs_backend db') k =
       (if k = cert_key e i n then Some (pem_EncodeToMemory ''CERTIFICATE'' (Raw aCert)) else mb_pem (fs_backend db) k)"
      if "mb_key_ok k" for k
      using st2(2) [OF that] st1(2) by (simp add: db'_def mb_pem_def)
    show "mb_issuers (fs_backend db') = (mb_issuers (fs_backend db))(ExpDate_ID e := insert (iss_id i) (mb_issuers (fs_backend db) (ExpDate_ID e)))"
      using is2 st1(3) by (simp add: db'_def)
  qed
qed

text \<open>The keys of a stored certificate are unambiguous.\<close>

lemma length_hour_ID:
  assumes "t_off t = 0" and "year_4_digits t"
  shows "length (ExpDate_ID (NewExpDateFromTime t)) = 13"
  using assms by (simp add: ExpDate_ID_def length_Format_hour year_4_digits_hour_start)

lemma store_key_ok:
  "t_off (NotAfter c) = 0 \<Longrightarrow> year_4_digits (NotAfter c) \<Longrightarrow>
    mb_key_ok (cert_key (NewExpDateFromTime (NotAfter c)) (NewIssuer ca) n)"
  by (simp add: mb_key_ok_def length_hour_ID iss_id_NewIssuer_shape)

lemma Store_mock:
  fixes db :: "'g mock_db" and aCert aIssuer :: Certificate
  assumes laws: "gcache_laws gc held" and inv: "db_inv held db"
    and t: "t_off (NotAfter aCert) = 0" "year_4_digits (NotAfter aCert)" and sn: "NewSerial aCert = Done n"
  defines "e \<equiv> NewExpDateFromTime (NotAfter aCert)" and "i \<equiv> NewIssuer aIssuer"
  obtains db' where
    "Store (mock_deps js ord gc url_Parse) aCert aIssuer aLogURL aEntryId db = Done (None, db')" "db_inv held db'"
    "\<And>k. mb_key_ok k \<Longrightarrow> recorded db' k = (k = cert_key e i n \<or> recorded db k)"
    "\<And>k. mb_key_ok k \<Longrightarrow> mb_pem (fs_backend db') k =
       (if k = cert_key e i n \<and> \<not> recorded db k then Some (pem_EncodeToMemory ''CERTIFICATE'' (Raw aCert))
        else mb_pem (fs_backend db) k)"
    "\<And>k. log_key k \<Longrightarrow> mock_contents (snd (extCache db')) k = mock_contents (snd (extCache db)) k"
proof -
  let ?d = "mock_deps js ord gc url_Parse" and ?key = "serials_key (ExpDate_ID e) (iss_id i)"
  have ok: "mb_key_ok (cert_key e i n)" unfolding e_def i_def by (rule store_key_ok [OF t])
  have w: "world_ok (extCache db)" and srt: "mb_sorted (fs_backend db)" and fs: "fs_ok held db" and al: "allocated db"
    and rec: "\<And>k. mb_key_ok k \<Longrightarrow> recorded db k \<Longrightarrow>
      mb_pem (fs_backend db) k \<noteq> None \<and> fst (snd k) \<in> mb_issuers (fs_backend db) (fst k)"
    using inv unfolding db_inv_def by blast+
  have e13: "length (ExpDate_ID e) = 13" using ok by (simp add: mb_key_ok_def)
  obtain p g h where k: "GetKnownCertificates gc e i db = Done (p, db\<lparr>knownCertsCache := g, kc_heap := h\<rparr>)"
    and p: "p < length h" "serialId (h ! p) [] = serialId (NewKnownCertificates e i) []"
    and f: "fs_ok held (db\<lparr>knownCertsCache := g, kc_heap := h\<rparr>)"
    using GetKnownCertificates_spec [OF laws fs e13] .
  have key: "serialId (h ! p) [] = ?key"
    using p(2) by (simp add: serialId_key NewKnownCertificates_def)
  obtain w' where u: "WasUnknown (mock_cache js) (h ! p) n (extCache db)
      = Done ((BinaryString n \<notin> mock_contents (snd (extCache db)) ?key, None), (h ! p)\<lparr>kc_expirySet := True\<rparr>, w')"
    and w': "world_ok w'" "mock_contents (snd w') = (mock_contents (snd (extCache db)))(?key := insert (BinaryString n) (mock_contents (snd (extCache db)) ?key))"
    using WasUnknown_mock [OF w, of js "h ! p" n] unfolding key by blast
  define db1 where "db1 = db\<lparr>knownCertsCache := g, kc_heap := h[p := (h ! p)\<lparr>kc_expirySet := True\<rparr>], extCache := w'\<rparr>"
  have f1: "fs_ok held db1"
    using fs_ok_kc [OF f, where p = p and x = True] by (simp add: db1_def fs_ok_def)
  have w1: "world_ok (extCache db1)" and s1: "mb_sorted (fs_backend db1)"
    using w'(1) srt by (simp_all add: db1_def)
  have al1: "allocated db1" using al by (simp add: db1_def allocated_def)
  have new: "BinaryString n \<in> mock_contents (snd (extCache db)) ?key \<longleftrightarrow> recorded db (cert_key e i n)"
    by (simp add: recorded_def)
  have rec1: "recorded db1 k = (k = cert_key e i n \<or> recorded db k)" if "mb_key_ok k" for k
    using that ok serials_key_inject by (cases k) (auto simp: recorded_def db1_def w'(2))
  show ?thesis
  proof (cases "recorded db (cert_key e i n)")
    case True
    have "Store ?d aCert aIssuer aLogURL aEntryId db = Done (None, db1)"
      using True new by (simp add: Store_def Let_def e_def [symmetric] i_def [symmetric] k sn u store_finish_def
          markDirty_def mock_backend_def MB_MarkDirty_def db1_def)
    moreover have b1: "fs_backend db1 = fs_backend db" by (simp add: db1_def)
    moreover have "db_inv held db1"
      unfolding db_inv_def
    proof (intro conjI allI impI w1 s1 f1 al1)
      fix k assume k: "mb_key_ok k" "recorded db1 k"
      then have "recorded db k" using rec1 True by blast
      then show "mb_pem (fs_backend db1) k \<noteq> None" "fst (snd k) \<in> mb_issuers (fs_backend db1) (fst k)"
        using rec [OF k(1)] b1 by simp_all
    qed
    moreover have "mb_pem (fs_backend db1) k =
       (if k = cert_key e i n \<and> \<not> recorded db k then Some (pem_EncodeToMemory ''CERTIFICATE'' (Raw aCert))
        else mb_pem (fs_backend db) k)" for k
      using True b1 by auto
    moreover have "mock_contents (snd (extCache db1)) k = mock_contents (snd (extCache db)) k" if "log_key k" for k
      using log_key_other [OF that] by (simp add: db1_def w'(2))
    ultimately show ?thesis using that [of db1] rec1 by blast
  next
    case False
    obtain db' where s: "store_unknown ?d aCert e i n db1 = Done (None, db')"
      and w2: "world_ok (extCache db')" "mb_sorted (fs_backend db')" "fs_ok held db'" "allocated db'"
      and c2: "\<And>k. \<not> issuer_key k \<Longrightarrow> mock_contents (snd (extCache db')) k = mock_contents (snd (extCache db1)) k"
      and p2: "\<And>k. mb_key_ok k \<Longrightarrow> mb_pem (fs_backend db') k =
       (if k = cert_key e i n then Some (pem_EncodeToMemory ''CERTIFICATE'' (Raw aCert)) else mb_pem (fs_backend db1) k)"
      and i2: "mb_issuers (fs_backend db') = (mb_issuers (fs_backend db1))(ExpDate_ID e := insert (iss_id i) (mb_issuers (fs_backend db1) (ExpDate_ID e)))"
      using store_unknown_mock [OF w1 s1 f1 al1 e_def [THEN meta_eq_to_obj_eq] ok] by blast
    have "Store ?d aCert aIssuer aLogURL aEntryId db = Done (None, db')"
      using False new s by (simp add: Store_def Let_def e_def [symmetric] i_def [symmetric] k sn u db1_def)
    moreover have r2: "recorded db' k = (k = cert_key e i n \<or> recorded db k)" if "mb_key_ok k" for k
      using rec1 [OF that] c2 by (cases k) (simp add: recorded_def)
    moreover have b1: "fs_backend db1 = fs_backend db" by (simp add: db1_def)
    moreover have "db_inv held db'"
      unfolding db_inv_def
    proof (intro conjI allI impI w2)
      fix k assume k: "mb_key_ok k" "recorded db' k"
      show "mb_pem (fs_backend db') k \<noteq> None"
        using p2 [OF k(1)] r2 [OF k(1)] k(2) rec [OF k(1)] b1 by (simp split: if_splits)
      show "fst (snd k) \<in> mb_issuers (fs_backend db') (fst k)"
        using r2 [OF k(1)] k(2) rec [OF k(1)] b1 i2 by auto
    qed
    moreover have "mb_pem (fs_backend db') k =
       (if k = cert_key e i n \<and> \<not> recorded db k then Some (pem_EncodeToMemory ''CERTIFICATE'' (Raw aCert))
        else mb_pem (fs_backend db) k)" if "mb_key_ok k" for k
      using p2 [OF that] False b1 by auto
    moreover have "mock_contents (snd (extCache db')) k = mock_contents (snd (extCache db)) k" if "log_key k" for k
      using log_key_other [OF that] c2 by (simp add: db1_def w'(2))
    ultimately show ?thesis using that [of db'] by blast
  qed
qed

text \<open>
  A certificate whose serial is recorded is only marked dirty: whatever the backend, nothing else
  of it is called.
\<close>

lemma Store_recorded:
  fixes db :: "('b, mock_world, 'g) FilesystemDatabase" and aCert aIssuer :: Certificate
  assumes laws: "gcache_laws (dep_known deps) held" and fs: "fs_ok held db" and w: "world_ok (extCache db)"
    and cache: "dep_cache deps = mock_cache js"
    and t: "t_off (NotAfter aCert) = 0" "year_4_digits (NotAfter aCert)" and sn: "NewSerial aCert = Done n"
    and rec: "BinaryString n \<in> mock_contents (snd (extCache db))
      (serials_key (ExpDate_ID (NewExpDateFromTime (NotAfter aCert))) (iss_id (NewIssuer aIssuer)))"
  obtains db' where "Store deps aCert aIssuer aLogURL aEntryId db
      = Done (fst (sb_MarkDirty (dep_backend deps) (Format_day (NotAfter aCert)) (fs_backend db)), db')"
    and "fs_backend db' = snd (sb_MarkDirty (dep_backend deps) (Format_day (NotAfter aCert)) (fs_backend db))"
proof -
  let ?e = "NewExpDateFromTime (NotAfter aCert)" and ?i = "NewIssuer aIssuer"
  obtain p g h where k: "GetKnownCertificates (dep_known deps) ?e ?i db = Done (p, db\<lparr>knownCertsCache := g, kc_heap := h\<rparr>)"
    and p: "serialId (h ! p) [] = serialId (NewKnownCertificates ?e ?i) []"
    using GetKnownCertificates_spec [OF laws fs length_hour_ID [OF t]] by blast
  have key: "serialId (h ! p) [] = serials_key (ExpDate_ID ?e) (iss_id ?i)"
    using p by (simp add: serialId_key NewKnownCertificates_def)
  obtain w' where "WasUnknown (mock_cache js) (h ! p) n (extCache db)
      = Done ((BinaryString n \<notin> mock_contents (snd (extCache db)) (serials_key (ExpDate_ID ?e) (iss_id ?i)), None),
          (h ! p)\<lparr>kc_expirySet := True\<rparr>, w')"
    using WasUnknown_mock [OF w, of js "h ! p" n] unfolding key by blast
  then have u: "WasUnknown (mock_cache js) (h ! p) n (extCache db)
      = Done ((False, None), (h ! p)\<lparr>kc_expirySet := True\<rparr>, w')" using rec by simp
  obtain er b where m: "sb_MarkDirty (dep_backend deps) (Format_day (NotAfter aCert)) (fs_backend db) = (er, b)"
    by fastforce
  show ?thesis
    using that [of "db\<lparr>knownCertsCache := g, kc_heap := h[p := (h ! p)\<lparr>kc_expirySet := True\<rparr>], extCache := w', fs_backend := b\<rparr>"]
    by (simp add: Store_def Let_def k sn u cache store_finish_def markDirty_def m)
qed

section \<open>Properties\<close>

text \<open>Storing one (certificate, issuer certificate) after the other; the caller stops at an error.\<close>

fun store_all ::
    "('b, 'c, 'g) fs_deps \<Rightarrow> (Certificate \<times> Certificate) list \<Rightarrow> ('b, 'c, 'g) FilesystemDatabase
      \<Rightarrow> ('b, 'c, 'g) FilesystemDatabase outcome" where
  "store_all deps [] db = Done db"
| "store_all deps ((c, ca) # cs) db =
     outcome_bind (Store deps c ca [] 0 db) (\<lambda>(err, db).
       case err of Some e \<Rightarrow> Panic ''error'' | None \<Rightarrow> store_all deps cs db)"

definition storable :: "Certificate \<times> Certificate \<Rightarrow> bool" where
  "storable cc \<longleftrightarrow> t_off (NotAfter (fst cc)) = 0 \<and> year_4_digits (NotAfter (fst cc))
     \<and> (case NewSerial (fst cc) of Done n \<Rightarrow> True | Panic m \<Rightarrow> False)"

definition stored_key :: "Certificate \<times> Certificate \<Rightarrow> cert_key" where
  "stored_key cc = cert_key (NewExpDateFromTime (NotAfter (fst cc))) (NewIssuer (snd cc))
     (case NewSerial (fst cc) of Done n \<Rightarrow> n | Panic m \<Rightarrow> Serial [])"

text \<open>
  C9. Storing any sequence of certificates with readable serials and UTC expiration dates
  succeeds, keeps the invariant that every recorded certificate has a text stored and its issuer
  listed for its bucket, and records exactly the certificates of the sequence in addition. The text
  under the key of one that was not recorded before is the PEM encoding of the first certificate of
  the sequence with that key; all other texts stay as they are.
\<close>

theorem Store_sequence:
  assumes "gcache_laws gc held" and "db_inv held db" and "\<forall>cc \<in> set cs. storable cc"
  shows "\<exists>db'. store_all (mock_deps js ord gc url_Parse) cs db = Done db' \<and> db_inv held db'
    \<and> (\<forall>k. mb_key_ok k \<longrightarrow> recorded db' k = (recorded db k \<or> k \<in> stored_key ` set cs)
        \<and> mb_pem (fs_backend db') k =
            (if recorded db k then mb_pem (fs_backend db) k
             else case find (\<lambda>cc. stored_key cc = k) cs of
                    Some cc \<Rightarrow> Some (pem_EncodeToMemory ''CERTIFICATE'' (Raw (fst cc)))
                  | None \<Rightarrow> mb_pem (fs_backend db) k))"
  using assms(2,3)
proof (induction cs arbitrary: db)
  case (Cons cc cs)
  obtain c ca where cc: "cc = (c, ca)" by (cases cc)
  obtain n where t: "t_off (NotAfter c) = 0" "year_4_digits (NotAfter c)" and n: "NewSerial c = Done n"
    using Cons.prems(2) by (auto simp: cc storable_def split: outcome.splits)
  have k: "stored_key cc = cert_key (NewExpDateFromTime (NotAfter c)) (NewIssuer ca) n"
    by (simp add: cc stored_key_def n)
  obtain db1 where s: "Store (mock_deps js ord gc url_Parse) c ca [] 0 db = Done (None, db1)" and "db_inv held db1"
    and r: "\<And>k. mb_key_ok k \<Longrightarrow> recorded db1 k = (k = stored_key cc \<or> recorded db k)"
    and p: "\<And>k. mb_key_ok k \<Longrightarrow> mb_pem (fs_backend db1) k =
      (if k = stored_key cc \<and> \<not> recorded db k then Some (pem_EncodeToMemory ''CERTIFICATE'' (Raw c)) else mb_pem (fs_backend db) k)"
    unfolding k by (rule Store_mock [OF assms(1) Cons.prems(1) t n, of js ord url_Parse ca "[]" 0]) blast
  then obtain db' where "store_all (mock_deps js ord gc url_Parse) cs db1 = Done db'" "db_inv held db'"
    and d: "\<And>k. mb_key_ok k \<Longrightarrow> recorded db' k = (recorded db1 k \<or> k \<in> stored_key ` set cs)
      \<and> mb_pem (fs_backend db') k =
          (if recorded db1 k then mb_pem (fs_backend db1) k
           else case find (\<lambda>cc. stored_key cc = k) cs of
                  Some cc \<Rightarrow> Some (pem_EncodeToMemory ''CERTIFICATE'' (Raw (fst cc)))
                | None \<Rightarrow> mb_pem (fs_backend db1) k)"
    using Cons.IH [of db1] Cons.prems(2) by auto
  then show ?case using s r p by (intro exI [of _ db']) (auto simp: cc d split: option.splits)
qed simp

definition map_gcache :: "(string, nat) gomap gcache" where
  "map_gcache =
     \<lparr>gc_GetIFPresent = (\<lambda>k g. (case gm_get g k of None \<Rightarrow> Inl KeyNotFoundError | Some p \<Rightarrow> Inr p, g)),
      gc_Set = (\<lambda>k p g. (None, gm_set k p g))\<rparr>"

definition fresh_db :: "(string, nat) gomap mock_db" where
  "fresh_db = fst (NewFilesystemDatabase NewMockBackend (steady_env (utc 0), NewMockRemoteCache) [])"

lemma map_gcache_laws: "gcache_laws map_gcache (\<lambda>g. gm_get g)"
  by (auto simp: gcache_laws_def map_gcache_def map_le_def split: option.splits)

lemma fresh_db_recorded: "\<not> recorded fresh_db k"
  by (cases k) (simp add: recorded_def fresh_db_def NewFilesystemDatabase_def mock_contents_def NewMockRemoteCache_def)

lemma fresh_db_inv: "db_inv (\<lambda>g. gm_get g) fresh_db"
  unfolding db_inv_def
  by (simp add: fresh_db_recorded)
    (simp add: fresh_db_def NewFilesystemDatabase_def world_ok_def mb_sorted_def NewMockBackend_def
      fs_ok_def allocated_def)

lemma sample_cert_storable: "storable (sample_cert, sample_cert)"
proof -
  have "NewSerial sample_cert = Done (Serial [0, 170])" by code_simp
  moreover have "t_off (NotAfter sample_cert) = 0" "year_4_digits (NotAfter sample_cert)" by code_simp+
  ultimately show ?thesis by (simp add: storable_def)
qed

theorem Store_sequence_witness:
  "\<exists>db'. store_all (mock_deps sample_json rev map_gcache sample_url) [(sample_cert, sample_cert), (sample_cert, sample_cert)] fresh_db
    = Done db' \<and> db_inv (\<lambda>g. gm_get g) db' \<and> recorded db' (stored_key (sample_cert, sample_cert))
    \<and> mb_pem (fs_backend db') (stored_key (sample_cert, sample_cert)) = Some (pem_EncodeToMemory ''CERTIFICATE'' (Raw sample_cert))"
proof -
  let ?cc = "(sample_cert, sample_cert)"
  have k: "mb_key_ok (stored_key ?cc)"
    using sample_cert_storable by (simp add: stored_key_def storable_def mb_key_ok_def length_hour_ID iss_id_NewIssuer_shape)
  have "\<forall>cc \<in> set [?cc, ?cc]. storable cc" using sample_cert_storable by simp
  from Store_sequence [OF map_gcache_laws fresh_db_inv this, of sample_json rev sample_url]
  obtain db' where d: "store_all (mock_deps sample_json rev map_gcache sample_url) [?cc, ?cc] fresh_db = Done db'"
      "db_inv (\<lambda>g. gm_get g) db'"
    and r: "\<forall>k. mb_key_ok k \<longrightarrow> recorded db' k = (recorded fresh_db k \<or> k \<in> stored_key ` set [?cc, ?cc])
      \<and> mb_pem (fs_backend db') k = (if recorded fresh_db k then mb_pem (fs_backend fresh_db) k
          else case find (\<lambda>cc. stored_key cc = k) [?cc, ?cc] of
                 Some cc \<Rightarrow> Some (pem_EncodeToMemory ''CERTIFICATE'' (Raw (fst cc)))
               | None \<Rightarrow> mb_pem (fs_backend fresh_db) k)" by blast
  then show ?thesis using r [rule_format, OF k] fresh_db_recorded by (intro exI [of _ db']) simp
qed

text \<open>
  C11. The first storing of a certificate writes its PEM text under its bucket, issuer and serial,
  from which the certificate's bytes can be read back; storing it again leaves the texts alone.
\<close>

theorem Store_then_Load:
  assumes "gcache_laws gc held" and "db_inv held db" and "storable (c, ca)" and "\<not> recorded db (stored_key (c, ca))"
  shows "\<exists>db' st. Store (mock_deps js ord gc url_Parse) c ca url entry db = Done (None, db')
    \<and> sb_LoadCertificatePEM (mock_backend js ord) (snd (snd (stored_key (c, ca))))
        (NewExpDateFromTime (NotAfter c)) (NewIssuer ca) (fs_backend db')
      = ((pem_EncodeToMemory ''CERTIFICATE'' (Raw c), None), st)
    \<and> pem_bytes ''CERTIFICATE'' (pem_EncodeToMemory ''CERTIFICATE'' (Raw c)) = Inr (Raw c)"
proof -
  obtain n where t: "t_off (NotAfter c) = 0" "year_4_digits (NotAfter c)" and n: "NewSerial c = Done n"
    using assms(3) by (auto simp: storable_def split: outcome.splits)
  have k: "stored_key (c, ca) = cert_key (NewExpDateFromTime (NotAfter c)) (NewIssuer ca) n"
    by (simp add: stored_key_def n)
  obtain db' where s: "Store (mock_deps js ord gc url_Parse) c ca url entry db = Done (None, db')"
    and "mb_pem (fs_backend db') (stored_key (c, ca)) = Some (pem_EncodeToMemory ''CERTIFICATE'' (Raw c))"
    using Store_mock [OF assms(1,2) t n] assms(4) store_key_ok [OF t] unfolding k by metis
  then have "gm_get (mb_store (fs_backend db')) (pem_key (NewExpDateFromTime (NotAfter c)) (NewIssuer ca) n)
      = Some (pem_EncodeToMemory ''CERTIFICATE'' (Raw c))"
    by (simp add: k mb_pem_def pem_key_def)
  then show ?thesis
    using s by (simp add: k mock_backend_def MB_LoadCertificatePEM_def)
qed

theorem Store_then_Load_witness:
  "\<exists>db' st. Store (mock_deps sample_json rev map_gcache sample_url) sample_cert sample_cert [] 0 fresh_db = Done (None, db')
    \<and> sb_LoadCertificatePEM (mock_backend sample_json rev) (snd (snd (stored_key (sample_cert, sample_cert))))
        (NewExpDateFromTime (NotAfter sample_cert)) (NewIssuer sample_cert) (fs_backend db')
      = ((pem_EncodeToMemory ''CERTIFICATE'' (Raw sample_cert), None), st)"
  using Store_then_Load [OF map_gcache_laws fresh_db_inv sample_cert_storable fresh_db_recorded,
      of sample_json rev sample_url "[]" 0] by blast

end
