(* ===== verification/CT_Fetch.thy ===== *)
theory CT_Fetch
  imports Config Filesystem_Database
begin

text \<open>
  \<^verbatim>\<open>cmd/ct-fetch/ct-fetch.go\<close>: the worker that downloads one log, the workers that insert
  the entries into the database, the filter and the health report. How they run together is in
  \<open>Log_Sync\<close>. Metrics, progress bars and log messages are left out.
\<close>

section \<open>The certificate database\<close>

text \<open>
  The interface \<^verbatim>\<open>CertDatabase\<close> of \<^verbatim>\<open>storage/types.go\<close>, and
  \<^verbatim>\<open>FilesystemDatabase\<close> as its instance. A URL is given to \<^verbatim>\<open>GetLogState\<close> as its host
  and its path; the pointers that two of the operations return are addresses in the heaps of the
  database; the order in which a map is visited is an argument of the last operation.
\<close>

record 'd CertDatabase =
  cd_Cleanup :: "'d \<Rightarrow> go_error option \<times> 'd"
  cd_SaveLogState :: "CertificateLog \<Rightarrow> 'd \<Rightarrow> (go_error option \<times> 'd) outcome"
  cd_GetLogState :: "string \<Rightarrow> string \<Rightarrow> 'd \<Rightarrow> (CertificateLog ret \<times> 'd) outcome"
  cd_Store :: "Certificate \<Rightarrow> Certificate \<Rightarrow> string \<Rightarrow> int \<Rightarrow> 'd \<Rightarrow> (go_error option \<times> 'd) outcome"
  cd_ListExpirationDates :: "gotime \<Rightarrow> 'd \<Rightarrow> ExpDate list ret \<times> 'd"
  cd_ListIssuersForExpirationDate :: "ExpDate \<Rightarrow> 'd \<Rightarrow> Issuer list ret \<times> 'd"
  cd_GetKnownCertificates :: "ExpDate \<Rightarrow> Issuer \<Rightarrow> 'd \<Rightarrow> (nat \<times> 'd) outcome"
  cd_GetIssuerMetadata :: "Issuer \<Rightarrow> 'd \<Rightarrow> nat \<times> 'd"
  cd_GetIssuerAndDatesFromCache :: "(issuer_dates \<Rightarrow> issuer_dates) \<Rightarrow> 'd \<Rightarrow> (IssuerDate list ret \<times> 'd) outcome"

definition filesystem_certdb :: "('b, 'c, 'g) fs_deps \<Rightarrow> ('b, 'c, 'g) FilesystemDatabase CertDatabase" where
  "filesystem_certdb deps =
     \<lparr>cd_Cleanup = fs_Cleanup, cd_SaveLogState = SaveLogState deps, cd_GetLogState = GetLogState deps,
      cd_Store = Store deps, cd_ListExpirationDates = fs_ListExpirationDates (dep_backend deps),
      cd_ListIssuersForExpirationDate = fs_ListIssuersForExpirationDate (dep_backend deps),
      cd_GetKnownCertificates = GetKnownCertificates (dep_known deps), cd_GetIssuerMetadata = GetIssuerMetadata,
      cd_GetIssuerAndDatesFromCache = GetIssuerAndDatesFromCache (dep_cache deps)\<rparr>"

section \<open>Log entries\<close>

text \<open>
  The parts of \<^verbatim>\<open>ct.LogEntry\<close> that the program reads; a pointer may be nil. The library
  that decodes entries and parses certificates is a parameter. An error of
  \<^verbatim>\<open>ct.LogEntryFromLeaf\<close> is a \<^verbatim>\<open>x509.NonFatalErrors\<close> or another error.
\<close>

datatype LogEntryType = X509LogEntryType | PrecertLogEntryType | XJSONLogEntryType

record LogEntry =
  le_Index :: int
  le_EntryType :: LogEntryType
  le_Timestamp :: "64 word"
  le_X509Cert :: "Certificate option"
  le_Precert :: "bytes option"
  le_Chain :: "bytes list"

datatype leaf_error = NonFatalErrors string | FatalError go_error

record 'raw ct_library =
  ct_LogEntryFromLeaf :: "int \<Rightarrow> 'raw \<Rightarrow> LogEntry \<times> leaf_error option"
  x509_ParseCertificate :: "bytes \<Rightarrow> Certificate res"

text \<open>\<open>zone\<close> is the offset of the process's time zone.\<close>

definition uint64ToTimestamp :: "int \<Rightarrow> 64 word \<Rightarrow> gotime" where
  "uint64ToTimestamp zone timestamp = time_Unix zone (sint (timestamp div 1000)) (sint (timestamp mod 1000))"

section \<open>The filter\<close>

text \<open>The loop over the elements of the filter, which stops at the first that matches.\<close>

fun cn_skip :: "string \<Rightarrow> string list \<Rightarrow> bool \<Rightarrow> bool" where
  "cn_skip cn [] skip = skip"
| "cn_skip cn (f # fs) skip = (if has_prefix cn f then False else cn_skip cn fs skip)"

definition certIsFilteredOut :: "CTConfig \<Rightarrow> gotime \<Rightarrow> Certificate \<Rightarrow> bool" where
  "certIsFilteredOut ctconfig now aCert =
     (if BasicConstraintsValid aCert \<and> IsCA aCert then True
      else if Before (NotAfter aCert) now \<and> \<not> LogExpiredEntries ctconfig then True
      else let skip = (length (IssuerCNFilter ctconfig) \<noteq> 0)
           in cn_skip (Issuer_CommonName aCert) (strings_split '','' (IssuerCNFilter ctconfig)) skip)"

section \<open>Inserting an entry\<close>

abbreviation nil_deref :: string where
  "nil_deref \<equiv> ''invalid memory address or nil pointer dereference''"

text \<open>
  One round of the loop of \<^verbatim>\<open>insertCTWorker\<close>, over the database and the time of the last
  update that the health report reads. \<open>now\<close> is the time at which the filter looks at the
  clock, and \<open>health\<close> the time when the health ticker has fired, if it has. The certificate of an
  entry of an unknown type stays nil.
\<close>

definition entry_certificate :: "'raw ct_library \<Rightarrow> LogEntry \<Rightarrow> (Certificate option + go_error) outcome" where
  "entry_certificate lib ep =
     (case le_EntryType ep of
        X509LogEntryType \<Rightarrow> Done (Inl (le_X509Cert ep))
      | PrecertLogEntryType \<Rightarrow>
          (case le_Precert ep of
             None \<Rightarrow> Panic nil_deref
           | Some data \<Rightarrow>
               (case x509_ParseCertificate lib data of
                  Inl err \<Rightarrow> Done (Inr err)
                | Inr cert \<Rightarrow> Done (Inl (Some cert))))
      | XJSONLogEntryType \<Rightarrow> Done (Inl None))"

definition insert_entry ::
    "'raw ct_library \<Rightarrow> CTConfig \<Rightarrow> 'd CertDatabase \<Rightarrow> gotime \<Rightarrow> gotime option \<Rightarrow> string \<Rightarrow> LogEntry
      \<Rightarrow> 'd \<times> gotime \<Rightarrow> ('d \<times> gotime) outcome" where
  "insert_entry lib ctconfig cd now health logURL ep = (\<lambda>(db, lastUpdateTime).
     outcome_bind (entry_certificate lib ep) (\<lambda>r.
       case r of
         Inr err \<Rightarrow> Done (db, lastUpdateTime)
       | Inl None \<Rightarrow> Panic nil_deref
       | Inl (Some cert) \<Rightarrow>
           (if certIsFilteredOut ctconfig now cert then Done (db, lastUpdateTime)
            else if length (le_Chain ep) < 1
            then outcome_bind (NewSerial cert) (\<lambda>serial. Done (db, lastUpdateTime))
            else case x509_ParseCertificate lib (le_Chain ep ! 0) of
                   Inl err \<Rightarrow> Done (db, lastUpdateTime)
                 | Inr issuingCert \<Rightarrow>
                     outcome_bind (cd_Store cd cert issuingCert logURL (le_Index ep) db) (\<lambda>(err, db).
                       Done (db, case health of Some t \<Rightarrow> t | None \<Rightarrow> lastUpdateTime)))))"

section \<open>The worker of a log\<close>

record LogWorker =
  lw_LogURL :: string
  lw_LogState :: CertificateLog
  lw_StartPos :: "64 word"
  lw_EndPos :: "64 word"

text \<open>
  What \<^verbatim>\<open>NewLogWorker\<close> asks: whether a client can be made for a URL, the tree size that the
  log signed, and the host and path of the URL. A ticker with a period that is not positive
  panics.
\<close>

record log_services =
  ls_client :: "string \<Rightarrow> go_error option"
  ls_TreeSize :: "string \<Rightarrow> (64 word) res"
  ls_url :: "string \<Rightarrow> (string \<times> string) res"

definition start_pos :: "CTConfig \<Rightarrow> CertificateLog \<Rightarrow> 64 word" where
  "start_pos ctconfig logObj =
     (if 0 < cfg_Offset ctconfig then word_of_nat (cfg_Offset ctconfig) else word_of_int (MaxEntry logObj))"

definition end_pos :: "CTConfig \<Rightarrow> 64 word \<Rightarrow> 64 word \<Rightarrow> 64 word" where
  "end_pos ctconfig startPos treeSize =
     (if 0 < cfg_Limit ctconfig \<and> startPos + word_of_nat (cfg_Limit ctconfig) < treeSize
      then startPos + word_of_nat (cfg_Limit ctconfig) else treeSize)"

definition NewLogWorker ::
    "log_services \<Rightarrow> CTConfig \<Rightarrow> 'd CertDatabase \<Rightarrow> string \<Rightarrow> 'd \<Rightarrow> (LogWorker res \<times> 'd) outcome" where
  "NewLogWorker ls ctconfig cd ctLogUrl db =
     (case ls_client ls ctLogUrl of
        Some err \<Rightarrow> Done (Inl err, db)
      | None \<Rightarrow>
     (case ls_TreeSize ls ctLogUrl of
        Inl err \<Rightarrow> Done (Inl err, db)
      | Inr treeSize \<Rightarrow>
     (case ls_url ls ctLogUrl of
        Inl err \<Rightarrow> Done (Inl err, db)
      | Inr (host, path) \<Rightarrow>
          outcome_bind (cd_GetLogState cd host path db) (\<lambda>((logObj, err), db).
            case err of
              Some e \<Rightarrow> Done (Inl e, db)
            | None \<Rightarrow>
                (let startPos = start_pos ctconfig logObj;
                     endPos = end_pos ctconfig startPos treeSize
                 in case ParseDuration (SavePeriod ctconfig) of
                      Inl err \<Rightarrow> Done (Inl err, db)
                    | Inr savePeriod \<Rightarrow>
                        (if savePeriod \<le> 0 then Panic ''non-positive interval for NewTicker''
                         else Done (Inr \<lparr>lw_LogURL = ctLogUrl, lw_LogState = logObj,
                                          lw_StartPos = startPos, lw_EndPos = endPos\<rparr>, db)))))))"

definition saveState ::
    "'d CertDatabase \<Rightarrow> gotime \<Rightarrow> 64 word \<Rightarrow> gotime option \<Rightarrow> LogWorker \<times> 'd \<Rightarrow> (LogWorker \<times> 'd) outcome" where
  "saveState cd now index entryTime = (\<lambda>(lw, db).
     (if word_of_nat (2 ^ 63 - 1) < index then Done (lw, db)
      else let s = (lw_LogState lw)\<lparr>MaxEntry := sint index\<rparr>;
               s = (case entryTime of Some t \<Rightarrow> s\<lparr>LastEntryTime := t\<rparr> | None \<Rightarrow> s);
               s = s\<lparr>LastUpdateTime := now\<rparr>
           in outcome_bind (cd_SaveLogState cd s db) (\<lambda>(saveErr, db). Done (lw\<lparr>lw_LogState := s\<rparr>, db))))"

section \<open>The download loop\<close>

text \<open>
  \<^verbatim>\<open>downloadCTRangeToChannel\<close> as a machine. It is at a call of
  \<^verbatim>\<open>GetRawEntries\<close>, or in the inner \<^verbatim>\<open>select\<close> with an entry to submit and the
  leaves that follow it in the same response, or it has returned.
\<close>

datatype 'raw dl_pc = Fetching | Submitting LogEntry "'raw list" | Returned "go_error option"

record 'raw download =
  dl_index :: "64 word"
  dl_last :: "gotime option"
  dl_pc :: "'raw dl_pc"

text \<open>The head of the outer loop, and the range of the request there.\<close>

definition loop_head :: "LogWorker \<Rightarrow> 64 word \<Rightarrow> 'raw dl_pc" where
  "loop_head lw index = (if index < lw_EndPos lw then Fetching else Returned None)"

definition request_max :: "LogWorker \<Rightarrow> 64 word \<Rightarrow> 64 word" where
  "request_max lw index =
     (let max = index + 1000 in if lw_EndPos lw \<le> max then lw_EndPos lw - 1 else max)"

definition dl_start :: "LogWorker \<Rightarrow> 'raw download" where
  "dl_start lw = \<lparr>dl_index = lw_StartPos lw, dl_last = None, dl_pc = loop_head lw (lw_StartPos lw)\<rparr>"

text \<open>The leaves of a response from the current one on, up to the first that is not erroneous.\<close>

fun next_decodable ::
    "'raw ct_library \<Rightarrow> 'raw list \<Rightarrow> 64 word \<Rightarrow> 64 word \<times> (LogEntry \<times> 'raw list) option" where
  "next_decodable lib [] index = (index, None)"
| "next_decodable lib (entry # entries) index =
     (case ct_LogEntryFromLeaf lib (sint index) entry of
        (logEntry, Some (FatalError err)) \<Rightarrow> next_decodable lib entries (index + 1)
      | (logEntry, _) \<Rightarrow> (index, Some (logEntry, entries)))"

definition dl_entries :: "'raw ct_library \<Rightarrow> LogWorker \<Rightarrow> 'raw list \<Rightarrow> 'raw download \<Rightarrow> 'raw download" where
  "dl_entries lib lw entries d =
     (case next_decodable lib entries (dl_index d) of
        (index, Some (logEntry, rest)) \<Rightarrow> d\<lparr>dl_index := index, dl_pc := Submitting logEntry rest\<rparr>
      | (index, None) \<Rightarrow> d\<lparr>dl_index := index, dl_pc := loop_head lw index\<rparr>)"

definition too_many_requests :: "go_error \<Rightarrow> bool" where
  "too_many_requests err \<longleftrightarrow> contains (error_text err) ''HTTP Status''
     \<and> (contains (error_text err) ''429'' \<or> contains (error_text err) ''Too Many Requests'')"

text \<open>The request failed: after a 429 the loop starts over when it has slept.\<close>

definition dl_failed :: "LogWorker \<Rightarrow> go_error \<Rightarrow> 'raw download \<Rightarrow> 'raw download" where
  "dl_failed lw err d =
     (if too_many_requests err then d\<lparr>dl_pc := loop_head lw (dl_index d)\<rparr>
      else d\<lparr>dl_pc := Returned (Some err)\<rparr>)"

text \<open>The channel accepted the entry, and a signal was caught.\<close>

definition dl_accepted ::
    "'raw ct_library \<Rightarrow> int \<Rightarrow> LogWorker \<Rightarrow> LogEntry \<Rightarrow> 'raw list \<Rightarrow> 'raw download \<Rightarrow> 'raw download" where
  "dl_accepted lib zone lw logEntry rest d =
     (let d = d\<lparr>dl_last := Some (uint64ToTimestamp zone (le_Timestamp logEntry))\<rparr>;
          d = d\<lparr>dl_index := dl_index d + 1\<rparr>
      in dl_entries lib lw rest d)"

definition dl_signal :: "'raw download \<Rightarrow> 'raw download" where
  "dl_signal d = d\<lparr>dl_pc := Returned None\<rparr>"

section \<open>The health report and the list of logs\<close>

text \<open>
  The status that \<^verbatim>\<open>/health\<close> answers. A difference of times is cut to 64 bits, and
  twice the mean is computed in 64 bits.
\<close>

definition time_Since :: "gotime \<Rightarrow> gotime \<Rightarrow> duration" where
  "time_Since now t = max (- (2 ^ 63)) (min (2 ^ 63 - 1) (t_ns now - t_ns t))"

definition health_status :: "duration \<Rightarrow> gotime \<Rightarrow> gotime \<Rightarrow> nat" where
  "health_status pollingDelayMean now approxUpdateTimestamp =
     (if IsZero approxUpdateTimestamp then 503
      else let duration = time_Since now approxUpdateTimestamp;
               evaluationTime = sint (2 * word_of_int pollingDelayMean :: 64 word)
           in if evaluationTime < duration then 500 else 200)"

text \<open>The log URLs that \<^verbatim>\<open>main\<close> starts downloads for; \<^verbatim>\<open>url.Parse\<close> is a parameter.\<close>

fun parse_urls :: "(string \<Rightarrow> 'u res) \<Rightarrow> string list \<Rightarrow> 'u list outcome" where
  "parse_urls url_Parse [] = Done []"
| "parse_urls url_Parse (part # parts) =
     (case url_Parse (trim_space part) of
        Inl err \<Rightarrow> Panic ''unable to set Certificate Log''
      | Inr u \<Rightarrow> outcome_bind (parse_urls url_Parse parts) (\<lambda>us. Done (u # us)))"

definition main_logUrls :: "(string \<Rightarrow> 'u res) \<Rightarrow> CTConfig \<Rightarrow> 'u list outcome" where
  "main_logUrls url_Parse ctconfig =
     (if 5 < length (LogUrlList ctconfig)
      then parse_urls url_Parse (strings_split '','' (LogUrlList ctconfig)) else Done [])"

section \<open>Properties\<close>




text \<open>
  C26. The timestamp of an entry, in milliseconds, is converted to the right second, but its
  remainder of milliseconds is taken as nanoseconds.
\<close>

theorem uint64ToTimestamp_drops_milliseconds:
  "t_ns (uint64ToTimestamp zone ts)
    = unix_epoch_ns + int (unat ts) * Millisecond - int (unat ts mod 1000) * (Millisecond - 1)"
proof -
  have "unat ts < 2 ^ LENGTH(64)" by (rule unsigned_less)
  then have q: "unat (ts div 1000) < 2 ^ 63" and r: "unat (ts mod 1000) < 2 ^ 63"
    by (simp_all add: unat_div unat_mod)
  have "int (unat ts) = int (unat ts div 1000) * 1000 + int (unat ts mod 1000)"
    by (metis div_mult_mod_eq of_nat_add of_nat_mult of_nat_numeral)
  then show ?thesis
    by (simp add: uint64ToTimestamp_def time_Unix_def sint_small [OF q] sint_small [OF r] unat_div unat_mod)
qed

end
