(* ===== verification/Database_Properties.thy ===== *)
theory Database_Properties
  imports Filesystem_Database
begin

text \<open>
  Properties of \<^verbatim>\<open>storage/filesystemdatabase.go\<close> on every path: what a failed write
  leaves behind, what the cache's keys tell of issuers and dates, and where a log resumes.
\<close>

section \<open>A failed write\<close>

text \<open>
  A failed write of the PEM text: \<^verbatim>\<open>Store\<close> has by then recorded the serial, and reports the error.
\<close>

lemma Store_write_fails:
  fixes db :: "('b, mock_world, 'g) FilesystemDatabase" and aCert aIssuer :: Certificate
  assumes laws: "gcache_laws (dep_known deps) held" and fs: "fs_ok held db" and w: "world_ok (extCache db)"
    and cache: "dep_cache deps = mock_cache js"
    and t: "t_off (NotAfter aCert) = 0" "year_4_digits (NotAfter aCert)" and sn: "NewSerial aCert = Done n"
    and new: "BinaryString n \<notin> mock_contents (snd (extCache db))
      (serials_key (ExpDate_ID (NewExpDateFromTime (NotAfter aCert))) (iss_id (NewIssuer aIssuer)))"
    and alloc: "\<And>b. fst (sb_AllocateExpDateAndIssuer (dep_backend deps)
      (NewExpDateFromTime (NotAfter aCert)) (NewIssuer aIssuer) b) = None"
    and fails: "\<And>b. fst (sb_StoreCertificatePEM (dep_backend deps) n (NewExpDateFromTime (NotAfter aCert))
      (NewIssuer aIssuer) (pem_EncodeToMemory ''CERTIFICATE'' (Raw aCert)) b) = Some err"
  shows "\<exists>db3. Store deps aCert aIssuer url entry db = Done (Some err, db3) \<and> fs_ok held db3 \<and> world_ok (extCache db3)
    \<and> BinaryString n \<in> mock_contents (snd (extCache db3))
        (serials_key (ExpDate_ID (NewExpDateFromTime (NotAfter aCert))) (iss_id (NewIssuer aIssuer)))"
proof -
  define e i where "e = NewExpDateFromTime (NotAfter aCert)" and "i = NewIssuer aIssuer"
  let ?key = "serials_key (ExpDate_ID e) (iss_id i)"
  obtain p g h where k: "GetKnownCertificates (dep_known deps) e i db = Done (p, db\<lparr>knownCertsCache := g, kc_heap := h\<rparr>)"
    and p: "serialId (h ! p) [] = serialId (NewKnownCertificates e i) []"
    and f: "fs_ok held (db\<lparr>knownCertsCache := g, kc_heap := h\<rparr>)"
    using GetKnownCertificates_spec [OF laws fs length_hour_ID [OF t]] unfolding e_def [symmetric] by metis
  have key: "serialId (h ! p) [] = ?key"
    using p by (simp add: serialId_key NewKnownCertificates_def)
  obtain w' where u: "WasUnknown (mock_cache js) (h ! p) n (extCache db)
      = Done ((BinaryString n \<notin> mock_contents (snd (extCache db)) ?key, None), (h ! p)\<lparr>kc_expirySet := True\<rparr>, w')"
    and w': "world_ok w'" and c': "mock_contents (snd w') = (mock_contents (snd (extCache db)))(?key := insert (BinaryString n) (mock_contents (snd (extCache db)) ?key))"
    using WasUnknown_mock [OF w, of js "h ! p" n] unfolding key by blast
  define db1 where "db1 = db\<lparr>knownCertsCache := g, kc_heap := h[p := (h ! p)\<lparr>kc_expirySet := True\<rparr>], extCache := w'\<rparr>"
  have f1: "fs_ok held db1"
    using fs_ok_kc [OF f, where p = p and x = True] by (simp add: db1_def fs_ok_def)
  obtain q m ih where gi: "GetIssuerMetadata i db1 = (q, db1\<lparr>meta := m, im_heap := ih\<rparr>)"
    and fi: "fs_ok held (db1\<lparr>meta := m, im_heap := ih\<rparr>)"
    using GetIssuerMetadata_spec [OF f1] by metis
  obtain seen im' w2 where a: "Accumulate (dep_url deps) (mock_cache js) (ih ! q) aCert w' = Done ((seen, None), im', w2)"
    and w2: "world_ok w2" and im': "im_issuer im' = im_issuer (ih ! q)"
    and c2: "mock_contents (snd w2) ?key = mock_contents (snd w') ?key"
    using Accumulate_mock [OF w', of "dep_url deps" js "ih ! q" aCert]
    by (elim exE conjE) (rule that, assumption, assumption, assumption, simp)
  define db2 where "db2 = db1\<lparr>meta := m, im_heap := ih[q := im'], extCache := w2\<rparr>"
  have f2: "fs_ok held db2"
    using fs_ok_im [OF fi, of im' q] im' by (simp add: db2_def fs_ok_def)
  obtain b1 where al: "(if \<not> seen then sb_AllocateExpDateAndIssuer (dep_backend deps) e i (fs_backend db2) else (None, fs_backend db2)) = (None, b1)"
    using alloc [of "fs_backend db2"] by (cases seen; cases "sb_AllocateExpDateAndIssuer (dep_backend deps) e i (fs_backend db2)")
      (auto simp: e_def i_def)
  obtain b2 where st: "sb_StoreCertificatePEM (dep_backend deps) n e i (pem_EncodeToMemory ''CERTIFICATE'' (Raw aCert)) b1 = (Some err, b2)"
    using fails [of b1] by (metis e_def i_def prod.collapse)
  define db3 where "db3 = db2\<lparr>fs_backend := b2\<rparr>"
  have ext: "extCache db1 = w'" "fs_backend db2 = fs_backend db1" by (simp_all add: db1_def db2_def)
  have su: "store_unknown deps aCert e i n db1 = Done (Some err, db3)"
    using al st by (cases seen) (simp_all add: store_unknown_def gi a Let_def cache ext db3_def db2_def)
  have "Store deps aCert aIssuer url entry db = Done (Some err, db3)"
    using u new su by (simp add: Store_def Let_def e_def [symmetric] i_def [symmetric] k sn cache db1_def)
  moreover have "fs_ok held db3" "world_ok (extCache db3)"
    "BinaryString n \<in> mock_contents (snd (extCache db3)) (serials_key (ExpDate_ID e) (iss_id i))"
    using f2 w2 by (simp_all add: db3_def db2_def c2 c')
  ultimately show ?thesis unfolding e_def i_def by blast
qed

text \<open>
  C19. When writing the PEM text fails, \<^verbatim>\<open>Store\<close> reports the error, but the serial stays
  recorded: storing the certificate again, with whatever backend, only marks the day dirty and
  never writes the text.
\<close>

theorem Store_failed_write_is_final:
  fixes db :: "('b, mock_world, 'g) FilesystemDatabase" and aCert aIssuer :: Certificate
  assumes laws: "gcache_laws (dep_known deps) held" and fs: "fs_ok held db" and w: "world_ok (extCache db)"
    and cache: "dep_cache deps = mock_cache js"
    and t: "t_off (NotAfter aCert) = 0" "year_4_digits (NotAfter aCert)" and sn: "NewSerial aCert = Done n"
    and new: "BinaryString n \<notin> mock_contents (snd (extCache db))
      (serials_key (ExpDate_ID (NewExpDateFromTime (NotAfter aCert))) (iss_id (NewIssuer aIssuer)))"
    and alloc: "\<And>b. fst (sb_AllocateExpDateAndIssuer (dep_backend deps)
      (NewExpDateFromTime (NotAfter aCert)) (NewIssuer aIssuer) b) = None"
    and fails: "\<And>b. fst (sb_StoreCertificatePEM (dep_backend deps) n (NewExpDateFromTime (NotAfter aCert))
      (NewIssuer aIssuer) (pem_EncodeToMemory ''CERTIFICATE'' (Raw aCert)) b) = Some err"
  shows "\<exists>db1. Store deps aCert aIssuer url entry db = Done (Some err, db1)
    \<and> (\<forall>sb2. \<exists>db2. Store (deps\<lparr>dep_backend := sb2\<rparr>) aCert aIssuer url entry db1
        = Done (fst (sb_MarkDirty sb2 (Format_day (NotAfter aCert)) (fs_backend db1)), db2)
      \<and> fs_backend db2 = snd (sb_MarkDirty sb2 (Format_day (NotAfter aCert)) (fs_backend db1)))"
proof -
  obtain db1 where st: "Store deps aCert aIssuer url entry db = Done (Some err, db1)" and f: "fs_ok held db1" "world_ok (extCache db1)"
    and r: "BinaryString n \<in> mock_contents (snd (extCache db1))
      (serials_key (ExpDate_ID (NewExpDateFromTime (NotAfter aCert))) (iss_id (NewIssuer aIssuer)))"
    using Store_write_fails [OF laws fs w cache t sn new alloc fails, of url entry] by blast
  have "\<exists>db2. Store (deps\<lparr>dep_backend := sb2\<rparr>) aCert aIssuer url entry db1
        = Done (fst (sb_MarkDirty sb2 (Format_day (NotAfter aCert)) (fs_backend db1)), db2)
      \<and> fs_backend db2 = snd (sb_MarkDirty sb2 (Format_day (NotAfter aCert)) (fs_backend db1))" for sb2
    by (rule Store_recorded [where deps = "deps\<lparr>dep_backend := sb2\<rparr>" and aLogURL = url and aEntryId = entry, OF _ f _ t sn r])
      (use laws cache in auto)
  then show ?thesis using st by blast
qed

definition failing_backend :: "MockBackend StorageBackend" where
  "failing_backend = noop_backend\<lparr>sb_StoreCertificatePEM := (\<lambda>n e i b st. (Some (External ''disk full''), st))\<rparr>"

lemma sample_serial: "NewSerial sample_cert = Done (Serial [0, 170])"
  by code_simp

lemma sample_time: "t_off (NotAfter sample_cert) = 0" "year_4_digits (NotAfter sample_cert)"
  by code_simp+

theorem Store_failed_write_is_final_witness:
  "\<exists>db1. Store ((mock_deps sample_json rev map_gcache sample_url)\<lparr>dep_backend := failing_backend\<rparr>)
      sample_cert sample_cert [] 0 fresh_db = Done (Some (External ''disk full''), db1)"
proof -
  let ?d = "(mock_deps sample_json rev map_gcache sample_url)\<lparr>dep_backend := failing_backend\<rparr>"
  have g: "gcache_laws (dep_known ?d) (\<lambda>g. gm_get g)" "fs_ok (\<lambda>g. gm_get g) fresh_db" "world_ok (extCache fresh_db)"
    "dep_cache ?d = mock_cache sample_json"
    using map_gcache_laws fresh_db_inv by (simp_all add: db_inv_def)
  have "BinaryString (Serial [0, 170]) \<notin> mock_contents (snd (extCache fresh_db)) k" for k
    by (simp add: fresh_db_def NewFilesystemDatabase_def mock_contents_def NewMockRemoteCache_def)
  then show ?thesis
    using Store_failed_write_is_final [OF g sample_time sample_serial, where url = "[]" and entry = 0
        and aIssuer = sample_cert and err = "External ''disk full''"]
    by (simp add: failing_backend_def noop_backend_def Noop_AllocateExpDateAndIssuer_def) blast
qed

section \<open>The objects that pointers lead to\<close>

text \<open>The objects of \<open>db\<close> are still there in \<open>db'\<close>, each for the same issuer and bucket.\<close>

definition keeps_objects :: "('b, 'c, 'g) FilesystemDatabase \<Rightarrow> ('b, 'c, 'g) FilesystemDatabase \<Rightarrow> bool" where
  "keeps_objects db db' \<longleftrightarrow>
     (\<forall>p < length (kc_heap db). p < length (kc_heap db')
        \<and> kc_expDate (kc_heap db' ! p) = kc_expDate (kc_heap db ! p) \<and> kc_issuer (kc_heap db' ! p) = kc_issuer (kc_heap db ! p))
   \<and> (\<forall>p < length (im_heap db). p < length (im_heap db') \<and> im_issuer (im_heap db' ! p) = im_issuer (im_heap db ! p))"

lemma keeps_objects_trans: "keeps_objects a b \<Longrightarrow> keeps_objects b c \<Longrightarrow> keeps_objects a c"
  unfolding keeps_objects_def by metis

lemma keeps_objects_simps [simp]:
  "keeps_objects db (db\<lparr>fs_backend := b\<rparr>) = keeps_objects db db"
  "keeps_objects db (db\<lparr>extCache := c\<rparr>) = keeps_objects db db" "keeps_objects db db"
  by (simp_all add: keeps_objects_def)

lemma GetKnownCertificates_heap:
  "GetKnownCertificates gc e i db = Done (p, db')
    \<Longrightarrow> kc_heap db' = kc_heap db \<or> kc_heap db' = kc_heap db @ [NewKnownCertificates e i]"
  by (auto simp: GetKnownCertificates_def Let_def split: prod.splits sum.splits option.splits if_splits)

lemma WasUnknown_object:
  "WasUnknown rc kc s c = Done (r, kc', c') \<Longrightarrow> \<exists>x. kc' = kc\<lparr>kc_expirySet := x\<rparr>"
  by (auto simp: WasUnknown_def outcome_bind_Done_iff split: option.splits if_splits intro: exI [of _ "kc_expirySet kc"])

lemma accumulate_dps_issuer:
  "accumulate_dps url_Parse rc im dps c = Done (err, im', c') \<Longrightarrow> im_issuer im' = im_issuer im"
proof (induction dps arbitrary: im c)
  case (Cons dp dps)
  show ?case
  proof (cases "dp \<in> knownCrlDPs im")
    case False
    let ?im = "im\<lparr>knownCrlDPs := insert dp (knownCrlDPs im)\<rparr>"
    obtain e c1 where "addCRL url_Parse rc ?im dp c = Done (e, c1)"
      using Cons.prems False by (auto simp: Let_def outcome_bind_Done_iff)
    then show ?thesis using Cons.prems Cons.IH [of ?im c1] False by (auto simp: Let_def split: option.splits)
  qed (use Cons in simp)
qed simp

lemma Accumulate_issuer:
  "Accumulate url_Parse rc im aCert c = Done (r, im', c') \<Longrightarrow> im_issuer im' = im_issuer im"
  by (auto simp: Accumulate_def Let_def outcome_bind_Done_iff dest!: accumulate_dps_issuer split: option.splits if_splits)

lemma store_finish_objects:
  "store_finish deps aCert db = Done (err, db') \<Longrightarrow> fs_ok held db' = fs_ok held db \<and> keeps_objects db db'"
  by (auto simp: store_finish_def markDirty_def Let_def split: prod.splits)

lemma store_unknown_objects:
  assumes "fs_ok held db" and "store_unknown deps aCert e i n db = Done (err, db')"
  shows "fs_ok held db' \<and> keeps_objects db db'"
proof -
  obtain p m h where g: "GetIssuerMetadata i db = (p, db\<lparr>meta := m, im_heap := h\<rparr>)" "p < length h"
    and f: "fs_ok held (db\<lparr>meta := m, im_heap := h\<rparr>)" and h: "h = im_heap db \<or> h = im_heap db @ [NewIssuerMetadata i]"
    using GetIssuerMetadata_spec [OF assms(1), of i thesis] by blast
  obtain seen er im' c where a: "Accumulate (dep_url deps) (dep_cache deps) (h ! p) aCert (extCache db) = Done ((seen, er), im', c)"
    using assms(2) by (auto simp: store_unknown_def g(1) outcome_bind_Done_iff)
  define db1 where "db1 = db\<lparr>meta := m, im_heap := h[p := im'], extCache := c\<rparr>"
  have im': "im_issuer im' = im_issuer (h ! p)" using Accumulate_issuer [OF a] .
  have ok1: "fs_ok held db1"
    using fs_ok_im [OF f, of im' p] im' by (simp add: db1_def fs_ok_def)
  have keep1: "keeps_objects db db1"
    using h im' g(2) by (auto simp: db1_def keeps_objects_def nth_list_update nth_append)
  obtain ea b1 where al: "(if \<not> seen then sb_AllocateExpDateAndIssuer (dep_backend deps) e i (fs_backend db1)
      else (None, fs_backend db1)) = (ea, b1)" by fastforce
  obtain es b2 where st: "sb_StoreCertificatePEM (dep_backend deps) n e i (pem_EncodeToMemory ''CERTIFICATE'' (Raw aCert)) b1
      = (es, b2)" by fastforce
  have same: "fs_backend db1 = fs_backend db" by (simp add: db1_def)
  have "db' = db1 \<or> db' = db1\<lparr>fs_backend := b1\<rparr> \<or> db' = db1\<lparr>fs_backend := b2\<rparr>
    \<or> store_finish deps aCert (db1\<lparr>fs_backend := b2\<rparr>) = Done (err, db')"
    using assms(2) a al [unfolded same] st
    by (cases seen; cases er; cases ea; cases es) (simp_all add: store_unknown_def g(1) Let_def db1_def)
  then have "db' = db1 \<or> (\<exists>b. db' = db1\<lparr>fs_backend := b\<rparr> \<or> store_finish deps aCert (db1\<lparr>fs_backend := b\<rparr>) = Done (err, db'))"
    by blast
  then show ?thesis
  proof (elim exE disjE)
    assume "db' = db1"
    then show ?thesis using ok1 keep1 by simp
  next
    fix b assume "db' = db1\<lparr>fs_backend := b\<rparr>"
    then show ?thesis using ok1 keep1 by (simp add: keeps_objects_def)
  next
    fix b assume "store_finish deps aCert (db1\<lparr>fs_backend := b\<rparr>) = Done (err, db')"
    moreover have "keeps_objects db (db1\<lparr>fs_backend := b\<rparr>)" using keep1 by (simp add: keeps_objects_def)
    ultimately show ?thesis
      using ok1 store_finish_objects [of deps aCert _ err db' held] keeps_objects_trans by auto
  qed
qed

text \<open>
  C22. The pointers of the database stay well typed, whatever the remote cache and the backend
  answer: every pointer in the cache of known certificates or in the map of issuer metadata leads to
  an object of its own bucket and issuer, and no object changes its bucket or issuer.
\<close>

theorem Store_keeps_pointers:
  assumes "gcache_laws (dep_known deps) held" and "fs_ok held db"
    and "t_off (NotAfter aCert) = 0" and "year_4_digits (NotAfter aCert)"
    and "Store deps aCert aIssuer url entry db = Done (err, db')"
  shows "fs_ok held db' \<and> keeps_objects db db'"
proof -
  define e i where "e = NewExpDateFromTime (NotAfter aCert)" and "i = NewIssuer aIssuer"
  obtain p g h where k: "GetKnownCertificates (dep_known deps) e i db = Done (p, db\<lparr>knownCertsCache := g, kc_heap := h\<rparr>)"
    and p: "p < length h" and f: "fs_ok held (db\<lparr>knownCertsCache := g, kc_heap := h\<rparr>)"
    using GetKnownCertificates_spec [OF assms(1,2) length_hour_ID [OF assms(3,4)]] unfolding e_def by metis
  have h: "h = kc_heap db \<or> h = kc_heap db @ [NewKnownCertificates e i]"
    using GetKnownCertificates_heap [OF k] by simp
  obtain n r kc' c where n: "NewSerial aCert = Done n"
    and u: "WasUnknown (dep_cache deps) (h ! p) n (extCache db) = Done (r, kc', c)"
    using assms(5) by (auto simp: Store_def Let_def outcome_bind_Done_iff e_def [symmetric] i_def [symmetric] k)
  obtain x where kc': "kc' = (h ! p)\<lparr>kc_expirySet := x\<rparr>" using WasUnknown_object [OF u] by blast
  define db1 where "db1 = db\<lparr>knownCertsCache := g, kc_heap := h[p := kc'], extCache := c\<rparr>"
  have ok1: "fs_ok held db1" using fs_ok_kc [OF f, where kc' = kc' and p = p and x = x] kc' by (simp add: db1_def fs_ok_def)
  have keep1: "keeps_objects db db1"
    using h kc' p by (auto simp: db1_def keeps_objects_def nth_list_update nth_append)
  obtain w er where r: "r = (w, er)" by fastforce
  have "db' = db1 \<or> store_unknown deps aCert e i n db1 = Done (err, db') \<or> store_finish deps aCert db1 = Done (err, db')"
    using assms(5) n u
    by (auto simp: Store_def Let_def e_def [symmetric] i_def [symmetric] k db1_def r split: option.splits if_splits)
  then show ?thesis
    using ok1 keep1 store_unknown_objects [OF ok1, of deps aCert e i n err db']
      store_finish_objects [of deps aCert db1 err db' held] keeps_objects_trans [OF keep1] by blast
qed

theorem Store_keeps_pointers_witness:
  "\<exists>db1. Store (mock_deps sample_json rev map_gcache sample_url) sample_cert sample_cert [] 0 fresh_db = Done (None, db1)
    \<and> fs_ok (\<lambda>g. gm_get g) db1 \<and> keeps_objects fresh_db db1"
proof -
  let ?d = "mock_deps sample_json rev map_gcache sample_url"
  have g: "gcache_laws (dep_known ?d) (\<lambda>g. gm_get g)" "fs_ok (\<lambda>g. gm_get g) fresh_db"
    using map_gcache_laws fresh_db_inv by (simp_all add: db_inv_def)
  obtain db1 where s: "Store ?d sample_cert sample_cert [] 0 fresh_db = Done (None, db1)"
    using Store_mock [OF map_gcache_laws fresh_db_inv sample_time sample_serial] by metis
  show ?thesis using Store_keeps_pointers [OF g sample_time s] s by blast
qed

section \<open>Issuers and dates\<close>

text \<open>The dates a list of (date, issuer) texts names for one issuer, unreadable ones left out.\<close>

definition dates_of :: "(string \<times> string) list \<Rightarrow> string \<Rightarrow> ExpDate list" where
  "dates_of ps i = concat (map (\<lambda>(d, i'). if i' = i then (case NewExpDate d of Inl _ \<Rightarrow> [] | Inr e \<Rightarrow> [e]) else []) ps)"

definition add_dates :: "string \<Rightarrow> IssuerDate option \<Rightarrow> ExpDate list \<Rightarrow> IssuerDate option" where
  "add_dates i old es =
     (case old of
        None \<Rightarrow> if es = [] then None else Some \<lparr>idt_Issuer = NewIssuerFromString i, idt_ExpDates = es\<rparr>
      | Some d \<Rightarrow> Some (d\<lparr>idt_ExpDates := idt_ExpDates d @ es\<rparr>))"

lemma add_dates_simps [simp]:
  "add_dates i old [] = old"
  "add_dates i (add_dates i old es) fs = add_dates i old (es @ fs)"
  by (auto simp: add_dates_def split: option.splits)

abbreviation colon_free :: "string \<Rightarrow> bool" where
  "colon_free s \<equiv> CHR '':'' \<notin> set s"

lemma split_serials_key:
  "colon_free d \<Longrightarrow> colon_free i \<Longrightarrow> strings_split ''::'' (serials_key d i) = [''serials'', d, i]"
  using split_three [of "CHR '':''" "''serials''" d i "'':''"] by (simp add: serials_key_def)

lemma gather_keys_spec:
  assumes "\<forall>(d, i) \<in> set ps. colon_free d \<and> colon_free i" and "gm_ok m"
  shows "\<exists>m'. gather_keys (map (\<lambda>(d, i). serials_key d i) ps) m = Inr m' \<and> gm_ok m'
    \<and> (\<forall>i. gm_get m' i = add_dates i (gm_get m i) (dates_of ps i))"
  using assms
proof (induction ps arbitrary: m)
  case Nil
  then show ?case by (simp add: dates_of_def)
next
  case (Cons p ps)
  obtain d i where p: "p = (d, i)" by (cases p)
  have s: "strings_split ''::'' (serials_key d i) = [''serials'', d, i]"
    using Cons.prems(1) by (intro split_serials_key) (simp_all add: p)
  have ps: "\<forall>(d, i) \<in> set ps. colon_free d \<and> colon_free i" using Cons.prems(1) by simp
  show ?case
  proof (cases "NewExpDate d")
    case (Inl err)
    then have "dates_of (p # ps) = dates_of ps" by (simp add: p dates_of_def fun_eq_iff)
    then show ?thesis using Cons.IH [OF ps Cons.prems(2)] s Inl by (simp add: p Let_def)
  next
    case (Inr e)
    let ?tmp = "\<lparr>idt_Issuer = NewIssuerFromString i, idt_ExpDates = []\<rparr>"
    let ?d = "case gm_get m i of None \<Rightarrow> ?tmp | Some x \<Rightarrow> x"
    let ?m = "if gm_get m i = None then gm_set i ?tmp m else m"
    let ?n = "gm_set i (?d\<lparr>idt_ExpDates := idt_ExpDates ?d @ [e]\<rparr>) ?m"
    have "gm_ok ?n" using Cons.prems(2) by auto
    from Cons.IH [OF ps this] obtain m' where m': "gather_keys (map (\<lambda>(d, i). serials_key d i) ps) ?n = Inr m'"
        "gm_ok m'" "\<forall>j. gm_get m' j = add_dates j (gm_get ?n j) (dates_of ps j)" by blast
    have g: "gather_keys (map (\<lambda>(d, i). serials_key d i) (p # ps)) m = Inr m'"
      using m'(1) s Inr by (cases "gm_get m i") (simp_all add: p Let_def)
    have "gm_get ?n j = add_dates j (gm_get m j) (if j = i then [e] else [])" for j
      by (cases "j = i"; cases "gm_get m i") (simp_all, simp_all add: add_dates_def)
    moreover have "dates_of (p # ps) j = (if j = i then [e] else []) @ dates_of ps j" for j
      using Inr by (simp add: p dates_of_def)
    ultimately have "gm_get m' j = add_dates j (gm_get m j) (dates_of (p # ps) j)" for j
      using m'(3) by simp
    then show ?thesis using g m'(2) by blast
  qed
qed

lemma GetIssuerAndDates_list:
  assumes "rearranges ord" and "\<forall>(d, i) \<in> set ps. colon_free d \<and> colon_free i"
    and "rc_KeysToChan rc ''serials::*'' (extCache db) = Done ((map (\<lambda>(d, i). serials_key d i) ps, None), c)"
  shows "\<exists>l. GetIssuerAndDatesFromCache rc ord db = Done ((l, None), db\<lparr>extCache := c\<rparr>)
    \<and> distinct l
    \<and> set l = {\<lparr>idt_Issuer = NewIssuerFromString i, idt_ExpDates = dates_of ps i\<rparr> | i. dates_of ps i \<noteq> []}"
proof -
  obtain m where g: "gather_keys (map (\<lambda>(d, i). serials_key d i) ps) [] = Inr m" and m: "gm_ok m"
      "\<And>i. gm_get m i = add_dates i None (dates_of ps i)"
    using gather_keys_spec [OF assms(2), of "[]"] by auto
  have get: "gm_get m i = Some d \<longleftrightarrow> dates_of ps i \<noteq> [] \<and> d = \<lparr>idt_Issuer = NewIssuerFromString i, idt_ExpDates = dates_of ps i\<rparr>" for i d
    using m(2) [of i] by (auto simp: add_dates_def)
  have mem: "(i, d) \<in> set m \<longleftrightarrow> gm_get m i = Some d" for i d
    using m(1) by (simp add: gm_ok_def)
  have "distinct (map snd m)"
  proof -
    have "inj_on snd (set m)"
    proof (rule inj_onI)
      fix x y assume x: "x \<in> set m" and y: "y \<in> set m" and e: "snd x = snd y"
      have "snd x = \<lparr>idt_Issuer = NewIssuerFromString (fst x), idt_ExpDates = dates_of ps (fst x)\<rparr>"
        "snd y = \<lparr>idt_Issuer = NewIssuerFromString (fst y), idt_ExpDates = dates_of ps (fst y)\<rparr>"
        using x y mem get by (metis prod.collapse)+
      then have "fst x = fst y" using e by (metis IssuerDate.select_convs(1) iss_id_FromString)
      then show "x = y" using e by (simp add: prod_eq_iff)
    qed
    moreover have "distinct m" using m(1) unfolding gm_ok_def distinct_map by blast
    ultimately show ?thesis by (simp add: distinct_map)
  qed
  moreover have "mset (map snd (ord m)) = mset (map snd m)"
    using assms(1) by (simp add: rearranges_def)
  ultimately have "distinct (map snd (ord m))"
    using mset_eq_imp_distinct_iff by blast
  moreover have "set (map snd (ord m)) = {\<lparr>idt_Issuer = NewIssuerFromString i, idt_ExpDates = dates_of ps i\<rparr> | i. dates_of ps i \<noteq> []}"
  proof (rule set_eqI)
    fix x
    have "x \<in> set (map snd (ord m)) \<longleftrightarrow> (\<exists>i. (i, x) \<in> set m)"
      using rearranges_set [OF assms(1), of m] by force
    then show "x \<in> set (map snd (ord m)) \<longleftrightarrow>
      x \<in> {\<lparr>idt_Issuer = NewIssuerFromString i, idt_ExpDates = dates_of ps i\<rparr> | i. dates_of ps i \<noteq> []}"
      unfolding mem get by blast
  qed
  ultimately show ?thesis
    using g assms(3) by (simp add: GetIssuerAndDatesFromCache_def)
qed

text \<open>
  C18. Whatever the remote cache, if the keys it sends are keys of serial sets, the report lists
  each issuer that has a readable date exactly once, with all its dates in the order they were sent;
  unreadable dates are skipped and no issuer is invented.
\<close>

theorem GetIssuerAndDates_groups:
  assumes "rearranges ord" and "\<forall>(d, i) \<in> set ps. colon_free d \<and> colon_free i"
    and "rc_KeysToChan rc ''serials::*'' (extCache db) = Done ((map (\<lambda>(d, i). serials_key d i) ps, None), c)"
  shows "\<exists>l. GetIssuerAndDatesFromCache rc ord db = Done ((l, None), db\<lparr>extCache := c\<rparr>)
    \<and> distinct l
    \<and> set l = {\<lparr>idt_Issuer = NewIssuerFromString i, idt_ExpDates = dates_of ps i\<rparr> | i. dates_of ps i \<noteq> []}"
  using GetIssuerAndDates_list [OF assms] .

theorem GetIssuerAndDates_groups_witness:
  "\<exists>l. GetIssuerAndDatesFromCache ((mock_cache sample_json)\<lparr>rc_KeysToChan :=
        (\<lambda>p c. Done ((map (\<lambda>(d, i). serials_key d i) [(''2029-01-30-4'', ''a''), (''x'', ''b'')], None), c))\<rparr>)
      rev fresh_db = Done ((l, None), fresh_db)
    \<and> set l = {\<lparr>idt_Issuer = NewIssuerFromString ''a'', idt_ExpDates = [sample_bucket]\<rparr>}"
proof -
  let ?ps = "[(''2029-01-30-4'', ''a''), (''x'', ''b'')]"
  have x: "\<exists>err. NewExpDate ''x'' = Inl err"
    using Parse_day_length [of "''x''"] by (cases "Parse_day ''x''") (auto simp: NewExpDate_def NewExpDate_day_def)
  then have d: "dates_of ?ps i = (if i = ''a'' then [sample_bucket] else [])" for i
    by (auto simp: dates_of_def NewExpDate_sample)
  show ?thesis
    using GetIssuerAndDates_groups [OF rearranges_rev, of ?ps "(mock_cache sample_json)\<lparr>rc_KeysToChan :=
        (\<lambda>p c. Done ((map (\<lambda>(d, i). serials_key d i) ?ps, None), c))\<rparr>" fresh_db "extCache fresh_db"]
    unfolding d by auto
qed

section \<open>Where a log resumes\<close>

text \<open>
  C17. A log state whose JSON encoding can be read back is saved in both places, and loaded from
  either: from the cache whatever has happened to the backend since, and from the backend when the
  cache has lost the key of the log, whatever else the cache holds by then.
\<close>

theorem SaveLogState_then_GetLogState:
  fixes db :: "'g mock_db"
  assumes "json_Marshal js l = Inr s" and "json_Unmarshal js s = (Some l, None)"
    and "host @ path = ShortURL l"
  shows "\<exists>db1. SaveLogState (mock_deps js ord gc url_Parse) l db = Done (None, db1)
    \<and> (\<forall>b. GetLogState (mock_deps js ord gc url_Parse) host path (db1\<lparr>fs_backend := b\<rparr>)
          = Done ((l, None), db1\<lparr>fs_backend := b\<rparr>))
    \<and> (\<forall>c. gm_get (Data (snd c)) (ShortURL l) = None \<longrightarrow>
        GetLogState (mock_deps js ord gc url_Parse) host path (db1\<lparr>extCache := c\<rparr>)
          = Done ((l, None), db1\<lparr>extCache := c\<rparr>))"
proof -
  let ?ec = "(snd (extCache db))\<lparr>Data := gm_set (ShortURL l) [s] (Data (snd (extCache db)))\<rparr>"
  let ?b = "(fs_backend db)\<lparr>mb_store := gm_set (''logstate'' @ ShortURL l) s (mb_store (fs_backend db))\<rparr>"
  let ?db1 = "db\<lparr>extCache := (fst (extCache db), ?ec), fs_backend := ?b\<rparr>"
  have "SaveLogState (mock_deps js ord gc url_Parse) l db = Done (None, ?db1)"
    using assms(1) by (simp add: SaveLogState_def mock_cache_def untimed_def Mock_StoreLogState_def mock_backend_def MB_StoreLogState_def)
  moreover have "json_Unmarshal_value js s = Inr l" using assms(2) by (simp add: json_Unmarshal_value_def)
  then have "GetLogState (mock_deps js ord gc url_Parse) host path (?db1\<lparr>fs_backend := b\<rparr>)
      = Done ((l, None), ?db1\<lparr>fs_backend := b\<rparr>)" for b
    using assms by (simp add: GetLogState_def mock_cache_def untimed_def Mock_LoadLogState_def)
  moreover have "GetLogState (mock_deps js ord gc url_Parse) host path (?db1\<lparr>extCache := c\<rparr>)
      = Done ((l, None), ?db1\<lparr>extCache := c\<rparr>)" if "gm_get (Data (snd c)) (ShortURL l) = None" for c
    using assms that
    by (simp add: GetLogState_def mock_cache_def untimed_def Mock_LoadLogState_def mock_backend_def MB_LoadLogState_def Let_def)
  ultimately show ?thesis by blast
qed

definition sample_noop_deps :: "(MockBackend, mock_world, (string, nat) gomap) fs_deps" where
  "sample_noop_deps = (mock_deps sample_json rev map_gcache sample_url)\<lparr>dep_backend := noop_backend\<rparr>"

theorem SaveLogState_then_GetLogState_witness:
  "\<exists>db1. SaveLogState (mock_deps sample_json rev map_gcache sample_url) (blank_log ''log.example/x'') fresh_db = Done (None, db1)
    \<and> GetLogState (mock_deps sample_json rev map_gcache sample_url) ''log.example'' ''/x'' (db1\<lparr>fs_backend := NewMockBackend\<rparr>)
      = Done ((blank_log ''log.example/x'', None), db1\<lparr>fs_backend := NewMockBackend\<rparr>)
    \<and> GetLogState (mock_deps sample_json rev map_gcache sample_url) ''log.example'' ''/x'' (db1\<lparr>extCache := extCache fresh_db\<rparr>)
      = Done ((blank_log ''log.example/x'', None), db1\<lparr>extCache := extCache fresh_db\<rparr>)"
proof -
  let ?l = "blank_log ''log.example/x''"
  have j: "json_Marshal sample_json ?l = Inr ''log.example/x''" "json_Unmarshal sample_json ''log.example/x'' = (Some ?l, None)"
      "''log.example'' @ ''/x'' = ShortURL ?l" "ShortURL ?l = ''log.example/x''"
    by (simp_all add: sample_json_def blank_log_def)
  have "gm_get (Data (snd (extCache fresh_db))) (ShortURL ?l) = None"
    by (simp add: fresh_db_def NewFilesystemDatabase_def NewMockRemoteCache_def)
  then show ?thesis
    using SaveLogState_then_GetLogState [OF j(1,2,3), of rev map_gcache sample_url fresh_db] by blast
qed

text \<open>
  When neither the cache nor the backend yields a log state, for whatever reason, the code
  carries on with a brand new log, whose next entry is the first one, and reports no error.
\<close>

theorem GetLogState_starts_over:
  assumes "rc_LoadLogState (dep_cache deps) (host @ path) (extCache db) = Done ((None, cacheErr), c)"
    and "sb_LoadLogState (dep_backend deps) (host @ path) (fs_backend db) = ((None, backendErr), b)"
  shows "GetLogState deps host path db
    = Done ((\<lparr>ShortURL = host @ path, MaxEntry = 0, LastEntryTime = zero_time, LastUpdateTime = zero_time\<rparr>, None),
        db\<lparr>extCache := c, fs_backend := b\<rparr>)"
  using assms by (simp add: GetLogState_def Let_def blank_log_def)

theorem GetLogState_starts_over_witness:
  "\<exists>c b. GetLogState sample_noop_deps ''log.example'' ''/x'' fresh_db
    = Done ((\<lparr>ShortURL = ''log.example/x'', MaxEntry = 0, LastEntryTime = zero_time, LastUpdateTime = zero_time\<rparr>, None),
        fresh_db\<lparr>extCache := c, fs_backend := b\<rparr>)"
  using GetLogState_starts_over [of sample_noop_deps "''log.example''" "''/x''" fresh_db
      "Some (Errorf ''Log state not found'')" "extCache fresh_db" "Some noopLoadError" "fs_backend fresh_db"]
  by (auto simp: sample_noop_deps_def mock_cache_def untimed_def Mock_LoadLogState_def noop_backend_def
      Noop_LoadLogState_def fresh_db_def NewFilesystemDatabase_def NewMockRemoteCache_def)

end
