(* ===== verification/Log_Json.thy ===== *)
theory Log_Json
  imports Cache_Interface
begin

text \<open>
  The encoding of log states by \<^verbatim>\<open>encoding/json\<close>, a parameter of the caches and backends:
  what is relied on, and an encoding that keeps it.
\<close>

section \<open>What is relied on\<close>

text \<open>
  \<^verbatim>\<open>encoding/json\<close> writes a time as RFC 3339 text, with nanoseconds and an offset of whole
  minutes, and refuses years of more than four digits; within these bounds it reads back what it
  wrote.
\<close>

definition json_time :: "gotime \<Rightarrow> bool" where
  "json_time t \<longleftrightarrow> year_4_digits t \<and> t_off t mod 60 = 0"

definition json_state :: "CertificateLog \<Rightarrow> bool" where
  "json_state l \<longleftrightarrow> json_time (LastEntryTime l) \<and> json_time (LastUpdateTime l)"

definition codec_laws :: "log_json \<Rightarrow> bool" where
  "codec_laws js \<longleftrightarrow> (\<forall>l. json_state l \<longrightarrow>
     (\<exists>s. json_Marshal js l = Inr s \<and> json_Unmarshal_value js s = Inr l))"

section \<open>An instance\<close>

text \<open>Numbers and the URL, separated by commas.\<close>

definition show_int :: "int \<Rightarrow> string" where
  "show_int i = (if i < 0 then CHR ''-'' else CHR ''+'') # dec_of_nat (nat \<bar>i\<bar>)"

definition read_int :: "string \<Rightarrow> int" where
  "read_int s = (if hd s = CHR ''-'' then - int (nat_of_dec (tl s)) else int (nat_of_dec (tl s)))"

lemma read_show_int [simp]: "read_int (show_int i) = i"
  by (simp add: read_int_def show_int_def)

lemma show_int_no_comma: "CHR '','' \<notin> set (show_int i)"
proof -
  have "\<not> is_digit CHR '',''" by (simp add: is_digit_def)
  then have "CHR '','' \<notin> set (dec_of_nat (nat \<bar>i\<bar>))" using digits_dec_of_nat by blast
  then show ?thesis by (simp add: show_int_def)
qed

definition show_log :: "CertificateLog \<Rightarrow> string" where
  "show_log l = show_int (MaxEntry l) @ '','' @ show_int (t_ns (LastEntryTime l)) @ '','' @ show_int (t_off (LastEntryTime l))
     @ '','' @ show_int (t_ns (LastUpdateTime l)) @ '','' @ show_int (t_off (LastUpdateTime l)) @ '','' @ ShortURL l"

definition read_log :: "string \<Rightarrow> CertificateLog option" where
  "read_log s = (case strings_split '','' s of
     m # a # b # c # d # u \<Rightarrow>
       Some \<lparr>ShortURL = strings_join '','' u, MaxEntry = read_int m, LastEntryTime = \<lparr>t_ns = read_int a, t_off = read_int b\<rparr>,
             LastUpdateTime = \<lparr>t_ns = read_int c, t_off = read_int d\<rparr>\<rparr>
   | _ \<Rightarrow> None)"

lemma read_show_log: "read_log (show_log l) = Some l"
proof -
  have split: "strings_split '','' (show_int i @ '','' @ b) = show_int i # strings_split '','' b" for i b
    using strings_split_step [OF show_int_no_comma, of "[]" i b] by simp
  show ?thesis
    unfolding read_log_def show_log_def split by (simp add: strings_join_split)
qed

definition comma_json :: log_json where
  "comma_json = \<lparr>json_Marshal = (\<lambda>l. Inr (show_log l)), json_Unmarshal = (\<lambda>s. (read_log s, None))\<rparr>"

lemma comma_json_laws: "codec_laws comma_json"
  by (simp add: codec_laws_def comma_json_def json_Unmarshal_value_def read_show_log)

end
