(* ===== verification/Cert_Database.thy ===== *)
theory Cert_Database
  imports CT_Fetch Database_Properties Log_Json
begin

text \<open>
  What the download program relies on in its \<^verbatim>\<open>CertDatabase\<close>, as a locale, and the proof
  that \<^verbatim>\<open>FilesystemDatabase\<close> provides it on the in-memory cache and backend.
\<close>

section \<open>The contract\<close>

text \<open>
  \<open>saved\<close> is the state that will be loaded for a log, for the URLs that are not keys of the database
  itself (\<open>log_key\<close>) and the states that can be encoded; \<open>stored\<close> gives the text that is kept for a
  certificate, if it is recorded. Storing a certificate that is recorded changes no text.
\<close>

locale cert_database =
  fixes cd :: "'d CertDatabase"
    and inv :: "'d \<Rightarrow> bool"
    and saved :: "'d \<Rightarrow> string \<Rightarrow> CertificateLog option"
    and stored :: "'d \<Rightarrow> cert_key \<Rightarrow> string option"
  assumes Save_law: "inv d \<Longrightarrow> log_key (ShortURL l) \<Longrightarrow> json_state l \<Longrightarrow>
      \<exists>err d'. cd_SaveLogState cd l d = Done (err, d') \<and> inv d' \<and> stored d' = stored d
        \<and> saved d' = (saved d)(ShortURL l \<mapsto> l)"
  and Get_law: "inv d \<Longrightarrow> saved d (host @ path) = Some l \<Longrightarrow>
      \<exists>d'. cd_GetLogState cd host path d = Done ((l, None), d') \<and> inv d' \<and> stored d' = stored d \<and> saved d' = saved d"
  and Store_law: "inv d \<Longrightarrow> storable (c, ca) \<Longrightarrow>
      \<exists>err d'. cd_Store cd c ca url i d = Done (err, d') \<and> inv d' \<and> saved d' = saved d
        \<and> (\<forall>k. stored d' k \<noteq> stored d k \<longrightarrow> k = stored_key (c, ca) \<and> stored d k = None
              \<and> stored d' k = Some (pem_EncodeToMemory ''CERTIFICATE'' (Raw c)))"

text \<open>A database that never fails to store.\<close>

locale reliable_database = cert_database +
  assumes Store_ok: "inv d \<Longrightarrow> storable (c, ca) \<Longrightarrow> cd_Store cd c ca url i d = Done (err, d') \<Longrightarrow>
      err = None \<and> stored d' (stored_key (c, ca)) \<noteq> None"

section \<open>The filesystem database on the in-memory cache and backend\<close>

definition saved_log :: "log_json \<Rightarrow> 'g mock_db \<Rightarrow> string \<Rightarrow> CertificateLog option" where
  "saved_log js db u =
     (if log_key u
      then (case gm_list (Data (snd (extCache db))) u of
              [s] \<Rightarrow> (case json_Unmarshal_value js s of Inr l \<Rightarrow> Some l | Inl err \<Rightarrow> None)
            | _ \<Rightarrow> None)
      else None)"

definition stored_cert :: "'g mock_db \<Rightarrow> cert_key \<Rightarrow> bool" where
  "stored_cert db k \<longleftrightarrow> mb_key_ok k \<and> recorded db k"

definition stored_text :: "'g mock_db \<Rightarrow> cert_key \<Rightarrow> string option" where
  "stored_text db k = (if stored_cert db k then mb_pem (fs_backend db) k else None)"

lemma stored_text_iff: "db_inv held db \<Longrightarrow> stored_text db k \<noteq> None \<longleftrightarrow> stored_cert db k"
  by (cases k) (auto simp: stored_text_def stored_cert_def db_inv_def)

text \<open>A sorted slice is determined by its contents, so equal contents give equal states.\<close>

lemma gm_list_contents:
  assumes "mock_ok ec" and "mock_ok ec'" and "mock_contents ec' k = mock_contents ec k"
  shows "gm_list (Data ec') k = gm_list (Data ec) k"
  using assms sorted_distinct_set_unique [of "gm_list (Data ec') k" "gm_list (Data ec) k"]
    mock_ok_sorted [OF assms(1), of k] mock_ok_sorted [OF assms(2), of k]
  by (simp add: strict_sorted_iff mock_contents_def)

lemma stored_key_ok: "storable cc \<Longrightarrow> mb_key_ok (stored_key cc)"
  by (simp add: storable_def stored_key_def store_key_ok)

lemma db_inv_world: "db_inv held db \<Longrightarrow> mock_ok (snd (extCache db))"
  by (simp add: db_inv_def world_ok_def)

lemma Store_mock_law:
  fixes db :: "'g mock_db"
  assumes "gcache_laws gc held" and "db_inv held db" and "storable (c, ca)"
  obtains db' where "Store (mock_deps js ord gc url_Parse) c ca url i db = Done (None, db')" and "db_inv held db'"
    and "saved_log js db' = saved_log js db"
    and "\<And>k. stored_text db' k =
      (if k = stored_key (c, ca) \<and> stored_text db k = None then Some (pem_EncodeToMemory ''CERTIFICATE'' (Raw c))
       else stored_text db k)"
proof -
  obtain n where t: "t_off (NotAfter c) = 0" "year_4_digits (NotAfter c)" and n: "NewSerial c = Done n"
    using assms(3) by (auto simp: storable_def split: outcome.splits)
  have k: "stored_key (c, ca) = cert_key (NewExpDateFromTime (NotAfter c)) (NewIssuer ca) n"
    by (simp add: stored_key_def n)
  show ?thesis
  proof (rule Store_mock [OF assms(1,2) t n, of js ord url_Parse ca url i])
    fix db'
    assume s: "Store (mock_deps js ord gc url_Parse) c ca url i db = Done (None, db')" and inv: "db_inv held db'"
      and r: "\<And>k. mb_key_ok k \<Longrightarrow> recorded db' k =
        (k = cert_key (NewExpDateFromTime (NotAfter c)) (NewIssuer ca) n \<or> recorded db k)"
      and p: "\<And>k. mb_key_ok k \<Longrightarrow> mb_pem (fs_backend db') k =
        (if k = cert_key (NewExpDateFromTime (NotAfter c)) (NewIssuer ca) n \<and> \<not> recorded db k
         then Some (pem_EncodeToMemory ''CERTIFICATE'' (Raw c)) else mb_pem (fs_backend db) k)"
      and f: "\<And>k. log_key k \<Longrightarrow> mock_contents (snd (extCache db')) k = mock_contents (snd (extCache db)) k"
    have "gm_list (Data (snd (extCache db'))) u = gm_list (Data (snd (extCache db))) u" if "log_key u" for u
      by (rule gm_list_contents [OF db_inv_world [OF assms(2)] db_inv_world [OF inv] f [OF that]])
    then have "saved_log js db' = saved_log js db" by (auto simp: saved_log_def fun_eq_iff)
    moreover have "stored_text db' k =
      (if k = stored_key (c, ca) \<and> stored_text db k = None then Some (pem_EncodeToMemory ''CERTIFICATE'' (Raw c))
       else stored_text db k)" for k
    proof (cases "mb_key_ok k")
      case True
      have "stored_text db k = None \<longleftrightarrow> \<not> recorded db k"
        using stored_text_iff [OF assms(2), of k] True by (auto simp: stored_cert_def)
      then show ?thesis using r [OF True] p [OF True] True by (auto simp: stored_text_def stored_cert_def k)
    next
      case False
      then show ?thesis using stored_key_ok [OF assms(3)] by (auto simp: stored_text_def stored_cert_def)
    qed
    ultimately show ?thesis using that [OF s inv] by blast
  qed
qed

text \<open>Saving a log state touches its own key only, in the cache and in the backend.\<close>

lemma Save_mock_law:
  fixes db :: "'g mock_db"
  assumes "codec_laws js" and "db_inv held db" and u: "log_key (ShortURL l)" and "json_state l"
  obtains err db' where "SaveLogState (mock_deps js ord gc url_Parse) l db = Done (err, db')" and "db_inv held db'"
    and "stored_text db' = stored_text db" and "saved_log js db' = (saved_log js db)(ShortURL l \<mapsto> l)"
proof -
  obtain s where s: "json_Marshal js l = Inr s" "json_Unmarshal_value js s = Inr l"
    using assms(1,4) by (auto simp: codec_laws_def)
  let ?ec = "(snd (extCache db))\<lparr>Data := gm_set (ShortURL l) [s] (Data (snd (extCache db)))\<rparr>"
  let ?st = "(fs_backend db)\<lparr>mb_store := gm_set (''logstate'' @ ShortURL l) s (mb_store (fs_backend db))\<rparr>"
  define db' where "db' = db\<lparr>extCache := (fst (extCache db), ?ec), fs_backend := ?st\<rparr>"
  have save: "SaveLogState (mock_deps js ord gc url_Parse) l db = Done (None, db')"
    by (simp add: SaveLogState_def mock_cache_def untimed_def Mock_StoreLogState_def s mock_backend_def
        MB_StoreLogState_def db'_def)
  have w: "world_ok (extCache db)" "mb_sorted (fs_backend db)" "fs_ok held db" "allocated db"
    and rec: "\<And>k. mb_key_ok k \<Longrightarrow> recorded db k \<Longrightarrow>
      mb_pem (fs_backend db) k \<noteq> None \<and> fst (snd k) \<in> mb_issuers (fs_backend db) (fst k)"
    using assms(2) unfolding db_inv_def by blast+
  have r: "recorded db' k = recorded db k" for k
  proof (cases k)
    case (fields e i n)
    have "serials_key e i \<noteq> ShortURL l" using log_key_other [OF u] by metis
    then show ?thesis by (simp add: fields recorded_def db'_def mock_contents_def gm_list_def)
  qed
  have pem: "mb_pem (fs_backend db') k = mb_pem (fs_backend db) k" for k
    by (cases k) (simp add: mb_pem_def db'_def)
  have is2: "mb_issuers (fs_backend db') = mb_issuers (fs_backend db)" "mb_sorted (fs_backend db') = mb_sorted (fs_backend db)"
    by (simp_all add: mb_issuers_def mb_sorted_def fun_eq_iff db'_def)
  have "db_inv held db'"
    unfolding db_inv_def
  proof (intro conjI allI impI)
    show "world_ok (extCache db')" using w(1) by (simp add: db'_def world_ok_def mock_ok_set)
    show "mb_sorted (fs_backend db')" using w(2) is2 by simp
    show "fs_ok held db'" using w(3) by (simp add: fs_ok_def db'_def)
    show "allocated db'" using w(4) is2 by (simp add: allocated_def db'_def)
    fix k assume "mb_key_ok k" "recorded db' k"
    then show "mb_pem (fs_backend db') k \<noteq> None" "fst (snd k) \<in> mb_issuers (fs_backend db') (fst k)"
      using rec r pem is2 by simp_all
  qed
  moreover have "stored_text db' = stored_text db" by (simp add: stored_text_def stored_cert_def fun_eq_iff r pem)
  moreover have "saved_log js db' = (saved_log js db)(ShortURL l \<mapsto> l)"
    using u s(2) by (auto simp: saved_log_def fun_eq_iff db'_def gm_list_def)
  ultimately show ?thesis using that [OF save] by blast
qed

lemma Get_mock_law:
  fixes db :: "'g mock_db"
  assumes "saved_log js db (host @ path) = Some l"
  shows "GetLogState (mock_deps js ord gc url_Parse) host path db = Done ((l, None), db)"
proof -
  obtain s where d: "gm_list (Data (snd (extCache db))) (host @ path) = [s]" and s: "json_Unmarshal_value js s = Inr l"
    using assms by (auto simp: saved_log_def split: if_splits list.splits sum.splits)
  then have "gm_get (Data (snd (extCache db))) (host @ path) = Some [s]"
    by (simp add: gm_list_def split: option.splits)
  then show ?thesis
    using s by (simp add: GetLogState_def mock_cache_def untimed_def Mock_LoadLogState_def)
qed

text \<open>
  The database with a lawful \<^verbatim>\<open>gcache\<close> and encoding keeps the contract. The laws of
  those two are packed into the invariant, so that the contract has one instance.
\<close>

definition mock_inv :: "log_json \<Rightarrow> 'g gcache \<Rightarrow> ('g \<Rightarrow> string \<Rightarrow> nat option) \<Rightarrow> 'g mock_db \<Rightarrow> bool" where
  "mock_inv js gc held db \<longleftrightarrow> codec_laws js \<and> gcache_laws gc held \<and> db_inv held db"

interpretation mock_certdb: reliable_database
  "filesystem_certdb (mock_deps js ord gc url_Parse)" "mock_inv js gc held" "saved_log js" stored_text
proof (unfold_locales, goal_cases)
  case (1 d l)
  then have "codec_laws js" "db_inv held d" by (simp_all add: mock_inv_def)
  from Save_mock_law [OF this 1(2,3), of ord gc url_Parse] show ?case
    using 1(1) unfolding filesystem_certdb_def mock_inv_def CertDatabase.select_convs by metis
next
  case (2 d host path l)
  then show ?case
    using Get_mock_law [OF 2(2), of ord gc url_Parse] by (simp add: filesystem_certdb_def)
next
  case (3 d c ca url i)
  then have "gcache_laws gc held" "db_inv held d" by (simp_all add: mock_inv_def)
  then show ?case
    by (rule Store_mock_law [OF _ _ 3(2), of gc held d js ord url_Parse url i])
      (use 3(1) in \<open>auto simp: filesystem_certdb_def mock_inv_def split: if_splits\<close>)
next
  case (4 d c ca url i err d')
  then have "gcache_laws gc held" "db_inv held d" by (simp_all add: mock_inv_def)
  then show ?case
    by (rule Store_mock_law [OF _ _ 4(2), of gc held d js ord url_Parse url i])
      (use 4(3) in \<open>auto simp: filesystem_certdb_def\<close>)
qed

lemma stored_text_cert: "mock_inv js gc held db \<Longrightarrow> stored_text db k \<noteq> None \<longleftrightarrow> stored_cert db k"
  unfolding mock_inv_def using stored_text_iff by blast

end
