(* ===== verification/Log_Sync.thy ===== *)
theory Log_Sync
  imports Cert_Database
begin

text \<open>
  One log being synchronised: the download worker of \<^verbatim>\<open>ct-fetch.go\<close>, the channel it fills,
  and the workers that insert what they take from the channel, as one step relation over the
  database they share. The server is honest: its answers are leaves of one log, from the requested
  index on and not past the requested end; it may answer with fewer leaves, or with an error.
\<close>

section \<open>The system\<close>

record ('raw, 'd) sync_env =
  en_lib :: "'raw ct_library"
  en_cfg :: CTConfig
  en_db :: "'d CertDatabase"
  en_zone :: int
  en_log :: "nat \<Rightarrow> 'raw"

text \<open>
  \<open>sy_busy\<close> are the entries that insert workers have taken and not yet dealt with; \<open>sy_done\<close> tells
  that \<^verbatim>\<open>Run\<close> has saved the final state and returned.
\<close>

record ('raw, 'd) sync =
  sy_lw :: LogWorker
  sy_dl :: "'raw download"
  sy_chan :: "LogEntry list"
  sy_busy :: "LogEntry list"
  sy_db :: 'd
  sy_lastUpdate :: gotime
  sy_done :: bool

text \<open>\<^verbatim>\<open>entryChan\<close> has room for this many entries.\<close>

definition chan_room :: nat where
  "chan_room = 1024 * 16"

text \<open>The system where \<^verbatim>\<open>Run\<close> starts; it returns at once when there is nothing to do.\<close>

definition sync_start :: "LogWorker \<Rightarrow> 'd \<Rightarrow> ('raw, 'd) sync" where
  "sync_start lw db =
     \<lparr>sy_lw = lw, sy_dl = dl_start lw, sy_chan = [], sy_busy = [], sy_db = db, sy_lastUpdate = zero_time,
      sy_done = (lw_StartPos lw = lw_EndPos lw)\<rparr>"

text \<open>The leaves an honest server may answer with: \<open>n\<close> of them.\<close>

definition served :: "(nat \<Rightarrow> 'raw) \<Rightarrow> LogWorker \<Rightarrow> 64 word \<Rightarrow> nat \<Rightarrow> 'raw list \<Rightarrow> bool" where
  "served log lw index n rs \<longleftrightarrow>
     rs = map log [unat index ..< unat index + n] \<and> unat index + n \<le> Suc (unat (request_max lw index))"

text \<open>The label of an insertion shows the entry and the time at which the filter looked at the clock.\<close>

datatype sync_label =
    Respond nat | Fail go_error | Accept | Tick | Signal | Finish | Take | Insert LogEntry gotime

inductive sync_step ::
    "('raw, 'd) sync_env \<Rightarrow> sync_label \<Rightarrow> ('raw, 'd) sync \<Rightarrow> ('raw, 'd) sync \<Rightarrow> bool" for env where
  respond: "\<lbrakk>dl_pc (sy_dl s) = Fetching; \<not> sy_done s; served (en_log env) (sy_lw s) (dl_index (sy_dl s)) n rs\<rbrakk>
    \<Longrightarrow> sync_step env (Respond n) s (s\<lparr>sy_dl := dl_entries (en_lib env) (sy_lw s) rs (sy_dl s)\<rparr>)"
| fail: "\<lbrakk>dl_pc (sy_dl s) = Fetching; \<not> sy_done s\<rbrakk>
    \<Longrightarrow> sync_step env (Fail err) s (s\<lparr>sy_dl := dl_failed (sy_lw s) err (sy_dl s)\<rparr>)"
| accept: "\<lbrakk>dl_pc (sy_dl s) = Submitting e rest; length (sy_chan s) < chan_room\<rbrakk>
    \<Longrightarrow> sync_step env Accept s (s\<lparr>sy_chan := sy_chan s @ [e],
          sy_dl := dl_accepted (en_lib env) (en_zone env) (sy_lw s) e rest (sy_dl s)\<rparr>)"
| tick: "\<lbrakk>dl_pc (sy_dl s) = Submitting e rest; json_time now;
      saveState (en_db env) now (dl_index (sy_dl s)) (dl_last (sy_dl s)) (sy_lw s, sy_db s) = Done (lw, db)\<rbrakk>
    \<Longrightarrow> sync_step env Tick s (s\<lparr>sy_lw := lw, sy_db := db\<rparr>)"
| signal: "dl_pc (sy_dl s) = Submitting e rest \<Longrightarrow> sync_step env Signal s (s\<lparr>sy_dl := dl_signal (sy_dl s)\<rparr>)"
| finish: "\<lbrakk>dl_pc (sy_dl s) = Returned err; \<not> sy_done s; json_time now;
      saveState (en_db env) now (dl_index (sy_dl s)) (dl_last (sy_dl s)) (sy_lw s, sy_db s) = Done (lw, db)\<rbrakk>
    \<Longrightarrow> sync_step env Finish s (s\<lparr>sy_lw := lw, sy_db := db, sy_done := True\<rparr>)"
| take: "sy_chan s = e # q \<Longrightarrow> sync_step env Take s (s\<lparr>sy_chan := q, sy_busy := e # sy_busy s\<rparr>)"
| insert: "\<lbrakk>sy_busy s = xs @ e # ys;
      insert_entry (en_lib env) (en_cfg env) (en_db env) now health (lw_LogURL (sy_lw s)) e (sy_db s, sy_lastUpdate s)
        = Done (db, upd)\<rbrakk>
    \<Longrightarrow> sync_step env (Insert e now) s (s\<lparr>sy_busy := xs @ ys, sy_db := db, sy_lastUpdate := upd\<rparr>)"

inductive_cases sync_TakeE: "sync_step env Take s s'"
inductive_cases sync_InsertE: "sync_step env (Insert e now) s s'"
inductive_cases sync_TickE: "sync_step env Tick s s'"
inductive_cases sync_FinishE: "sync_step env Finish s s'"

text \<open>Runs from a state, with the labels of their steps.\<close>

inductive sync_run ::
    "('raw, 'd) sync_env \<Rightarrow> ('raw, 'd) sync \<Rightarrow> sync_label list \<Rightarrow> ('raw, 'd) sync \<Rightarrow> bool" for env s0 where
  start: "sync_run env s0 [] s0"
| step: "sync_run env s0 ls s \<Longrightarrow> sync_step env l s s' \<Longrightarrow> sync_run env s0 (ls @ [l]) s'"

text \<open>The insertions of a run, which its labels show: the entries, and what the clock said.\<close>

fun insertion :: "sync_label \<Rightarrow> (LogEntry \<times> gotime) set" where
  "insertion (Insert e now) = {(e, now)}"
| "insertion l = {}"

definition insertions :: "sync_label list \<Rightarrow> (LogEntry \<times> gotime) set" where
  "insertions ls = (\<Union>l \<in> set ls. insertion l)"

lemma insertion_iff: "(e, now) \<in> insertion l \<longleftrightarrow> l = Insert e now"
  by (cases l) auto

lemma insertions_simps [simp]:
  "insertions [] = {}" "insertions (l # ls) = insertion l \<union> insertions ls" "insertions (ls @ ls') = insertions ls \<union> insertions ls'"
  by (simp_all add: insertions_def)

section \<open>What a log holds\<close>

text \<open>The entry at an index, if it is not erroneous.\<close>

definition entry_at :: "('raw, 'd) sync_env \<Rightarrow> nat \<Rightarrow> LogEntry option" where
  "entry_at env i =
     (case ct_LogEntryFromLeaf (en_lib env) (int i) (en_log env i) of
        (e, Some (FatalError err)) \<Rightarrow> None
      | (e, _) \<Rightarrow> Some e)"

text \<open>The certificate and issuer certificate to be stored for an entry, if the filter does not drop it.\<close>

definition wanted :: "('raw, 'd) sync_env \<Rightarrow> LogEntry \<Rightarrow> (Certificate \<times> Certificate) option" where
  "wanted env e =
     (case entry_certificate (en_lib env) e of
        Done (Inl (Some cert)) \<Rightarrow>
          (if le_Chain e = [] then None
           else case x509_ParseCertificate (en_lib env) (le_Chain e ! 0) of
                  Inl err \<Rightarrow> None
                | Inr ca \<Rightarrow> Some (cert, ca))
      | _ \<Rightarrow> None)"

text \<open>
  What the workers need of the entries of a log: times that can be encoded and certificates that
  can be stored.
\<close>

definition log_ok :: "('raw, 'd) sync_env \<Rightarrow> bool" where
  "log_ok env \<longleftrightarrow> (\<forall>i e. entry_at env i = Some e \<longrightarrow>
     json_time (uint64ToTimestamp (en_zone env) (le_Timestamp e)) \<and> (\<forall>cc. wanted env e = Some cc \<longrightarrow> storable cc))"

section \<open>Requests\<close>

text \<open>Below \<open>2 ^ 63\<close> a request asks for 1 to 1001 entries, all of them below the end.\<close>

lemma request_max_bounds:
  assumes "index < lw_EndPos lw" and "unat (lw_EndPos lw) < 2 ^ 63"
  shows "unat index \<le> unat (request_max lw index)" and "unat (request_max lw index) < unat (lw_EndPos lw)"
    and "unat (request_max lw index) \<le> unat index + 1000"
proof -
  have i: "unat index < unat (lw_EndPos lw)" using assms(1) by (simp add: word_less_nat_alt)
  then have m: "unat (index + 1000) = unat index + 1000"
    using assms(2) by (subst unat_add_lem [THEN iffD1]) simp_all
  have e: "unat (lw_EndPos lw - 1) = unat (lw_EndPos lw) - 1"
    using i by (intro unat_minus_one) auto
  show "unat index \<le> unat (request_max lw index)" "unat (request_max lw index) < unat (lw_EndPos lw)"
    "unat (request_max lw index) \<le> unat index + 1000"
    using i m e by (auto simp: request_max_def Let_def word_le_nat_alt)
qed

section \<open>The download\<close>

text \<open>
  At every moment the index is between the start and the end, the entry being submitted is the one
  at the index, and the leaves in hand are those that follow it.
\<close>

definition download_ok :: "('raw, 'd) sync_env \<Rightarrow> LogWorker \<Rightarrow> 'raw download \<Rightarrow> bool" where
  "download_ok env lw d \<longleftrightarrow>
     lw_StartPos lw \<le> dl_index d \<and> dl_index d \<le> lw_EndPos lw
     \<and> (case dl_pc d of
          Fetching \<Rightarrow> dl_index d < lw_EndPos lw
        | Submitting e rest \<Rightarrow> entry_at env (unat (dl_index d)) = Some e
            \<and> (\<exists>m. unat (dl_index d) < m \<and> m \<le> unat (lw_EndPos lw) \<and> rest = map (en_log env) [Suc (unat (dl_index d)) ..< m])
        | Returned err \<Rightarrow> True)
     \<and> (\<forall>t. dl_last d = Some t \<longrightarrow> json_time t)"

text \<open>There is no entry between two indices.\<close>

definition no_entry :: "('raw, 'd) sync_env \<Rightarrow> nat \<Rightarrow> nat \<Rightarrow> bool" where
  "no_entry env i k \<longleftrightarrow> (\<forall>j. i \<le> j \<longrightarrow> j < k \<longrightarrow> entry_at env j = None)"

lemma no_entry_step: "entry_at env i = None \<Longrightarrow> no_entry env (Suc i) k \<Longrightarrow> no_entry env i k"
  unfolding no_entry_def by (metis Suc_leI le_neq_implies_less)

lemma next_decodable_spec:
  assumes "rs = map (en_log env) [unat index ..< m]" and "unat index \<le> m" and "m \<le> unat (E :: 64 word)" and "unat E < 2 ^ 63"
  shows "case next_decodable (en_lib env) rs index of
      (index', None) \<Rightarrow> unat index' = m \<and> no_entry env (unat index) m
    | (index', Some (e, rest)) \<Rightarrow> unat index \<le> unat index' \<and> unat index' < m \<and> entry_at env (unat index') = Some e
        \<and> no_entry env (unat index) (unat index') \<and> rest = map (en_log env) [Suc (unat index') ..< m]"
  using assms(1,2)
proof (induction rs arbitrary: index)
  case Nil
  then have "unat index = m" by (cases "m = 0") auto
  then show ?case by (simp add: no_entry_def)
next
  case (Cons r rs)
  then have lt: "unat index < m" by (metis list.distinct(1) list.simps(8) nat_less_le upt_conv_Nil order_refl)
  then have "[unat index ..< m] = unat index # [Suc (unat index) ..< m]" by (rule upt_conv_Cons)
  then have r: "r = en_log env (unat index)" and rs: "rs = map (en_log env) [Suc (unat index) ..< m]"
    using Cons.prems(1) by simp_all
  have s: "sint index = int (unat index)" using lt assms(3,4) by (intro sint_small) simp
  have suc: "unat (index + 1) = Suc (unat index)"
    using lt assms(3) by (intro unat_index_Suc [of _ E]) (simp add: word_less_nat_alt)
  obtain e err where l: "ct_LogEntryFromLeaf (en_lib env) (int (unat index)) r = (e, err)" by fastforce
  show ?case
  proof (cases "\<exists>x. err = Some (FatalError x)")
    case True
    then have skip: "next_decodable (en_lib env) (r # rs) index = next_decodable (en_lib env) rs (index + 1)"
      and none: "entry_at env (unat index) = None"
      using l s r by (auto simp: entry_at_def)
    have "case next_decodable (en_lib env) rs (index + 1) of
      (index', None) \<Rightarrow> unat index' = m \<and> no_entry env (Suc (unat index)) m
    | (index', Some (e, rest)) \<Rightarrow> Suc (unat index) \<le> unat index' \<and> unat index' < m \<and> entry_at env (unat index') = Some e
        \<and> no_entry env (Suc (unat index)) (unat index') \<and> rest = map (en_log env) [Suc (unat index') ..< m]"
      using Cons.IH [of "index + 1"] rs lt suc by (auto split: prod.splits option.splits)
    then show ?thesis
      unfolding skip using no_entry_step [OF none] by (auto split: prod.splits option.splits)
  next
    case False
    then have "next_decodable (en_lib env) (r # rs) index = (index, Some (e, rs))"
      and "entry_at env (unat index) = Some e"
      using l s r by (auto simp: entry_at_def split: option.splits leaf_error.splits)
    then show ?thesis using lt rs by (simp add: no_entry_def)
  qed
qed

text \<open>Going on with leaves in hand skips erroneous entries only and stays in order.\<close>

lemma dl_entries_ok:
  assumes "rs = map (en_log env) [unat (dl_index d) ..< m]" and "unat (dl_index d) \<le> m" and "m \<le> unat (lw_EndPos lw)"
    and "unat (lw_EndPos lw) < 2 ^ 63" and "lw_StartPos lw \<le> dl_index d" and "\<forall>t. dl_last d = Some t \<longrightarrow> json_time t"
  shows "download_ok env lw (dl_entries (en_lib env) lw rs d)"
    and "dl_index d \<le> dl_index (dl_entries (en_lib env) lw rs d)"
    and "no_entry env (unat (dl_index d)) (unat (dl_index (dl_entries (en_lib env) lw rs d)))"
proof -
  obtain i r where n: "next_decodable (en_lib env) rs (dl_index d) = (i, r)" by fastforce
  note spec = next_decodable_spec [OF assms(1-4), unfolded n prod.case]
  have "download_ok env lw (dl_entries (en_lib env) lw rs d) \<and> dl_index d \<le> dl_index (dl_entries (en_lib env) lw rs d)
    \<and> no_entry env (unat (dl_index d)) (unat (dl_index (dl_entries (en_lib env) lw rs d)))"
  proof (cases r)
    case None
    then have "unat i = m" "no_entry env (unat (dl_index d)) m" using spec by simp_all
    then show ?thesis
      using None assms(2,3,5,6) n
      by (auto simp: dl_entries_def download_ok_def loop_head_def word_le_nat_alt word_less_nat_alt)
  next
    case (Some er)
    then obtain e rest where er: "r = Some (e, rest)" by (cases er) auto
    then show ?thesis
      using spec assms(3,5,6) n
      by (auto simp: dl_entries_def download_ok_def word_le_nat_alt intro!: exI [of _ m])
  qed
  then show "download_ok env lw (dl_entries (en_lib env) lw rs d)"
    "dl_index d \<le> dl_index (dl_entries (en_lib env) lw rs d)"
    "no_entry env (unat (dl_index d)) (unat (dl_index (dl_entries (en_lib env) lw rs d)))" by blast+
qed

section \<open>Accounting for the entries\<close>

definition entry_in :: "('raw, 'd) sync_env \<Rightarrow> nat \<Rightarrow> nat \<Rightarrow> LogEntry \<Rightarrow> bool" where
  "entry_in env a i e \<longleftrightarrow> (\<exists>j. a \<le> j \<and> j < i \<and> entry_at env j = Some e)"

text \<open>Every entry of a range is in a set: of those that are pending or have been inserted.\<close>

definition accounted :: "('raw, 'd) sync_env \<Rightarrow> nat \<Rightarrow> nat \<Rightarrow> LogEntry set \<Rightarrow> bool" where
  "accounted env a i P \<longleftrightarrow> (\<forall>e. entry_in env a i e \<longrightarrow> e \<in> P)"

text \<open>
  The certificate of an insertion is to be stored unless the filter drops it at the time that it
  read from the clock. \<open>R\<close> are the insertions so far, \<open>has\<close> the texts that the database keeps.
\<close>

definition to_store :: "('raw, 'd) sync_env \<Rightarrow> LogEntry \<Rightarrow> gotime \<Rightarrow> Certificate \<times> Certificate \<Rightarrow> bool" where
  "to_store env e now cc \<longleftrightarrow> wanted env e = Some cc \<and> \<not> certIsFilteredOut (en_cfg env) now (fst cc)"

definition kept :: "('raw, 'd) sync_env \<Rightarrow> (LogEntry \<times> gotime) set \<Rightarrow> (cert_key \<Rightarrow> string option) \<Rightarrow> bool" where
  "kept env R has \<longleftrightarrow> (\<forall>(e, now) \<in> R. \<forall>cc. to_store env e now cc \<longrightarrow> has (stored_key cc) \<noteq> None)"

text \<open>An entry is dealt with when it has been inserted, and its certificate is kept if it was to be stored.\<close>

definition handled :: "('raw, 'd) sync_env \<Rightarrow> (LogEntry \<times> gotime) set \<Rightarrow> (cert_key \<Rightarrow> string option) \<Rightarrow> LogEntry \<Rightarrow> bool" where
  "handled env R has e \<longleftrightarrow> (\<exists>now. (e, now) \<in> R)
     \<and> (\<forall>now cc. (e, now) \<in> R \<longrightarrow> to_store env e now cc \<longrightarrow> has (stored_key cc) \<noteq> None)"

text \<open>
  What is kept now and was not before is the PEM of a certificate that was to be stored; what was
  kept before is so now.
\<close>

definition genuine ::
    "('raw, 'd) sync_env \<Rightarrow> (LogEntry \<times> gotime) set \<Rightarrow> (cert_key \<Rightarrow> string option) \<Rightarrow> (cert_key \<Rightarrow> string option) \<Rightarrow> bool" where
  "genuine env R had has \<longleftrightarrow>
     (\<forall>k. has k \<noteq> had k \<longrightarrow> had k = None \<and> (\<exists>e now cc. (e, now) \<in> R \<and> to_store env e now cc \<and> k = stored_key cc
        \<and> has k = Some (pem_EncodeToMemory ''CERTIFICATE'' (Raw (fst cc)))))"

lemma entry_in_mono: "entry_in env a i e \<Longrightarrow> i \<le> i' \<Longrightarrow> entry_in env a i' e"
  unfolding entry_in_def by (meson less_le_trans)

lemma entry_in_no_entry: "entry_in env a k e \<Longrightarrow> no_entry env i k \<Longrightarrow> entry_in env a i e"
  unfolding entry_in_def no_entry_def by (metis not_le option.distinct(1))

lemma entry_in_Suc: "entry_in env a (Suc i) e \<Longrightarrow> entry_in env a i e \<or> entry_at env i = Some e"
  unfolding entry_in_def by (metis less_Suc_eq)

lemma accounted_skip: "accounted env a i P \<Longrightarrow> no_entry env i k \<Longrightarrow> accounted env a k P"
  unfolding accounted_def using entry_in_no_entry by blast

lemma accounted_accept: "accounted env a i P \<Longrightarrow> entry_at env i = Some e \<Longrightarrow> accounted env a (Suc i) (insert e P)"
  unfolding accounted_def using entry_in_Suc by fastforce

lemma accounted_mono: "accounted env a i P \<Longrightarrow> P \<subseteq> P' \<Longrightarrow> accounted env a i P'"
  unfolding accounted_def by blast

lemma kept_handled: "kept env R has \<Longrightarrow> e \<in> fst ` R \<Longrightarrow> handled env R has e"
  unfolding kept_def handled_def by fastforce

text \<open>One insertion: what it stores, and that all others are unharmed.\<close>

definition insertion_ok ::
    "('raw, 'd) sync_env \<Rightarrow> LogEntry \<Rightarrow> gotime \<Rightarrow> (cert_key \<Rightarrow> string option) \<Rightarrow> (cert_key \<Rightarrow> string option) \<Rightarrow> bool" where
  "insertion_ok env e now had has \<longleftrightarrow> kept env {(e, now)} has \<and> genuine env {(e, now)} had has"

lemma insertion_grows: "genuine env R had has \<Longrightarrow> had k \<noteq> None \<Longrightarrow> has k \<noteq> None"
  unfolding genuine_def by metis

lemma kept_insertion:
  "insertion_ok env e now had has \<Longrightarrow> kept env R had \<Longrightarrow> kept env (insert (e, now) R) has"
  using insertion_grows [of env "{(e, now)}" had has] unfolding insertion_ok_def kept_def by blast

lemma genuine_insertion:
  "insertion_ok env e now had has \<Longrightarrow> genuine env R had0 had \<Longrightarrow> genuine env (insert (e, now) R) had0 has"
  unfolding insertion_ok_def genuine_def by (metis insertI1 insertI2 singletonD)

lemma genuine_refl: "genuine env R had had"
  by (simp add: genuine_def)

section \<open>One step of each worker\<close>

text \<open>The database only changes where a certificate is stored.\<close>

lemma insert_entry_stores:
  assumes "insert_entry lib cfg cd now health url e (d, upd) = Done (d', upd')"
  shows "d' = d \<or> (\<exists>cert ca err. entry_certificate lib e = Done (Inl (Some cert)) \<and> le_Chain e \<noteq> []
    \<and> \<not> certIsFilteredOut cfg now cert
    \<and> x509_ParseCertificate lib (le_Chain e ! 0) = Inr ca \<and> cd_Store cd cert ca url (le_Index e) d = Done (err, d'))"
proof -
  obtain r where r: "entry_certificate lib e = Done r"
    using assms by (auto simp: insert_entry_def outcome_bind_Done_iff)
  show ?thesis
  proof (cases r)
    case (Inl co)
    then obtain cert where co: "co = Some cert"
      using assms r by (cases co) (auto simp: insert_entry_def)
    consider "certIsFilteredOut cfg now cert" | "\<not> certIsFilteredOut cfg now cert" "le_Chain e = []"
      | "\<not> certIsFilteredOut cfg now cert" "le_Chain e \<noteq> []" by blast
    then show ?thesis
    proof cases
      case 3
      then show ?thesis
        using assms r Inl co
        by (cases "x509_ParseCertificate lib (le_Chain e ! 0)") (auto simp: insert_entry_def outcome_bind_Done_iff)
    qed (use assms r Inl co in \<open>auto simp: insert_entry_def outcome_bind_Done_iff\<close>)
  qed (use assms r in \<open>simp add: insert_entry_def\<close>)
qed

context reliable_database
begin

lemma saveState_spec:
  assumes "inv d" and "log_key (ShortURL (lw_LogState lw))" and "json_time (LastEntryTime (lw_LogState lw))"
    and "json_time now" and "\<forall>t. ts = Some t \<longrightarrow> json_time t" and "unat index < 2 ^ 63"
  obtains st d' where "saveState cd now index ts (lw, d) = Done (lw\<lparr>lw_LogState := st\<rparr>, d')"
    and "inv d'" and "stored d' = stored d" and "saved d' = (saved d)(ShortURL (lw_LogState lw) \<mapsto> st)"
    and "ShortURL st = ShortURL (lw_LogState lw)" and "MaxEntry st = int (unat index)" and "json_time (LastEntryTime st)"
proof -
  define st where "st = (lw_LogState lw)\<lparr>MaxEntry := sint index,
      LastEntryTime := (case ts of Some t \<Rightarrow> t | None \<Rightarrow> LastEntryTime (lw_LogState lw)), LastUpdateTime := now\<rparr>"
  have st: "ShortURL st = ShortURL (lw_LogState lw)" "MaxEntry st = int (unat index)"
    "json_time (LastEntryTime st)" "json_state st"
    using assms(3-6) sint_small by (auto simp: st_def json_state_def split: option.splits)
  obtain err d' where d': "cd_SaveLogState cd st d = Done (err, d')" "inv d'" "stored d' = stored d"
      "saved d' = (saved d)(ShortURL st \<mapsto> st)"
    using Save_law [OF assms(1), of st] assms(2) st by auto
  have "\<not> word_of_nat (2 ^ 63 - 1) < index"
  proof
    assume "word_of_nat (2 ^ 63 - 1) < index"
    then have "unat (word_of_nat (2 ^ 63 - 1) :: 64 word) < unat index" by (simp only: word_less_nat_alt)
    then have "2 ^ 63 - 1 < unat index" by (subst (asm) unat_of_nat) simp
    then show False using assms(6) by simp
  qed
  then have "saveState cd now index ts (lw, d) = Done (lw\<lparr>lw_LogState := st\<rparr>, d')"
    using d'(1) by (cases ts) (simp_all add: saveState_def Let_def st_def)
  then show ?thesis using d' st that by simp
qed

lemma insert_entry_spec:
  assumes "inv d" and ok: "\<forall>cc. wanted env e = Some cc \<longrightarrow> storable cc"
    and "insert_entry (en_lib env) (en_cfg env) cd now health url e (d, upd) = Done (d', upd')"
  shows "inv d'" and "saved d' = saved d" and "insertion_ok env e now (stored d) (stored d')"
proof -
  have "inv d' \<and> saved d' = saved d \<and> insertion_ok env e now (stored d) (stored d')"
  proof (cases "d' = d")
    case False
    then obtain cert ca err where c: "entry_certificate (en_lib env) e = Done (Inl (Some cert))"
      and nf: "\<not> certIsFilteredOut (en_cfg env) now cert"
      and f: "le_Chain e \<noteq> []" "x509_ParseCertificate (en_lib env) (le_Chain e ! 0) = Inr ca"
      and s: "cd_Store cd cert ca url (le_Index e) d = Done (err, d')"
      using insert_entry_stores [OF assms(3)] by blast
    have w: "wanted env e = Some (cert, ca)" using c f by (simp add: wanted_def)
    then have st: "storable (cert, ca)" using ok by blast
    obtain err' d2 where s2: "cd_Store cd cert ca url (le_Index e) d = Done (err', d2)" and d2: "inv d2" "saved d2 = saved d"
        "\<forall>k. stored d2 k \<noteq> stored d k \<longrightarrow> k = stored_key (cert, ca) \<and> stored d k = None
          \<and> stored d2 k = Some (pem_EncodeToMemory ''CERTIFICATE'' (Raw cert))"
      using Store_law [OF assms(1) st, of url "le_Index e"] by blast
    then have "d2 = d'" using s by simp
    moreover have "stored d' (stored_key (cert, ca)) \<noteq> None" using Store_ok [OF assms(1) st s] by blast
    ultimately show ?thesis
      using d2 w nf by (auto simp: insertion_ok_def kept_def genuine_def to_store_def)
  next
    case True
    have "stored d (stored_key cc) \<noteq> None" if t: "to_store env e now cc" for cc
    proof -
      obtain cert ca where cc: "cc = (cert, ca)" by (cases cc)
      have w: "wanted env e = Some cc" and nf: "\<not> certIsFilteredOut (en_cfg env) now cert"
        using t by (simp_all add: to_store_def cc)
      then have c: "entry_certificate (en_lib env) e = Done (Inl (Some cert))" "le_Chain e \<noteq> []"
          "x509_ParseCertificate (en_lib env) (le_Chain e ! 0) = Inr ca"
        by (auto simp: wanted_def cc split: outcome.splits sum.splits option.splits if_splits)
      then obtain err where "cd_Store cd cert ca url (le_Index e) d = Done (err, d')"
        using assms(3) nf by (auto simp: insert_entry_def outcome_bind_Done_iff)
      then show ?thesis
        using Store_ok [OF assms(1)] ok w True unfolding cc by blast
    qed
    then show ?thesis using True assms(1) by (simp add: insertion_ok_def kept_def genuine_refl)
  qed
  then show "inv d'" "saved d' = saved d" "insertion_ok env e now (stored d) (stored d')" by blast+
qed

end

section \<open>The invariant\<close>

text \<open>
  The log state of the worker changes and nothing else of it; so the download depends on the worker
  it started with.
\<close>

lemma same_worker [simp]:
  "loop_head (lw\<lparr>lw_LogState := st\<rparr>) = loop_head lw"
  "dl_entries lib (lw\<lparr>lw_LogState := st\<rparr>) rs d = dl_entries lib lw rs d"
  "dl_failed (lw\<lparr>lw_LogState := st\<rparr>) err d = dl_failed lw err d"
  "dl_accepted lib zone (lw\<lparr>lw_LogState := st\<rparr>) e rest d = dl_accepted lib zone lw e rest d"
  "request_max (lw\<lparr>lw_LogState := st\<rparr>) = request_max lw"
  "served log (lw\<lparr>lw_LogState := st\<rparr>) = served log lw"
  by (simp_all add: loop_head_def dl_entries_def dl_failed_def dl_accepted_def request_max_def served_def
      fun_eq_iff Let_def cong: prod.case_cong option.case_cong)

definition worker_ok :: "LogWorker \<Rightarrow> LogWorker \<Rightarrow> bool" where
  "worker_ok lw0 lw \<longleftrightarrow> (\<exists>st. lw = lw0\<lparr>lw_LogState := st\<rparr> \<and> ShortURL st = ShortURL (lw_LogState lw0)
     \<and> json_time (LastEntryTime st))"

definition position_ok :: "CertificateLog option \<Rightarrow> nat \<Rightarrow> nat \<Rightarrow> CertificateLog option \<Rightarrow> bool" where
  "position_ok s0 a i s \<longleftrightarrow> (\<forall>l. s = Some l \<longrightarrow> s0 = Some l \<or> (\<exists>j. a \<le> j \<and> j \<le> i \<and> MaxEntry l = int j))"

definition returned :: "'raw download \<Rightarrow> bool" where
  "returned d \<longleftrightarrow> (case dl_pc d of Returned err \<Rightarrow> True | _ \<Rightarrow> False)"

abbreviation pending :: "('raw, 'd) sync \<Rightarrow> LogEntry set" where
  "pending s \<equiv> set (sy_chan s) \<union> set (sy_busy s)"

abbreviation at :: "('raw, 'd) sync \<Rightarrow> nat" where
  "at s \<equiv> unat (dl_index (sy_dl s))"

abbreviation url_of :: "LogWorker \<Rightarrow> string" where
  "url_of lw \<equiv> ShortURL (lw_LogState lw)"

definition sync_inv ::
    "('d \<Rightarrow> bool) \<Rightarrow> ('d \<Rightarrow> string \<Rightarrow> CertificateLog option) \<Rightarrow> ('d \<Rightarrow> cert_key \<Rightarrow> string option)
      \<Rightarrow> ('raw, 'd) sync_env \<Rightarrow> LogWorker \<Rightarrow> 'd \<Rightarrow> (LogEntry \<times> gotime) set \<Rightarrow> ('raw, 'd) sync \<Rightarrow> bool" where
  "sync_inv valid saved stored env lw0 d0 R s \<longleftrightarrow>
     valid (sy_db s) \<and> worker_ok lw0 (sy_lw s) \<and> download_ok env lw0 (sy_dl s)
     \<and> accounted env (unat (lw_StartPos lw0)) (at s) (pending s \<union> fst ` R)
     \<and> (\<forall>e \<in> pending s \<union> fst ` R. entry_in env (unat (lw_StartPos lw0)) (at s) e)
     \<and> kept env R (stored (sy_db s)) \<and> genuine env R (stored d0) (stored (sy_db s))
     \<and> position_ok (saved d0 (url_of lw0)) (unat (lw_StartPos lw0)) (at s) (saved (sy_db s) (url_of lw0))
     \<and> (sy_done s \<longrightarrow> returned (sy_dl s) \<and> (lw_StartPos lw0 = lw_EndPos lw0
          \<or> (\<exists>l. saved (sy_db s) (url_of lw0) = Some l \<and> MaxEntry l = int (at s))))"

lemma position_ok_mono: "position_ok s0 a i s \<Longrightarrow> i \<le> k \<Longrightarrow> position_ok s0 a k s"
  unfolding position_ok_def using order_trans by metis

text \<open>The download moves on: to an index with no entry in between, or past the entry it submits.\<close>

lemma sync_inv_move:
  assumes "sync_inv valid saved stored env lw0 d0 R s" and "\<not> sy_done s" and "download_ok env lw0 d"
    and "at s \<le> unat (dl_index d)" and "no_entry env (at s) (unat (dl_index d))"
  shows "sync_inv valid saved stored env lw0 d0 R (s\<lparr>sy_dl := d\<rparr>)"
proof -
  let ?a = "unat (lw_StartPos lw0)" and ?i = "unat (dl_index d)"
  note I = assms(1) [unfolded sync_inv_def]
  have "accounted env ?a ?i (pending s \<union> fst ` R)" using I accounted_skip [OF _ assms(5)] by blast
  moreover have "\<forall>e \<in> pending s \<union> fst ` R. entry_in env ?a ?i e" using I entry_in_mono [OF _ assms(4)] by blast
  moreover have "position_ok (saved d0 (url_of lw0)) ?a ?i (saved (sy_db s) (url_of lw0))"
    using I position_ok_mono [OF _ assms(4)] by blast
  ultimately show ?thesis using I assms(2,3) unfolding sync_inv_def by simp
qed

lemma sync_inv_accept:
  assumes "sync_inv valid saved stored env lw0 d0 R s" and "\<not> sy_done s" and e: "entry_at env (at s) = Some e"
    and ok: "download_ok env lw0 d" and le: "Suc (at s) \<le> unat (dl_index d)" and n: "no_entry env (Suc (at s)) (unat (dl_index d))"
  shows "sync_inv valid saved stored env lw0 d0 R (s\<lparr>sy_chan := sy_chan s @ [e], sy_dl := d\<rparr>)"
proof -
  let ?a = "unat (lw_StartPos lw0)" and ?i = "unat (dl_index d)"
  note I = assms(1) [unfolded sync_inv_def]
  have le2: "at s \<le> ?i" using le by simp
  have p: "set (sy_chan s @ [e]) \<union> set (sy_busy s) \<union> fst ` R = insert e (pending s \<union> fst ` R)" by auto
  have start: "?a \<le> at s" using I by (simp add: download_ok_def word_le_nat_alt)
  have "accounted env ?a ?i (insert e (pending s \<union> fst ` R))"
    using accounted_skip [OF accounted_accept [OF _ e] n] I by blast
  moreover have "entry_in env ?a ?i e" using e le start by (auto simp: entry_in_def)
  moreover have "entry_in env ?a ?i e'" if "e' \<in> pending s \<union> fst ` R" for e'
    using I that entry_in_mono [OF _ le2] by blast
  moreover have "position_ok (saved d0 (url_of lw0)) ?a ?i (saved (sy_db s) (url_of lw0))"
    using I position_ok_mono [OF _ le2] by blast
  ultimately show ?thesis
    using I ok assms(2) unfolding sync_inv_def by (simp add: p [simplified])
qed

context reliable_database
begin

lemma sync_inv_save:
  assumes I: "sync_inv inv saved stored env lw0 d0 R s" and u: "log_key (url_of lw0)" and now: "json_time now"
    and E: "unat (lw_EndPos lw0) < 2 ^ 63" and db: "en_db env = cd"
    and save: "saveState (en_db env) now (dl_index (sy_dl s)) (dl_last (sy_dl s)) (sy_lw s, sy_db s) = Done (lw, db)"
  shows "sync_inv inv saved stored env lw0 d0 R (s\<lparr>sy_lw := lw, sy_db := db\<rparr>)"
    and "\<exists>l. saved db (url_of lw0) = Some l \<and> MaxEntry l = int (at s)"
proof -
  note J = I [unfolded sync_inv_def]
  have d: "download_ok env lw0 (sy_dl s)" and "worker_ok lw0 (sy_lw s)" using J by blast+
  then obtain st0 where lw: "sy_lw s = lw0\<lparr>lw_LogState := st0\<rparr>" "ShortURL st0 = url_of lw0" "json_time (LastEntryTime st0)"
    by (auto simp: worker_ok_def)
  have i: "unat (dl_index (sy_dl s)) < 2 ^ 63"
    using d E by (simp add: download_ok_def word_le_nat_alt)
  have last: "\<forall>t. dl_last (sy_dl s) = Some t \<longrightarrow> json_time t" using d by (simp add: download_ok_def)
  obtain st where st: "lw = sy_lw s\<lparr>lw_LogState := st\<rparr>" "inv db" "stored db = stored (sy_db s)"
      "saved db = (saved (sy_db s))(url_of lw0 \<mapsto> st)" "ShortURL st = url_of lw0" "MaxEntry st = int (at s)"
      "json_time (LastEntryTime st)"
    using saveState_spec [of "sy_db s" "sy_lw s" now "dl_last (sy_dl s)" "dl_index (sy_dl s)"] J u lw now last i save
    unfolding db by (auto simp: lw)
  show "\<exists>l. saved db (url_of lw0) = Some l \<and> MaxEntry l = int (at s)" using st(4,6) by simp
  have "worker_ok lw0 lw" using st(1,5,7) lw(1) by (auto simp: worker_ok_def)
  moreover have "position_ok (saved d0 (url_of lw0)) (unat (lw_StartPos lw0)) (at s) (saved db (url_of lw0))"
    using st(4,6) d by (auto simp: position_ok_def download_ok_def word_le_nat_alt)
  ultimately show "sync_inv inv saved stored env lw0 d0 R (s\<lparr>sy_lw := lw, sy_db := db\<rparr>)"
    using J st unfolding sync_inv_def by simp
qed

lemma sync_inv_insert:
  assumes I: "sync_inv inv saved stored env lw0 d0 R s" and ok: "log_ok env" and db: "en_db env = cd"
    and busy: "sy_busy s = xs @ e # ys"
    and ins: "insert_entry (en_lib env) (en_cfg env) (en_db env) now health url e (sy_db s, sy_lastUpdate s) = Done (d', upd)"
  shows "sync_inv inv saved stored env lw0 d0 (insert (e, now) R) (s\<lparr>sy_busy := xs @ ys, sy_db := d', sy_lastUpdate := upd\<rparr>)"
proof -
  note J = I [unfolded sync_inv_def]
  let ?a = "unat (lw_StartPos lw0)"
  have in_e: "entry_in env ?a (at s) e" using J busy by simp
  then have st: "\<forall>cc. wanted env e = Some cc \<longrightarrow> storable cc" using ok by (auto simp: log_ok_def entry_in_def)
  note sp = insert_entry_spec [OF _ st ins [unfolded db]]
  have inv: "inv (sy_db s)" using J by blast
  have p: "set (sy_chan s) \<union> set (xs @ ys) \<union> fst ` insert (e, now) R = pending s \<union> fst ` R"
    using busy by auto
  have "kept env (insert (e, now) R) (stored d')" "genuine env (insert (e, now) R) (stored d0) (stored d')"
    using kept_insertion [OF sp(3) [OF inv]] genuine_insertion [OF sp(3) [OF inv]] J by blast+
  then show ?thesis
    using J sp(1,2) [OF inv] unfolding sync_inv_def by (simp add: p [simplified])
qed

lemma sync_inv_start:
  assumes "inv d0" and "lw_StartPos lw0 \<le> lw_EndPos lw0" and "json_time (LastEntryTime (lw_LogState lw0))"
  shows "sync_inv inv saved stored env lw0 d0 {} (sync_start lw0 d0)"
  using assms
  by (auto simp: sync_inv_def sync_start_def dl_start_def download_ok_def loop_head_def worker_ok_def accounted_def
      entry_in_def kept_def genuine_refl position_ok_def returned_def intro!: exI [of _ "lw_LogState lw0"])

lemma sync_inv_step:
  assumes I: "sync_inv inv saved stored env lw0 d0 R s" and step: "sync_step env lb s s'"
    and u: "log_key (url_of lw0)" and E: "unat (lw_EndPos lw0) < 2 ^ 63" and db: "en_db env = cd" and ok: "log_ok env"
  shows "sync_inv inv saved stored env lw0 d0 (insertion lb \<union> R) s'"
proof -
  note J = I [unfolded sync_inv_def]
  have d: "download_ok env lw0 (sy_dl s)" and "worker_ok lw0 (sy_lw s)" using J by blast+
  then obtain st0 where lw: "sy_lw s = lw0\<lparr>lw_LogState := st0\<rparr>" by (auto simp: worker_ok_def)
  have nd: "\<not> sy_done s" if "\<not> returned (sy_dl s)" using J that by blast
  have bounds: "lw_StartPos lw0 \<le> dl_index (sy_dl s)" "\<forall>t. dl_last (sy_dl s) = Some t \<longrightarrow> json_time t"
    using d by (simp_all add: download_ok_def)
  show ?thesis
    using step
  proof cases
    case (respond n rs)
    have lt: "dl_index (sy_dl s) < lw_EndPos lw0" using d respond(3) by (simp add: download_ok_def)
    have rs: "rs = map (en_log env) [at s ..< at s + n]" "at s + n \<le> unat (lw_EndPos lw0)"
      using respond(5) request_max_bounds(2) [OF lt E] by (simp_all add: lw served_def)
    note n = dl_entries_ok [OF rs(1) _ rs(2) E bounds]
    show ?thesis
      using sync_inv_move [OF I respond(4) n(1)] n(2,3) by (simp add: respond(1,2) lw word_le_nat_alt)
  next
    case (fail err)
    have "download_ok env lw0 (dl_failed lw0 err (sy_dl s))" "dl_index (dl_failed lw0 err (sy_dl s)) = dl_index (sy_dl s)"
      using d by (auto simp: dl_failed_def download_ok_def loop_head_def)
    then show ?thesis
      using sync_inv_move [OF I fail(4), of "dl_failed lw0 err (sy_dl s)"] by (simp add: fail(1,2) lw no_entry_def)
  next
    case (accept e rest)
    have e: "entry_at env (at s) = Some e" using d accept(3) by (simp add: download_ok_def)
    obtain m where m: "at s < m" "m \<le> unat (lw_EndPos lw0)" "rest = map (en_log env) [Suc (at s) ..< m]"
      using d accept(3) by (auto simp: download_ok_def)
    let ?d = "(sy_dl s)\<lparr>dl_last := Some (uint64ToTimestamp (en_zone env) (le_Timestamp e)), dl_index := dl_index (sy_dl s) + 1\<rparr>"
    have suc: "unat (dl_index (sy_dl s) + 1) = Suc (at s)"
      using m(1,2) by (intro unat_index_Suc [of _ "lw_EndPos lw0"]) (simp add: word_less_nat_alt)
    have t: "\<forall>t. dl_last ?d = Some t \<longrightarrow> json_time t" using ok e by (auto simp: log_ok_def)
    have b: "lw_StartPos lw0 \<le> dl_index ?d" using bounds(1) suc by (simp add: word_le_nat_alt)
    have rest: "rest = map (en_log env) [unat (dl_index ?d) ..< m]" "unat (dl_index ?d) \<le> m" using m suc by simp_all
    note n = dl_entries_ok [OF rest m(2) E b t]
    have "\<not> sy_done s" using nd accept(3) by (simp add: returned_def)
    then show ?thesis
      using sync_inv_accept [OF I _ e n(1)] n(2,3) suc by (simp add: accept(1,2) lw dl_accepted_def Let_def word_le_nat_alt)
  next
    case (tick e rest now lw' db')
    show ?thesis
      using sync_inv_save(1) [OF I u tick(4) E db tick(5)] by (simp add: tick(1,2))
  next
    case (signal e rest)
    have "\<not> sy_done s" using nd signal(3) by (simp add: returned_def)
    then show ?thesis
      using sync_inv_move [OF I, of "dl_signal (sy_dl s)"] d
      by (simp add: signal(1,2) dl_signal_def download_ok_def no_entry_def)
  next
    case (finish err now lw' db')
    note sv = sync_inv_save [OF I u finish(5) E db finish(6)]
    then show ?thesis
      using finish(3) unfolding finish(1,2) sync_inv_def by (simp add: returned_def)
  next
    case (take e q)
    then show ?thesis using J unfolding sync_inv_def by (simp add: accounted_def)
  next
    case (insert xs e ys now health db' upd)
    show ?thesis
      using sync_inv_insert [OF I ok db insert(3,4)] by (simp add: insert(1,2))
  qed
qed

lemma sync_inv_run:
  assumes "sync_run env (sync_start lw0 d0) ls s" and "inv d0" and "lw_StartPos lw0 \<le> lw_EndPos lw0"
    and "json_time (LastEntryTime (lw_LogState lw0))" and "log_key (url_of lw0)" and "unat (lw_EndPos lw0) < 2 ^ 63"
    and "en_db env = cd" and "log_ok env"
  shows "sync_inv inv saved stored env lw0 d0 (insertions ls) s"
  using assms(1)
proof (induction rule: sync_run.induct)
  case start
  show ?case using sync_inv_start [OF assms(2-4)] by simp
next
  case (step ls s l s')
  from sync_inv_step [OF step.IH step.hyps(2) assms(5-8)] show ?case by (simp add: Un_commute)
qed

end

end
