(* ===== verification/Sync_Progress.thy ===== *)
theory Sync_Progress
  imports Log_Sync
begin

text \<open>
  Termination of a synchronisation: every step that makes progress lowers a potential, no step
  raises it, and until everything is done some step makes progress.
\<close>

section \<open>The potential\<close>

text \<open>The steps that are not retries, saves or interruptions.\<close>

fun productive :: "sync_label \<Rightarrow> bool" where
  "productive (Respond n) = (0 < n)"
| "productive (Fail err) = False"
| "productive Accept = True"
| "productive Tick = False"
| "productive Signal = False"
| "productive Finish = True"
| "productive Take = True"
| "productive (Insert e now) = True"

text \<open>The filter finds the clock at a time.\<close>

fun at_time :: "gotime \<Rightarrow> sync_label \<Rightarrow> bool" where
  "at_time t (Insert e now) = (now = t)"
| "at_time t l = True"

definition pc_rank :: "'raw download \<Rightarrow> nat" where
  "pc_rank d = (case dl_pc d of Fetching \<Rightarrow> 2 | Submitting e rest \<Rightarrow> 1 | Returned err \<Rightarrow> 0)"

definition potential :: "('raw, 'd) sync \<Rightarrow> nat" where
  "potential s = 8 * (unat (lw_EndPos (sy_lw s)) - at s) + pc_rank (sy_dl s)
     + 2 * length (sy_chan s) + length (sy_busy s) + (if sy_done s then 0 else 1)"

lemma pc_rank_le: "pc_rank d \<le> 2"
  by (simp add: pc_rank_def split: dl_pc.splits)

text \<open>Going on with leaves in hand ends at a later index, or at the first one with its entry.\<close>

lemma dl_entries_moves:
  fixes env :: "('raw, 'd) sync_env" and lw :: LogWorker
  assumes "rs = map (en_log env) [unat (dl_index d) ..< m]" and "unat (dl_index d) \<le> m" and "m \<le> unat (lw_EndPos lw)"
    and "unat (lw_EndPos lw) < 2 ^ 63"
  shows "unat (dl_index d) \<le> unat (dl_index (dl_entries (en_lib env) lw rs d))
    \<and> unat (dl_index (dl_entries (en_lib env) lw rs d)) \<le> m
    \<and> (unat (dl_index (dl_entries (en_lib env) lw rs d)) = m \<or> pc_rank (dl_entries (en_lib env) lw rs d) = 1)"
proof -
  obtain i r where n: "next_decodable (en_lib env) rs (dl_index d) = (i, r)" by fastforce
  note spec = next_decodable_spec [OF assms, unfolded n prod.case]
  show ?thesis
  proof (cases r)
    case None
    then show ?thesis using spec n assms(2) by (simp add: dl_entries_def)
  next
    case (Some er)
    then obtain e rest where "r = Some (e, rest)" by (cases er) auto
    then show ?thesis using spec n by (simp add: dl_entries_def pc_rank_def)
  qed
qed

lemma potential_arith:
  fixes E i k :: nat
  assumes "i < k" and "k \<le> E"
  shows "8 * (E - k) + 8 \<le> 8 * (E - i)"
  using assms by linarith

context reliable_database
begin

lemma potential_step:
  assumes I: "sync_inv inv saved stored env lw0 d0 R s" and step: "sync_step env lb s s'"
    and E: "unat (lw_EndPos lw0) < 2 ^ 63"
  shows "potential s' \<le> potential s \<and> (productive lb \<longrightarrow> potential s' < potential s)"
proof -
  note J = I [unfolded sync_inv_def]
  have d: "download_ok env lw0 (sy_dl s)" and "worker_ok lw0 (sy_lw s)" using J by blast+
  then obtain st0 where lw: "sy_lw s = lw0\<lparr>lw_LogState := st0\<rparr>" by (auto simp: worker_ok_def)
  have lwE: "lw_EndPos (sy_lw s) = lw_EndPos lw0" by (simp add: lw)
  show ?thesis
    using step
  proof cases
    case (respond n rs)
    have lt: "dl_index (sy_dl s) < lw_EndPos lw0" using d respond(3) by (simp add: download_ok_def)
    have rs: "rs = map (en_log env) [at s ..< at s + n]" "at s + n \<le> unat (lw_EndPos lw0)"
      using respond(5) request_max_bounds(2) [OF lt E] by (simp_all add: lw served_def)
    let ?d = "dl_entries (en_lib env) lw0 rs (sy_dl s)"
    have m: "at s \<le> unat (dl_index ?d)" "unat (dl_index ?d) \<le> at s + n" "unat (dl_index ?d) = at s + n \<or> pc_rank ?d = 1"
      using dl_entries_moves [OF rs(1) _ rs(2) E] by simp_all
    have r: "pc_rank (sy_dl s) = 2" using respond(3) by (simp add: pc_rank_def)
    have "s' = s\<lparr>sy_dl := ?d\<rparr>" using respond(2) lw by simp
    then have s': "potential s' + (8 * (unat (lw_EndPos lw0) - at s) + 2) = potential s + (8 * (unat (lw_EndPos lw0) - unat (dl_index ?d)) + pc_rank ?d)"
      by (simp add: potential_def lwE r)
    show ?thesis
    proof (cases "at s < unat (dl_index ?d)")
      case True
      then have "8 * (unat (lw_EndPos lw0) - unat (dl_index ?d)) + 8 \<le> 8 * (unat (lw_EndPos lw0) - at s)"
        using m(2) rs(2) by (intro potential_arith) simp_all
      then show ?thesis using s' pc_rank_le [of ?d] by linarith
    next
      case False
      then have "unat (dl_index ?d) = at s" using m(1) by simp
      moreover have "pc_rank ?d = 1 \<or> n = 0" using m(3) calculation by auto
      ultimately show ?thesis using s' pc_rank_le [of ?d] respond(1) by auto
    qed
  next
    case (fail err)
    have "pc_rank (dl_failed lw0 err (sy_dl s)) \<le> 2" "dl_index (dl_failed lw0 err (sy_dl s)) = dl_index (sy_dl s)"
      "pc_rank (sy_dl s) = 2"
      using fail(3) by (simp_all add: pc_rank_le dl_failed_def) (simp add: pc_rank_def)
    then show ?thesis using fail(1,2) by (simp add: potential_def lw)
  next
    case (accept e rest)
    obtain m where m: "at s < m" "m \<le> unat (lw_EndPos lw0)" "rest = map (en_log env) [Suc (at s) ..< m]"
      using d accept(3) by (auto simp: download_ok_def)
    let ?d = "(sy_dl s)\<lparr>dl_last := Some (uint64ToTimestamp (en_zone env) (le_Timestamp e)), dl_index := dl_index (sy_dl s) + 1\<rparr>"
    have suc: "unat (dl_index (sy_dl s) + 1) = Suc (at s)"
      using m(1,2) by (intro unat_index_Suc [of _ "lw_EndPos lw0"]) (simp add: word_less_nat_alt)
    have rest: "rest = map (en_log env) [unat (dl_index ?d) ..< m]" "unat (dl_index ?d) \<le> m" using m suc by simp_all
    let ?d' = "dl_entries (en_lib env) lw0 rest ?d"
    have i: "at s < unat (dl_index ?d')" "unat (dl_index ?d') \<le> unat (lw_EndPos lw0)"
      using dl_entries_moves [OF rest m(2) E] suc m(2) by simp_all
    have "s' = s\<lparr>sy_chan := sy_chan s @ [e], sy_dl := ?d'\<rparr>" using accept(2) by (simp add: lw dl_accepted_def Let_def)
    then have s': "potential s' + (8 * (unat (lw_EndPos lw0) - at s) + pc_rank (sy_dl s))
        = potential s + (8 * (unat (lw_EndPos lw0) - unat (dl_index ?d')) + pc_rank ?d') + 2"
      by (simp add: potential_def lwE)
    show ?thesis using s' potential_arith [OF i] pc_rank_le [of ?d'] by linarith
  next
    case (tick e rest now lw' db')
    have "lw_EndPos lw' = lw_EndPos (sy_lw s)"
      using tick(5) by (auto simp: saveState_def Let_def outcome_bind_Done_iff split: if_splits)
    then show ?thesis using tick(1,2) by (simp add: potential_def)
  next
    case (signal e rest)
    then show ?thesis by (simp add: potential_def dl_signal_def pc_rank_def)
  next
    case (finish err now lw' db')
    have "lw_EndPos lw' = lw_EndPos (sy_lw s)"
      using finish(6) by (auto simp: saveState_def Let_def outcome_bind_Done_iff split: if_splits)
    then show ?thesis using finish(1,2,4) by (simp add: potential_def)
  next
    case (take e q)
    then show ?thesis by (simp add: potential_def)
  next
    case (insert xs e ys now health db' upd)
    then show ?thesis by (simp add: potential_def)
  qed
qed

text \<open>So a run has a bounded number of productive steps.\<close>

lemma productive_bound:
  fixes env :: "('raw, 'a) sync_env"
  assumes run: "sync_run env (sync_start lw0 d0) ls s"
    and hyps: "inv d0" "lw_StartPos lw0 \<le> lw_EndPos lw0" "json_time (LastEntryTime (lw_LogState lw0))"
      "log_key (url_of lw0)" "unat (lw_EndPos lw0) < 2 ^ 63" "en_db env = cd" "log_ok env"
  shows "potential s + length (filter productive ls) \<le> potential (sync_start lw0 d0 :: ('raw, 'a) sync)"
  using run
proof (induction rule: sync_run.induct)
  case (step ls s l s')
  have "sync_inv inv saved stored env lw0 d0 (insertions ls) s" by (rule sync_inv_run [OF step.hyps(1) hyps])
  from potential_step [OF this step.hyps(2) hyps(5)] step.IH show ?case by auto
qed simp

end

lemma potential_start:
  "potential (sync_start lw d :: ('raw, 'd) sync) \<le> 8 * (unat (lw_EndPos lw) - unat (lw_StartPos lw)) + 3"
proof -
  have "pc_rank (dl_start lw :: 'raw download) \<le> 2" by (rule pc_rank_le)
  moreover have "dl_index (dl_start lw :: 'raw download) = lw_StartPos lw" by (simp add: dl_start_def)
  ultimately show ?thesis unfolding potential_def sync_start_def by simp
qed

section \<open>Progress\<close>

text \<open>An insert worker survives an entry: no nil certificate, and a serial where it logs one.\<close>

definition worker_safe :: "('raw, 'd) sync_env \<Rightarrow> LogEntry \<Rightarrow> bool" where
  "worker_safe env e \<longleftrightarrow>
     (case entry_certificate (en_lib env) e of
        Done (Inl (Some cert)) \<Rightarrow> le_Chain e = [] \<longrightarrow> (\<exists>n. NewSerial cert = Done n)
      | Done (Inr err) \<Rightarrow> True
      | _ \<Rightarrow> False)"

context reliable_database
begin

lemma insert_entry_total:
  assumes "inv d" and safe: "worker_safe env e" and ok: "\<forall>cc. wanted env e = Some cc \<longrightarrow> storable cc"
  obtains d' upd' where "insert_entry (en_lib env) (en_cfg env) cd now health url e (d, upd) = Done (d', upd')"
proof -
  obtain r where r: "entry_certificate (en_lib env) e = Done r" "r \<noteq> Inl None"
    using safe by (auto simp: worker_safe_def split: outcome.splits sum.splits option.splits)
  show ?thesis
  proof (cases r)
    case (Inr err)
    then show ?thesis using r that by (simp add: insert_entry_def)
  next
    case (Inl co)
    then obtain cert where co: "r = Inl (Some cert)" using r(2) by (cases co) auto
    consider "certIsFilteredOut (en_cfg env) now cert"
      | "\<not> certIsFilteredOut (en_cfg env) now cert" "le_Chain e = []"
      | "\<not> certIsFilteredOut (en_cfg env) now cert" "le_Chain e \<noteq> []" by blast
    then show ?thesis
    proof cases
      case 1
      then show ?thesis using r co that by (simp add: insert_entry_def)
    next
      case 2
      then obtain n where "NewSerial cert = Done n" using safe r co by (auto simp: worker_safe_def)
      then show ?thesis using 2 r co that by (simp add: insert_entry_def)
    next
      case 3
      show ?thesis
      proof (cases "x509_ParseCertificate (en_lib env) (le_Chain e ! 0)")
        case (Inl err)
        then show ?thesis using 3 r co that by (simp add: insert_entry_def)
      next
        case (Inr ca)
        then have "storable (cert, ca)" using ok 3 r co by (simp add: wanted_def)
        then obtain err d' where "cd_Store cd cert ca url (le_Index e) d = Done (err, d')"
          using Store_law [OF assms(1)] by blast
        then show ?thesis using 3 Inr r co that by (simp add: insert_entry_def)
      qed
    qed
  qed
qed

lemma sync_progress:
  assumes I: "sync_inv inv saved stored env lw0 d0 R s" and u: "log_key (url_of lw0)"
    and E: "unat (lw_EndPos lw0) < 2 ^ 63" and db: "en_db env = cd" and ok: "log_ok env"
    and safe: "\<forall>i e. entry_at env i = Some e \<longrightarrow> worker_safe env e"
    and todo: "\<not> (sy_done s \<and> sy_chan s = [] \<and> sy_busy s = [])"
  shows "\<exists>lb s'. productive lb \<and> at_time t lb \<and> sync_step env lb s s'"
proof -
  note J = I [unfolded sync_inv_def]
  have d: "download_ok env lw0 (sy_dl s)" and "worker_ok lw0 (sy_lw s)" using J by blast+
  then obtain st0 where lw: "sy_lw s = lw0\<lparr>lw_LogState := st0\<rparr>" "ShortURL st0 = url_of lw0" "json_time (LastEntryTime st0)"
    by (auto simp: worker_ok_def)
  have nd: "\<not> sy_done s" if "\<not> returned (sy_dl s)" using J that by blast
  consider (chan) e q where "sy_chan s = e # q" | (busy) e q where "sy_busy s = e # q"
    | (idle) "sy_chan s = []" "\<not> sy_done s"
    using todo by (cases "sy_chan s"; cases "sy_busy s") auto
  then show ?thesis
  proof cases
    case chan
    then show ?thesis using sync_step.take by (meson productive.simps(7) at_time.simps(8))
  next
    case busy
    then have "e \<in> pending s" by simp
    then obtain j where "entry_at env j = Some e" using J by (auto simp: entry_in_def)
    then obtain d' upd where "insert_entry (en_lib env) (en_cfg env) (en_db env) t None (lw_LogURL (sy_lw s)) e
        (sy_db s, sy_lastUpdate s) = Done (d', upd)"
      using insert_entry_total [of "sy_db s" env e] J ok safe unfolding db log_ok_def by metis
    from sync_step.insert [OF _ this, of "[]" q] busy show ?thesis by (fastforce intro: exI [of _ "Insert e t"])
  next
    case idle
    show ?thesis
    proof (cases "dl_pc (sy_dl s)")
      case Fetching
      then have lt: "dl_index (sy_dl s) < lw_EndPos lw0" using d by (simp add: download_ok_def)
      have "served (en_log env) (sy_lw s) (dl_index (sy_dl s)) 1 [en_log env (at s)]"
        using request_max_bounds(1) [OF lt E] by (simp add: lw served_def)
      from sync_step.respond [OF Fetching idle(2) this] show ?thesis by (fastforce intro: exI [of _ "Respond 1"])
    next
      case (Submitting e rest)
      have "length (sy_chan s) < chan_room" using idle by (simp add: chan_room_def)
      from sync_step.accept [OF Submitting this] show ?thesis by (fastforce intro: exI [of _ Accept])
    next
      case (Returned err)
      have i: "unat (dl_index (sy_dl s)) < 2 ^ 63" using d E by (simp add: download_ok_def word_le_nat_alt)
      have now: "json_time (utc 0)" by (code_simp)
      have "\<forall>t. dl_last (sy_dl s) = Some t \<longrightarrow> json_time t" using d by (simp add: download_ok_def)
      moreover have "inv (sy_db s)" using J by blast
      moreover have "log_key (ShortURL (lw_LogState (sy_lw s)))" "json_time (LastEntryTime (lw_LogState (sy_lw s)))"
        using lw u by simp_all
      ultimately obtain lw' db' where "saveState (en_db env) (utc 0) (dl_index (sy_dl s)) (dl_last (sy_dl s)) (sy_lw s, sy_db s) = Done (lw', db')"
        unfolding db using saveState_spec [OF _ _ _ now _ i] by metis
      from sync_step.finish [OF Returned idle(2) now this] show ?thesis by (fastforce intro: exI [of _ Finish])
    qed
  qed
qed

text \<open>So there is a run that deals with everything.\<close>

lemma sync_run_append: "sync_run env s0 ls s \<Longrightarrow> sync_step env l s s' \<Longrightarrow> \<exists>ls'. sync_run env s0 ls' s'"
  by (blast intro: sync_run.step)

lemma sync_completes:
  fixes env :: "('raw, 'a) sync_env"
  assumes hyps: "inv d0" "lw_StartPos lw0 \<le> lw_EndPos lw0" "json_time (LastEntryTime (lw_LogState lw0))"
      "log_key (url_of lw0)" "unat (lw_EndPos lw0) < 2 ^ 63" "en_db env = cd" "log_ok env"
    and safe: "\<forall>i e. entry_at env i = Some e \<longrightarrow> worker_safe env e"
    and run: "sync_run env (sync_start lw0 d0) ls s" "list_all (\<lambda>l. productive l \<and> at_time t l) ls"
  shows "\<exists>ls' s'. sync_run env (sync_start lw0 d0) ls' s' \<and> list_all (\<lambda>l. productive l \<and> at_time t l) ls'
    \<and> sy_done s' \<and> sy_chan s' = [] \<and> sy_busy s' = []"
  using run
proof (induction "potential s" arbitrary: ls s rule: less_induct)
  case less
  show ?case
  proof (cases "sy_done s \<and> sy_chan s = [] \<and> sy_busy s = []")
    case False
    have I: "sync_inv inv saved stored env lw0 d0 (insertions ls) s" by (rule sync_inv_run [OF less.prems(1) hyps])
    obtain lb s' where st: "productive lb" "sync_step env lb s s'" "at_time t lb"
      using sync_progress [OF I hyps(4-7) safe False] by blast
    have "potential s' < potential s" using potential_step [OF I st(2) hyps(5)] st(1) by blast
    moreover have "sync_run env (sync_start lw0 d0) (ls @ [lb]) s'" by (rule sync_run.step [OF less.prems(1) st(2)])
    moreover have "list_all (\<lambda>l. productive l \<and> at_time t l) (ls @ [lb])" using less.prems(2) st(1,3) by simp
    ultimately show ?thesis by (rule less.hyps)
  qed (use less.prems in blast)
qed

end

section \<open>Where the download ends\<close>

text \<open>Without a signal and without an error other than 429, the download ends at the end.\<close>

fun uninterrupted :: "sync_label \<Rightarrow> bool" where
  "uninterrupted Signal = False"
| "uninterrupted (Fail err) = too_many_requests err"
| "uninterrupted (Respond n) = True"
| "uninterrupted Accept = True"
| "uninterrupted Tick = True"
| "uninterrupted Finish = True"
| "uninterrupted Take = True"
| "uninterrupted (Insert e now) = True"

lemma returned_simps [simp]:
  "returned (d\<lparr>dl_pc := Fetching\<rparr>) = False" "returned (d\<lparr>dl_pc := Submitting e rest\<rparr>) = False"
  by (simp_all add: returned_def)

lemma returned_loop_head: "returned (d\<lparr>dl_pc := loop_head lw i\<rparr>) = (lw_EndPos lw \<le> i)"
  by (auto simp: returned_def loop_head_def)

lemma returned_dl_entries:
  "returned (dl_entries lib lw rs d) \<Longrightarrow> lw_EndPos lw \<le> dl_index (dl_entries lib lw rs d)"
  by (auto simp: dl_entries_def returned_loop_head split: prod.splits option.splits)

lemma step_to_end:
  assumes "sync_step env lb s s'" and "uninterrupted lb"
    and "returned (sy_dl s) \<longrightarrow> lw_EndPos (sy_lw s) \<le> dl_index (sy_dl s)"
  shows "returned (sy_dl s') \<longrightarrow> lw_EndPos (sy_lw s') \<le> dl_index (sy_dl s')"
  using assms(1)
proof cases
  case (respond n rs)
  then show ?thesis using returned_dl_entries by auto
next
  case (fail err)
  then show ?thesis using assms(2) by (simp add: dl_failed_def returned_loop_head)
next
  case (accept e rest)
  then show ?thesis using returned_dl_entries by (auto simp: dl_accepted_def Let_def)
next
  case (tick e rest now lw' db')
  then show ?thesis by (simp add: returned_def)
next
  case (signal e rest)
  then show ?thesis using assms(2) by simp
next
  case (finish err now lw' db')
  have "lw_EndPos lw' = lw_EndPos (sy_lw s)"
    using finish(6) by (auto simp: saveState_def Let_def outcome_bind_Done_iff split: if_splits)
  then show ?thesis using finish(2) assms(3) by simp
qed (use assms(3) in simp_all)

lemma run_to_end:
  assumes "sync_run env (sync_start lw0 d0) ls s" and "list_all uninterrupted ls"
  shows "returned (sy_dl s) \<longrightarrow> lw_EndPos (sy_lw s) \<le> dl_index (sy_dl s)"
  using assms
proof (induction rule: sync_run.induct)
  case start
  show ?case by (auto simp: sync_start_def dl_start_def returned_def loop_head_def)
next
  case (step ls s l s')
  then show ?case using step_to_end [OF step.hyps(2)] by simp
qed

end
