(* ===== verification/Go_Files.thy ===== *)
theory Go_Files
  imports Go_Path
begin

text \<open>
  Paths of the package \<^verbatim>\<open>path/filepath\<close> and the calls of the package \<^verbatim>\<open>os\<close> that the
  local backend makes, over a tree of directories and files. There are no symbolic links; what
  calls may report for other reasons (permissions, a full disk) is an oracle of faults.
\<close>

section \<open>Paths\<close>

text \<open>
  The elements of a path without \<^verbatim>\<open>.\<close> and \<^verbatim>\<open>..\<close>, as far as they can be removed; the
  elements kept so far are reversed.
\<close>

fun clean_elems :: "bool \<Rightarrow> string list \<Rightarrow> string list \<Rightarrow> string list" where
  "clean_elems rooted acc [] = rev acc"
| "clean_elems rooted acc (e # es) =
     (if e = [] \<or> e = ''.'' then clean_elems rooted acc es
      else if e = ''..'' then
        (case acc of
           a # acc' \<Rightarrow> if a \<noteq> ''..'' then clean_elems rooted acc' es else clean_elems rooted (e # acc) es
         | [] \<Rightarrow> clean_elems rooted (if rooted then [] else [e]) es)
      else clean_elems rooted (e # acc) es)"

abbreviation path_split :: "string \<Rightarrow> string list" where
  "path_split \<equiv> strings_split ''/''"

abbreviation path_join :: "string list \<Rightarrow> string" where
  "path_join \<equiv> strings_join ''/''"

definition is_abs :: "string \<Rightarrow> bool" where
  "is_abs p \<longleftrightarrow> has_prefix p ''/''"

definition filepath_Clean :: "string \<Rightarrow> string" where
  "filepath_Clean p =
     (let out = path_join (clean_elems (is_abs p) [] (path_split p))
      in if is_abs p then CHR ''/'' # out else if out = [] then ''.'' else out)"

definition filepath_Join :: "string list \<Rightarrow> string" where
  "filepath_Join elems =
     (case dropWhile (\<lambda>e. e = []) elems of [] \<Rightarrow> [] | es \<Rightarrow> filepath_Clean (path_join es))"

definition filepath_Split :: "string \<Rightarrow> string \<times> string" where
  "filepath_Split p =
     (rev (dropWhile (\<lambda>c. c \<noteq> CHR ''/'') (rev p)), rev (takeWhile (\<lambda>c. c \<noteq> CHR ''/'') (rev p)))"

text \<open>The last element, which \<^verbatim>\<open>FileInfo.Name\<close> gives.\<close>

definition base_name :: "string \<Rightarrow> string" where
  "base_name p =
     (let es = filter (\<lambda>e. e \<noteq> []) (path_split p)
      in if es = [] then (if is_abs p then ''/'' else ''.'') else last es)"

section \<open>Trees of files\<close>

datatype file_tree = FFile string | FDir "(string \<times> file_tree) list"

fun ft_lookup :: "file_tree \<Rightarrow> string list \<Rightarrow> file_tree option" where
  "ft_lookup t [] = Some t"
| "ft_lookup (FFile c) (n # ns) = None"
| "ft_lookup (FDir es) (n # ns) = (case map_of es n of None \<Rightarrow> None | Some t \<Rightarrow> ft_lookup t ns)"

text \<open>Placing a file or directory at a path whose parent is there.\<close>

fun ft_put :: "string list \<Rightarrow> file_tree \<Rightarrow> file_tree \<Rightarrow> file_tree" where
  "ft_put [] v t = v"
| "ft_put (n # ns) v (FFile c) = FFile c"
| "ft_put (n # ns) v (FDir es) =
     (case map_of es n of
        Some t \<Rightarrow> FDir (AList.update n (ft_put ns v t) es)
      | None \<Rightarrow> (if ns = [] then FDir (AList.update n v es) else FDir es))"

definition is_dir :: "file_tree option \<Rightarrow> bool" where
  "is_dir t \<longleftrightarrow> (case t of Some (FDir es) \<Rightarrow> True | _ \<Rightarrow> False)"

definition file_text :: "file_tree option \<Rightarrow> string option" where
  "file_text t = (case t of Some (FFile c) \<Rightarrow> Some c | _ \<Rightarrow> None)"

lemma ft_lookup_append:
  "ft_lookup t (p @ q) = (case ft_lookup t p of None \<Rightarrow> None | Some u \<Rightarrow> ft_lookup u q)"
  by (induction t p rule: ft_lookup.induct) (auto split: option.splits)

lemma ft_lookup_put_same:
  "p = [] \<or> is_dir (ft_lookup t (butlast p)) \<Longrightarrow> ft_lookup (ft_put p v t) p = Some v"
proof (induction p v t rule: ft_put.induct)
  case (2 n ns v c)
  then show ?case by (cases ns) (auto simp: is_dir_def)
next
  case (3 n ns v es)
  show ?case
  proof (cases ns)
    case Nil
    then show ?thesis by (auto simp: update_conv split: option.splits)
  next
    case (Cons m ms)
    then obtain t where t: "map_of es n = Some t" "is_dir (ft_lookup t (butlast ns))"
      using 3 by (auto simp: is_dir_def split: option.splits)
    then show ?thesis using 3 by (simp add: update_conv)
  qed
qed simp

text \<open>Placing a file changes the text of no other file; placing a new directory changes none.\<close>

lemma ft_put_file_text:
  assumes "q \<noteq> p" and "\<not> is_dir (ft_lookup t p)" and "file_text (Some v) \<noteq> None"
  shows "file_text (ft_lookup (ft_put p v t) q) = file_text (ft_lookup t q)"
  using assms
proof (induction p v t arbitrary: q rule: ft_put.induct)
  case (1 v t)
  then obtain c c' where "t = FFile c" "v = FFile c'" by (cases t; cases v) (auto simp: is_dir_def file_text_def)
  then show ?case using 1 by (cases q) (auto simp: file_text_def)
next
  case (2 n ns v c)
  then show ?case by simp
next
  case (3 n ns v es)
  show ?case
  proof (cases q)
    case Nil
    then show ?thesis by (auto simp: file_text_def split: option.splits)
  next
    case (Cons m ms)
    show ?thesis
    proof (cases "map_of es n")
      case None
      then show ?thesis
      proof (cases "ns = [] \<and> m = n")
        case True
        then have "ms \<noteq> []" using 3 Cons by simp
        then show ?thesis using None True Cons 3(4) by (cases v; cases ms) (auto simp: update_conv file_text_def)
      qed (use None Cons in \<open>auto simp: update_conv\<close>)
    next
      case (Some t)
      then show ?thesis using 3 Cons by (cases "m = n") (auto simp: update_conv)
    qed
  qed
qed

lemma ft_put_dir_text:
  assumes "ft_lookup t p = None"
  shows "file_text (ft_lookup (ft_put p (FDir []) t) q) = file_text (ft_lookup t q)"
  using assms
proof (induction p "FDir [] :: file_tree" t arbitrary: q rule: ft_put.induct)
  case (3 n ns es)
  show ?case
  proof (cases q)
    case Nil
    then show ?thesis by (auto simp: file_text_def split: option.splits)
  next
    case (Cons m ms)
    show ?thesis
    proof (cases "map_of es n")
      case None
      then show ?thesis using Cons by (cases ms) (auto simp: update_conv file_text_def)
    next
      case (Some t)
      then show ?thesis using 3 Cons by (cases "m = n") (auto simp: update_conv)
    qed
  qed
qed simp_all

section \<open>Files and directories\<close>

text \<open>
  The faults of the calls at a path: of making a directory, opening, writing (after how many bytes),
  reading (what was read before) and closing.
\<close>

record io_faults =
  io_mkdir :: "string list \<Rightarrow> go_error option"
  io_open :: "string list \<Rightarrow> go_error option"
  io_write :: "string list \<Rightarrow> string \<Rightarrow> (nat \<times> go_error) option"
  io_read :: "string list \<Rightarrow> (nat \<times> go_error) option"
  io_close :: "string list \<Rightarrow> go_error option"

record disk =
  disk_tree :: file_tree
  disk_cwd :: "string list"
  disk_faults :: io_faults

abbreviation ENOENT :: go_error where "ENOENT \<equiv> External ''no such file or directory''"
abbreviation ENOTDIR :: go_error where "ENOTDIR \<equiv> External ''not a directory''"
abbreviation EISDIR :: go_error where "EISDIR \<equiv> External ''is a directory''"

definition resolve :: "disk \<Rightarrow> string \<Rightarrow> string list" where
  "resolve d p = clean_elems True (if is_abs p then [] else rev (disk_cwd d)) (path_split p)"

definition os_Stat :: "string \<Rightarrow> disk \<Rightarrow> file_tree res" where
  "os_Stat p d =
     (if p = [] then Inl ENOENT
      else case ft_lookup (disk_tree d) (resolve d p) of None \<Rightarrow> Inl ENOENT | Some t \<Rightarrow> Inr t)"

fun mkdir_elems :: "string list \<Rightarrow> string list \<Rightarrow> disk \<Rightarrow> go_error option \<times> disk" where
  "mkdir_elems made [] d = (None, d)"
| "mkdir_elems made (e # es) d =
     (let p = made @ [e]
      in case ft_lookup (disk_tree d) p of
           Some (FDir _) \<Rightarrow> mkdir_elems p es d
         | Some (FFile _) \<Rightarrow> (Some ENOTDIR, d)
         | None \<Rightarrow>
             (case io_mkdir (disk_faults d) p of
                Some err \<Rightarrow> (Some err, d)
              | None \<Rightarrow> mkdir_elems p es (d\<lparr>disk_tree := ft_put p (FDir []) (disk_tree d)\<rparr>)))"

definition os_MkdirAll :: "string \<Rightarrow> disk \<Rightarrow> go_error option \<times> disk" where
  "os_MkdirAll p d = (if p = [] then (Some ENOENT, d) else mkdir_elems [] (resolve d p) d)"

text \<open>
  Opening for writing, with creation and truncation; a descriptor is the path. A write appends to
  what was written.
\<close>

definition os_OpenFile :: "string \<Rightarrow> disk \<Rightarrow> string list res \<times> disk" where
  "os_OpenFile p d =
     (let r = resolve d p
      in if p = [] then (Inl ENOENT, d)
         else case io_open (disk_faults d) r of
                Some err \<Rightarrow> (Inl err, d)
              | None \<Rightarrow>
                  (if is_dir (ft_lookup (disk_tree d) r) then (Inl EISDIR, d)
                   else if \<not> is_dir (ft_lookup (disk_tree d) (butlast r)) then (Inl ENOENT, d)
                   else (Inr r, d\<lparr>disk_tree := ft_put r (FFile []) (disk_tree d)\<rparr>)))"

definition fd_Write :: "string list \<Rightarrow> string \<Rightarrow> disk \<Rightarrow> (nat \<times> go_error option) \<times> disk" where
  "fd_Write fd data d =
     (let (n, err) = (case io_write (disk_faults d) fd data of
                        None \<Rightarrow> (length data, None) | Some (n, e) \<Rightarrow> (min n (length data), Some e));
          old = (case file_text (ft_lookup (disk_tree d) fd) of None \<Rightarrow> [] | Some c \<Rightarrow> c)
      in ((n, err), d\<lparr>disk_tree := ft_put fd (FFile (old @ take n data)) (disk_tree d)\<rparr>))"

definition fd_Close :: "string list \<Rightarrow> disk \<Rightarrow> go_error option" where
  "fd_Close fd d = io_close (disk_faults d) fd"

text \<open>Opening for reading, and reading to the end.\<close>

definition os_Open :: "string \<Rightarrow> disk \<Rightarrow> string list res" where
  "os_Open p d =
     (let r = resolve d p
      in if p = [] then Inl ENOENT
         else case io_open (disk_faults d) r of
                Some err \<Rightarrow> Inl err
              | None \<Rightarrow> (if ft_lookup (disk_tree d) r = None then Inl ENOENT else Inr r))"

definition ReadAll :: "string list \<Rightarrow> disk \<Rightarrow> string ret" where
  "ReadAll fd d =
     (case file_text (ft_lookup (disk_tree d) fd) of
        None \<Rightarrow> ([], Some EISDIR)
      | Some c \<Rightarrow>
          (case io_read (disk_faults d) fd of
             None \<Rightarrow> (c, None) | Some (n, e) \<Rightarrow> (take n c, Some e)))"

section \<open>Walking a tree\<close>

text \<open>
  \<^verbatim>\<open>filepath.Walk\<close>, in the order of the names. The function is given the name and whether it
  is a directory, and an accumulator; it may skip a directory or stop with an error. Where the root
  cannot be examined the function is called with the error, which those of the backend return.
\<close>

datatype walk_result = WalkOn | SkipDir | WalkError go_error

function (sequential) walk :: "(string \<Rightarrow> bool \<Rightarrow> 's \<Rightarrow> walk_result \<times> 's) \<Rightarrow> string \<Rightarrow> file_tree \<Rightarrow> 's \<Rightarrow> walk_result \<times> 's"
  and walk_list :: "(string \<Rightarrow> bool \<Rightarrow> 's \<Rightarrow> walk_result \<times> 's) \<Rightarrow> (string \<times> file_tree) list \<Rightarrow> 's \<Rightarrow> walk_result \<times> 's" where
  "walk fn name (FFile c) st = fn name False st"
| "walk fn name (FDir es) st =
     (case fn name True st of
        (WalkOn, st) \<Rightarrow> walk_list fn (sort_key fst es) st
      | r \<Rightarrow> r)"
| "walk_list fn [] st = (WalkOn, st)"
| "walk_list fn ((n, t) # es) st =
     (case walk fn n t st of
        (WalkOn, st) \<Rightarrow> walk_list fn es st
      | (SkipDir, st) \<Rightarrow> (case t of FDir _ \<Rightarrow> walk_list fn es st | FFile _ \<Rightarrow> (SkipDir, st))
      | (WalkError err, st) \<Rightarrow> (WalkError err, st))"
  by pat_completeness auto
termination
proof (relation "measure (\<lambda>x. case x of Inl (fn, name, t, st) \<Rightarrow> 2 * size t | Inr (fn, es, st) \<Rightarrow> 1 + 2 * size_list (size_prod (\<lambda>x. 0) size) es)", goal_cases)
  case (2 fn name es st x1 x2)
  have "size_list (size_prod (\<lambda>x. 0) size) (sort_key fst es) = size_list (size_prod (\<lambda>x :: string. 0) (size :: file_tree \<Rightarrow> nat)) es"
    by (simp add: size_list_conv_sum_list sum_mset_sum_list [symmetric])
  then show ?case by simp
qed auto

definition filepath_Walk ::
    "string \<Rightarrow> (string \<Rightarrow> bool \<Rightarrow> 's \<Rightarrow> walk_result \<times> 's) \<Rightarrow> disk \<Rightarrow> 's \<Rightarrow> go_error option \<times> 's" where
  "filepath_Walk root fn d st =
     (case os_Stat root d of
        Inl err \<Rightarrow> (Some err, st)
      | Inr t \<Rightarrow>
          (case walk fn (base_name root) t st of
             (WalkError err, st) \<Rightarrow> (Some err, st)
           | (_, st) \<Rightarrow> (None, st)))"

section \<open>Absolute paths of plain elements\<close>

text \<open>Splitting at one character: the parts are free of it, and texts joined by it split apart.\<close>

lemma split_first_char: "split_first [x] s = Some (a, b) \<Longrightarrow> x \<notin> set a"
proof (induction s arbitrary: a b)
  case (Cons c s)
  then show ?case by (auto split: if_splits)
qed simp

lemma split_first_char_None: "split_first [x] s = None \<Longrightarrow> x \<notin> set s"
  by (induction s) (auto split: if_splits)

lemma strings_split_parts: "\<forall>p \<in> set (strings_split [x] s). x \<notin> set p"
proof (induction "[x]" s rule: strings_split.induct)
  case (2 s)
  then show ?case
    by (subst strings_split.simps) (auto split: option.splits dest: split_first_char split_first_char_None)
qed

lemma strings_split_append: "strings_split [x] (a @ x # b) = strings_split [x] a @ strings_split [x] b"
proof (induction "[x]" a rule: strings_split.induct)
  case (2 a)
  show ?case
  proof (cases "split_first [x] a")
    case None
    then have f: "x \<notin> set a" by (rule split_first_char_None)
    then show ?thesis using strings_split_step [of x a "[]" b] by (simp add: strings_split_fresh)
  next
    case (Some uv)
    then obtain u v where uv: "split_first [x] a = Some (u, v)" by (cases uv) auto
    have a: "a = u @ x # v" using split_first_eq [OF uv] by simp
    have u: "x \<notin> set u" by (rule split_first_char [OF uv])
    have "strings_split [x] (u @ x # v @ x # b) = u # strings_split [x] (v @ x # b)"
      using strings_split_step [of x u "[]" "v @ x # b"] u by simp
    moreover have "strings_split [x] (u @ x # v) = u # strings_split [x] v"
      using strings_split_step [of x u "[]" v] u by simp
    ultimately show ?thesis using 2 [OF uv refl] by (simp add: a)
  qed
qed

lemma strings_join_snoc: "strings_join sep (ss @ [s]) = (if ss = [] then s else strings_join sep ss @ sep @ s)"
  by (induction ss) (auto simp: strings_join_Cons)

definition plain_elem :: "string \<Rightarrow> bool" where
  "plain_elem e \<longleftrightarrow> e \<noteq> [] \<and> CHR ''/'' \<notin> set e \<and> e \<noteq> ''.'' \<and> e \<noteq> ''..''"

abbreviation abs_path :: "string list \<Rightarrow> string" where
  "abs_path es \<equiv> CHR ''/'' # path_join es"

lemma clean_elems_plain: "list_all plain_elem es \<Longrightarrow> clean_elems rooted acc es = rev acc @ es"
  by (induction es arbitrary: acc) (auto simp: plain_elem_def)

lemma clean_elems_snoc:
  "plain_elem e \<Longrightarrow> clean_elems rooted acc (es @ [e]) = clean_elems rooted acc es @ [e]"
  by (induction rooted acc es rule: clean_elems.induct) (auto simp: plain_elem_def split: list.splits)

lemma clean_elems_trailing: "clean_elems rooted acc (es @ [[]]) = clean_elems rooted acc es"
  by (induction rooted acc es rule: clean_elems.induct) (auto split: list.splits)

lemma clean_elems_slash_free:
  "\<lbrakk>\<forall>e \<in> set es. CHR ''/'' \<notin> set e; \<forall>e \<in> set acc. CHR ''/'' \<notin> set e\<rbrakk>
    \<Longrightarrow> \<forall>e \<in> set (clean_elems rooted acc es). CHR ''/'' \<notin> set e"
  by (induction rooted acc es rule: clean_elems.induct) (auto split: list.splits)

lemma path_split_parts_slash_free: "\<forall>e \<in> set (path_split s). CHR ''/'' \<notin> set e"
  by (rule strings_split_parts)

lemma path_split_join: "\<lbrakk>es \<noteq> []; \<forall>e \<in> set es. CHR ''/'' \<notin> set e\<rbrakk> \<Longrightarrow> path_split (path_join es) = es"
  by (rule strings_split_join)

lemma path_split_slash: "path_split (a @ CHR ''/'' # b) = path_split a @ path_split b"
  by (rule strings_split_append)

lemma path_split_abs [simp]: "path_split (CHR ''/'' # s) = [] # path_split s"
  using path_split_slash [of "[]" s] by (simp add: strings_split_fresh)

lemma path_split_join_plain:
  "list_all plain_elem es \<Longrightarrow> path_split (path_join es) = (if es = [] then [[]] else es)"
  by (auto simp: path_split_join plain_elem_def list_all_iff strings_split_fresh)

lemma is_abs_abs [simp]: "is_abs (CHR ''/'' # s)"
  by (simp add: is_abs_def has_prefix_def)

lemma resolve_abs: "list_all plain_elem es \<Longrightarrow> resolve d (abs_path es) = es"
  by (cases "es = []") (simp_all add: resolve_def path_split_join_plain clean_elems_plain strings_split_fresh)

lemma filepath_Clean_abs:
  assumes "list_all plain_elem es" and "path_split p = [] # filter_empty @ es" and "list_all ((=) []) filter_empty"
    and "is_abs p"
  shows "filepath_Clean p = abs_path es"
proof -
  have "clean_elems True [] (filter_empty @ es) = es"
    using assms(3) by (induction filter_empty) (auto simp: clean_elems_plain assms(1))
  then show ?thesis using assms by (simp add: filepath_Clean_def)
qed

lemma filepath_Join_abs:
  assumes "list_all plain_elem cs" and "list_all plain_elem es" and "es \<noteq> []"
  shows "filepath_Join (abs_path cs # es) = abs_path (cs @ es)"
proof -
  have j: "path_join (abs_path cs # es) = CHR ''/'' # path_join cs @ CHR ''/'' # path_join es"
    using assms(3) by (simp add: strings_join_Cons)
  have "path_split (CHR ''/'' # path_join cs @ CHR ''/'' # path_join es)
      = [] # (if cs = [] then [[]] else []) @ cs @ es"
    using assms by (simp add: path_split_slash path_split_join_plain)
  then have "filepath_Clean (CHR ''/'' # path_join cs @ CHR ''/'' # path_join es) = abs_path (cs @ es)"
    by (rule filepath_Clean_abs [rotated]) (use assms in auto)
  then show ?thesis by (simp add: filepath_Join_def j)
qed

text \<open>A join that ends in a plain element resolves to a path that ends in it.\<close>

lemma resolve_Clean_snoc:
  assumes "path_split p = es @ [e]" and "plain_elem e"
  shows "\<exists>r. resolve d (filepath_Clean p) = r @ [e]"
proof -
  define c where "c = clean_elems (is_abs p) [] es"
  have c: "clean_elems (is_abs p) [] (path_split p) = c @ [e]"
    using clean_elems_snoc [OF assms(2)] assms(1) by (simp add: c_def)
  have "\<forall>e \<in> set (c @ [e]). CHR ''/'' \<notin> set e"
    using clean_elems_slash_free [of "path_split p" "[]" "is_abs p"] path_split_parts_slash_free [of p]
    by (simp add: c)
  then have s: "path_split (path_join (c @ [e])) = c @ [e]" by (intro path_split_join) auto
  have "path_join (c @ [e]) \<noteq> []"
    using assms(2) s by (metis append_is_Nil_conv append_self_conv2 last_snoc list.set_intros(1)
      plain_elem_def strings_split_fresh empty_iff empty_set snoc_eq_iff_butlast)
  then have "filepath_Clean p = (if is_abs p then [CHR ''/''] else []) @ path_join (c @ [e])"
    by (simp add: filepath_Clean_def Let_def c)
  then have "path_split (filepath_Clean p) = (if is_abs p then [[]] else []) @ c @ [e]"
    by (simp add: s)
  then show ?thesis using clean_elems_snoc [OF assms(2)] by (simp add: resolve_def flip: append_assoc)
qed

lemma resolve_Join_snoc:
  assumes "plain_elem e" shows "\<exists>r. resolve d (filepath_Join [p, e]) = r @ [e]"
proof (cases "p = []")
  case True
  have "path_split e = [] @ [e]" using assms by (simp add: plain_elem_def strings_split_fresh)
  from resolve_Clean_snoc [OF this assms] show ?thesis
    using True assms by (simp add: filepath_Join_def plain_elem_def)
next
  case False
  have "path_split (p @ CHR ''/'' # e) = path_split p @ [e]"
    using assms by (simp add: path_split_slash plain_elem_def strings_split_fresh)
  from resolve_Clean_snoc [OF this assms] show ?thesis
    using False by (simp add: filepath_Join_def)
qed

lemma filepath_Split_abs:
  assumes "list_all plain_elem (cs @ [e])"
  shows "fst (filepath_Split (abs_path (cs @ [e]))) \<noteq> []"
    and "resolve d (fst (filepath_Split (abs_path (cs @ [e])))) = cs"
proof -
  have e: "CHR ''/'' \<notin> set e" using assms by (simp add: plain_elem_def)
  have j: "abs_path (cs @ [e]) = (if cs = [] then ''/'' else CHR ''/'' # path_join cs @ ''/'') @ e"
    by (simp add: strings_join_snoc)
  have d: "dropWhile (\<lambda>c. c \<noteq> CHR ''/'') (rev e @ CHR ''/'' # q) = CHR ''/'' # q" for q
    using e by (subst dropWhile_append2) auto
  have f: "fst (filepath_Split (abs_path (cs @ [e]))) = (if cs = [] then ''/'' else CHR ''/'' # path_join cs @ ''/'')"
    by (simp add: filepath_Split_def j d)
  show "fst (filepath_Split (abs_path (cs @ [e]))) \<noteq> []" by (simp add: f)
  have "path_split (path_join cs @ ''/'') = cs @ [[]]" if "cs \<noteq> []"
    using path_split_slash [of "path_join cs" "[]"] that assms
    by (simp add: path_split_join_plain strings_split_fresh)
  moreover have "clean_elems True [] (cs @ [[]]) = cs"
    using assms by (simp add: clean_elems_trailing clean_elems_plain)
  ultimately show "resolve d (fst (filepath_Split (abs_path (cs @ [e])))) = cs"
    unfolding f by (cases "cs = []") (simp_all add: resolve_def strings_split_fresh)
qed

section \<open>What the calls leave alone\<close>

text \<open>Files whose paths differ keep their texts, and the working directory and the faults stay.\<close>

definition same_env :: "disk \<Rightarrow> disk \<Rightarrow> bool" where
  "same_env d d' \<longleftrightarrow> disk_cwd d' = disk_cwd d \<and> disk_faults d' = disk_faults d"

abbreviation text_at :: "disk \<Rightarrow> string list \<Rightarrow> string option" where
  "text_at d p \<equiv> file_text (ft_lookup (disk_tree d) p)"

lemma same_env_refl [simp]: "same_env d d"
  by (simp add: same_env_def)

lemma same_env_trans: "same_env d d' \<Longrightarrow> same_env d' d'' \<Longrightarrow> same_env d d''"
  by (simp add: same_env_def)

lemma same_env_tree [simp]: "same_env d (d\<lparr>disk_tree := t\<rparr>)"
  by (simp add: same_env_def)

lemma same_env_resolve: "same_env d d' \<Longrightarrow> resolve d' p = resolve d p"
  by (simp add: same_env_def resolve_def)

lemma mkdir_elems_frame:
  "mkdir_elems made es d = (er, d') \<Longrightarrow> same_env d d' \<and> (\<forall>q. text_at d' q = text_at d q)"
proof (induction made es d rule: mkdir_elems.induct)
  case (2 made e es d)
  show ?case
  proof (cases "ft_lookup (disk_tree d) (made @ [e])")
    case None
    show ?thesis
    proof (cases "io_mkdir (disk_faults d) (made @ [e])")
      case n: None
      let ?d = "d\<lparr>disk_tree := ft_put (made @ [e]) (FDir []) (disk_tree d)\<rparr>"
      have "same_env ?d d' \<and> (\<forall>q. text_at d' q = text_at ?d q)"
        using 2 None n by (simp add: Let_def)
      moreover have "text_at ?d q = text_at d q" for q
        using ft_put_dir_text [OF None] by simp
      ultimately show ?thesis by (auto intro: same_env_trans [OF same_env_tree])
    qed (use 2 None in \<open>simp add: Let_def\<close>)
  next
    case (Some t)
    then show ?thesis using 2 by (cases t) (simp_all add: Let_def)
  qed
qed simp

lemma mkdir_elems_makes:
  "\<lbrakk>mkdir_elems made es d = (None, d'); is_dir (ft_lookup (disk_tree d) made)\<rbrakk>
    \<Longrightarrow> is_dir (ft_lookup (disk_tree d') (made @ es))"
proof (induction made es d rule: mkdir_elems.induct)
  case (2 made e es d)
  show ?case
  proof (cases "ft_lookup (disk_tree d) (made @ [e])")
    case None
    show ?thesis
    proof (cases "io_mkdir (disk_faults d) (made @ [e])")
      case n: None
      let ?d = "d\<lparr>disk_tree := ft_put (made @ [e]) (FDir []) (disk_tree d)\<rparr>"
      have "ft_lookup (disk_tree ?d) (made @ [e]) = Some (FDir [])"
        using ft_lookup_put_same [of "made @ [e]"] 2 by simp
      then show ?thesis using 2(1) [OF refl None n] 2 None n by (simp add: is_dir_def Let_def)
    qed (use 2 None in \<open>simp add: Let_def\<close>)
  next
    case (Some t)
    show ?thesis
    proof (cases t)
      case (FDir x)
      then show ?thesis using 2(2) [OF refl Some FDir] 2 Some by (simp add: is_dir_def Let_def)
    qed (use 2 Some in \<open>simp add: Let_def\<close>)
  qed
qed simp

lemma os_MkdirAll_frame:
  "os_MkdirAll p d = (er, d') \<Longrightarrow> same_env d d' \<and> (\<forall>q. text_at d' q = text_at d q)"
  by (auto simp: os_MkdirAll_def split: if_splits dest: mkdir_elems_frame)

lemma os_OpenFile_Inl: "os_OpenFile p d = (Inl err, d') \<Longrightarrow> d' = d"
  by (auto simp: os_OpenFile_def Let_def split: option.splits if_splits)

lemma os_OpenFile_Inr:
  assumes "os_OpenFile p d = (Inr fd, d')"
  shows "fd = resolve d p \<and> same_env d d' \<and> text_at d' fd = Some [] \<and> (\<forall>q. q \<noteq> fd \<longrightarrow> text_at d' q = text_at d q)"
proof -
  define r where "r = resolve d p"
  have r: "\<not> is_dir (ft_lookup (disk_tree d) r)" "is_dir (ft_lookup (disk_tree d) (butlast r))"
    and d': "fd = r" "d' = d\<lparr>disk_tree := ft_put r (FFile []) (disk_tree d)\<rparr>"
    using assms by (auto simp: os_OpenFile_def Let_def r_def split: option.splits if_splits)
  have "ft_lookup (ft_put r (FFile []) (disk_tree d)) r = Some (FFile [])"
    using r by (intro ft_lookup_put_same) auto
  then show ?thesis using ft_put_file_text [OF _ r(1), of _ "FFile []"]
    by (simp add: d' file_text_def flip: r_def)
qed

lemma fd_Write_spec:
  assumes "fd_Write fd data d = ((n, er), d')" and "text_at d fd = Some old"
  shows "same_env d d' \<and> n \<le> length data \<and> (er = None \<longrightarrow> n = length data)
    \<and> text_at d' fd = Some (old @ take n data) \<and> (\<forall>q. q \<noteq> fd \<longrightarrow> text_at d' q = text_at d q)"
proof -
  have f: "ft_lookup (disk_tree d) fd = Some (FFile old)"
    using assms(2) by (auto simp: file_text_def split: option.splits file_tree.splits)
  have p: "fd = [] \<or> is_dir (ft_lookup (disk_tree d) (butlast fd))"
  proof (cases fd rule: rev_cases)
    case (snoc r e)
    then show ?thesis using f
      by (auto simp: ft_lookup_append is_dir_def split: option.splits file_tree.splits)
  qed simp
  have d': "d' = d\<lparr>disk_tree := ft_put fd (FFile (old @ take n data)) (disk_tree d)\<rparr>"
    and n: "n \<le> length data" "er = None \<longrightarrow> n = length data"
    using assms by (auto simp: fd_Write_def Let_def split: option.splits prod.splits)
  have "\<not> is_dir (ft_lookup (disk_tree d) fd)" by (simp add: f is_dir_def)
  from ft_put_file_text [OF _ this, of _ "FFile (old @ take n data)"] show ?thesis
    using n ft_lookup_put_same [OF p] by (simp add: d' file_text_def)
qed

end
