(* ===== verification/Local_Disk.thy ===== *)
theory Local_Disk
  imports Go_Files Storage_Backends
begin

text \<open>
  \<^verbatim>\<open>storage/localdiskbackend.go\<close>: the backend that keeps certificates and log states in
  files under a root directory. File permissions are left out.
\<close>

section \<open>Operations\<close>

abbreviation kStateDirName :: string where "kStateDirName \<equiv> ''state''"
abbreviation kSuffixCertificates :: string where "kSuffixCertificates \<equiv> ''.pem''"
abbreviation kDirtyMarker :: string where "kDirtyMarker \<equiv> ''dirty''"

definition isDirectory :: "string \<Rightarrow> disk \<Rightarrow> bool" where
  "isDirectory aPath d =
     (case os_Stat aPath d of Inl err \<Rightarrow> False | Inr fileStat \<Rightarrow> is_dir (Some fileStat))"

definition makeDirectoryIfNotExist :: "string \<Rightarrow> disk \<Rightarrow> go_error option \<times> disk" where
  "makeDirectoryIfNotExist ident d =
     (let dirPath = fst (filepath_Split ident)
      in if \<not> isDirectory dirPath d then os_MkdirAll dirPath d else (None, d))"

definition LDB_store :: "string \<Rightarrow> string \<Rightarrow> disk \<Rightarrow> go_error option \<times> disk" where
  "LDB_store path data d =
     (case makeDirectoryIfNotExist path d of
        (Some err, d) \<Rightarrow> (Some err, d)
      | (None, d) \<Rightarrow>
          (case os_OpenFile path d of
             (Inl err, d) \<Rightarrow> (Some err, d)
           | (Inr fd, d) \<Rightarrow>
               (case fd_Write fd data d of
                  ((bytesWritten, Some err), d) \<Rightarrow> (Some err, d)
                | ((bytesWritten, None), d) \<Rightarrow>
                    (if length data \<noteq> bytesWritten then (Some (Errorf ''Only wrote some bytes.''), d)
                     else (fd_Close fd d, d)))))"

definition LDB_load :: "string \<Rightarrow> disk \<Rightarrow> string ret" where
  "LDB_load path d =
     (case os_Open path d of
        Inl err \<Rightarrow> ([], Some err)
      | Inr fd \<Rightarrow>
          (case ReadAll fd d of
             (data, Some err) \<Rightarrow> (data, Some err)
           | (data, None) \<Rightarrow> (data, fd_Close fd d)))"

definition LDB_MarkDirty :: "string \<Rightarrow> disk \<Rightarrow> go_error option \<times> disk" where
  "LDB_MarkDirty ident d = LDB_store (filepath_Join [ident, kDirtyMarker]) [CHR 0x00] d"

text \<open>The functions given to \<^verbatim>\<open>filepath.Walk\<close>.\<close>

definition walk_dates :: "gotime \<Rightarrow> string \<Rightarrow> bool \<Rightarrow> ExpDate list \<Rightarrow> walk_result \<times> ExpDate list" where
  "walk_dates aNotBefore name dir expDates =
     (if dir
      then if name = kStateDirName then (SkipDir, expDates)
           else case NewExpDate name of
                  Inl err \<Rightarrow> (WalkOn, expDates)
                | Inr expDate \<Rightarrow>
                    (if \<not> IsExpiredAt expDate aNotBefore then (SkipDir, expDates @ [expDate])
                     else (WalkOn, expDates))
      else (WalkOn, expDates))"

definition walk_issuers :: "string \<Rightarrow> bool \<Rightarrow> Issuer list \<Rightarrow> walk_result \<times> Issuer list" where
  "walk_issuers name dir issuers =
     (if has_suffix name kSuffixCertificates
      then (WalkOn, issuers @ [NewIssuerFromString (trim_suffix name kSuffixCertificates)])
      else (WalkOn, issuers))"

definition walk_serials ::
    "ExpDate \<Rightarrow> Issuer \<Rightarrow> string \<Rightarrow> bool \<Rightarrow> UniqueCertIdentifier list \<Rightarrow> walk_result \<times> UniqueCertIdentifier list" where
  "walk_serials expDate issuer name dir sent =
     (if has_suffix name kSuffixCertificates
      then case NewSerialFromIDString (trim_suffix name kSuffixCertificates) of
             Inl err \<Rightarrow> (WalkError err, sent)
           | Inr sn \<Rightarrow>
               (WalkError (Errorf ''Unimplemented''),
                sent @ [\<lparr>uci_ExpDate = expDate, uci_Issuer = issuer, uci_SerialNum = sn\<rparr>])
      else (WalkOn, sent))"

definition LDB_ListExpirationDates :: "string \<Rightarrow> gotime \<Rightarrow> disk \<Rightarrow> ExpDate list ret \<times> disk" where
  "LDB_ListExpirationDates rootPath aNotBefore d =
     (case filepath_Walk rootPath (walk_dates (day_start aNotBefore)) d [] of (err, expDates) \<Rightarrow> ((expDates, err), d))"

definition LDB_ListIssuersForExpirationDate :: "string \<Rightarrow> ExpDate \<Rightarrow> disk \<Rightarrow> Issuer list ret \<times> disk" where
  "LDB_ListIssuersForExpirationDate rootPath expDate d =
     (case filepath_Walk (filepath_Join [rootPath, ExpDate_ID expDate]) walk_issuers d [] of
        (err, issuers) \<Rightarrow> ((issuers, err), d))"

definition LDB_StreamSerialsForExpirationDateAndIssuer ::
    "string \<Rightarrow> ExpDate \<Rightarrow> Issuer \<Rightarrow> disk \<Rightarrow> UniqueCertIdentifier list ret \<times> disk" where
  "LDB_StreamSerialsForExpirationDateAndIssuer rootPath expDate issuer d =
     (case filepath_Walk (filepath_Join [rootPath, ExpDate_ID expDate, iss_id issuer]) (walk_serials expDate issuer) d [] of
        (err, sent) \<Rightarrow> ((sent, err), d))"

definition LDB_ListSerialsForExpirationDateAndIssuer ::
    "string \<Rightarrow> ExpDate \<Rightarrow> Issuer \<Rightarrow> disk \<Rightarrow> Serial list ret \<times> disk" where
  "LDB_ListSerialsForExpirationDateAndIssuer rootPath expDate issuer d =
     (case LDB_StreamSerialsForExpirationDateAndIssuer rootPath expDate issuer d of
        ((sent, Some err), d) \<Rightarrow> (([], Some err), d)
      | ((sent, None), d) \<Rightarrow> ((map uci_SerialNum sent, None), d))"

definition LDB_AllocateExpDateAndIssuer :: "string \<Rightarrow> ExpDate \<Rightarrow> Issuer \<Rightarrow> disk \<Rightarrow> go_error option \<times> disk" where
  "LDB_AllocateExpDateAndIssuer rootPath expDate issuer d =
     makeDirectoryIfNotExist (filepath_Join [rootPath, ExpDate_ID expDate, iss_id issuer]) d"

definition LDB_StoreCertificatePEM ::
    "string \<Rightarrow> Serial \<Rightarrow> ExpDate \<Rightarrow> Issuer \<Rightarrow> string \<Rightarrow> disk \<Rightarrow> go_error option \<times> disk" where
  "LDB_StoreCertificatePEM rootPath sn expDate issuer b d =
     (case LDB_AllocateExpDateAndIssuer rootPath expDate issuer d of
        (_, d) \<Rightarrow> LDB_store (filepath_Join [rootPath, ExpDate_ID expDate, iss_id issuer, Serial_ID sn]) b d)"

definition LDB_StoreLogState :: "log_json \<Rightarrow> string \<Rightarrow> CertificateLog \<Rightarrow> disk \<Rightarrow> go_error option \<times> disk" where
  "LDB_StoreLogState js rootPath log d =
     (let path = filepath_Join [rootPath, kStateDirName, CertificateLog_ID log]
      in case json_Marshal js log of
           Inl err \<Rightarrow> (Some err, d)
         | Inr encoded \<Rightarrow> LDB_store path encoded d)"

text \<open>The context of the caller is not cancelled while the list is written.\<close>

fun write_serials :: "string list \<Rightarrow> Serial list \<Rightarrow> disk \<Rightarrow> go_error option \<times> disk" where
  "write_serials fd [] d = (None, d)"
| "write_serials fd (s # ss) d =
     (case fd_Write fd (HexString s @ [CHR 0x0A]) d of
        ((_, Some err), d) \<Rightarrow> (Some err, d)
      | ((_, None), d) \<Rightarrow> write_serials fd ss d)"

definition LDB_StoreKnownCertificateList :: "string \<Rightarrow> Issuer \<Rightarrow> Serial list \<Rightarrow> disk \<Rightarrow> go_error option \<times> disk" where
  "LDB_StoreKnownCertificateList rootPath issuer serials d =
     (let path = filepath_Join [rootPath, iss_id issuer]
      in case makeDirectoryIfNotExist path d of
           (Some err, d) \<Rightarrow> (Some err, d)
         | (None, d) \<Rightarrow>
             (case os_OpenFile path d of
                (Inl err, d) \<Rightarrow> (Some err, d)
              | (Inr fd, d) \<Rightarrow> write_serials fd serials d))"

definition LDB_LoadCertificatePEM :: "string \<Rightarrow> Serial \<Rightarrow> ExpDate \<Rightarrow> Issuer \<Rightarrow> disk \<Rightarrow> string ret \<times> disk" where
  "LDB_LoadCertificatePEM rootPath sn expDate issuer d = (([], Some (Errorf ''Unimplemented'')), d)"

definition LDB_LoadLogState :: "log_json \<Rightarrow> string \<Rightarrow> string \<Rightarrow> disk \<Rightarrow> CertificateLog option ret \<times> disk" where
  "LDB_LoadLogState js rootPath logURL d =
     (let path = filepath_Join [rootPath, kStateDirName, CertificateLogIDFromShortURL logURL]
      in case LDB_load path d of
           (data, Some err) \<Rightarrow> ((Some (blank_log logURL), None), d)
         | (data, None) \<Rightarrow>
             (case json_Unmarshal_value js data of
                Inl err \<Rightarrow> ((None, Some err), d)
              | Inr log \<Rightarrow> ((Some log, None), d)))"

definition local_disk_backend :: "log_json \<Rightarrow> string \<Rightarrow> disk StorageBackend" where
  "local_disk_backend js rootPath =
     \<lparr>sb_MarkDirty = LDB_MarkDirty,
      sb_StoreCertificatePEM = LDB_StoreCertificatePEM rootPath,
      sb_StoreLogState = LDB_StoreLogState js rootPath,
      sb_StoreKnownCertificateList = LDB_StoreKnownCertificateList rootPath,
      sb_LoadCertificatePEM = LDB_LoadCertificatePEM rootPath,
      sb_LoadLogState = LDB_LoadLogState js rootPath,
      sb_AllocateExpDateAndIssuer = LDB_AllocateExpDateAndIssuer rootPath,
      sb_ListExpirationDates = LDB_ListExpirationDates rootPath,
      sb_ListIssuersForExpirationDate = LDB_ListIssuersForExpirationDate rootPath,
      sb_ListSerialsForExpirationDateAndIssuer = LDB_ListSerialsForExpirationDateAndIssuer rootPath,
      sb_StreamSerialsForExpirationDateAndIssuer = LDB_StreamSerialsForExpirationDateAndIssuer rootPath\<rparr>"

section \<open>What one file operation changes\<close>

lemma makeDirectoryIfNotExist_frame:
  "makeDirectoryIfNotExist p d = (er, d') \<Longrightarrow> same_env d d' \<and> (\<forall>q. text_at d' q = text_at d q)"
  by (auto simp: makeDirectoryIfNotExist_def Let_def split: if_splits dest: os_MkdirAll_frame)

lemma LDB_store_frame:
  assumes "LDB_store p data d = (er, d')"
  shows "same_env d d' \<and> (\<forall>q. q \<noteq> resolve d p \<longrightarrow> text_at d' q = text_at d q)
    \<and> (er = None \<longrightarrow> text_at d' (resolve d p) = Some data)"
proof -
  obtain er1 d1 where m: "makeDirectoryIfNotExist p d = (er1, d1)" by fastforce
  note f1 = makeDirectoryIfNotExist_frame [OF m]
  show ?thesis
  proof (cases er1)
    case (Some err)
    then show ?thesis using assms m f1 by (auto simp: LDB_store_def)
  next
    case None
    obtain r d2 where o: "os_OpenFile p d1 = (r, d2)" by fastforce
    show ?thesis
    proof (cases r)
      case (Inl err)
      then show ?thesis using assms m None o f1 os_OpenFile_Inl [of p d1 err d2] by (auto simp: LDB_store_def)
    next
      case (Inr fd)
      note f2 = os_OpenFile_Inr [OF o [unfolded Inr]]
      obtain n er3 d3 where w: "fd_Write fd data d2 = ((n, er3), d3)" by (metis prod.collapse)
      have f3: "same_env d2 d3 \<and> n \<le> length data \<and> (er3 = None \<longrightarrow> n = length data)
        \<and> text_at d3 fd = Some ([] @ take n data) \<and> (\<forall>q. q \<noteq> fd \<longrightarrow> text_at d3 q = text_at d2 q)"
        using fd_Write_spec [OF w, of "[]"] f2 by blast
      have d': "d' = d3" "er = None \<Longrightarrow> er3 = None"
        using assms by (auto simp: LDB_store_def m None o Inr w split: option.splits if_splits)
      have "fd = resolve d p" using f1 f2 same_env_resolve by simp
      moreover have "same_env d d3" using f1 f2 f3 by (meson same_env_trans)
      moreover have "text_at d3 q = text_at d q" if "q \<noteq> fd" for q
        using that f1 f2 f3 by simp
      ultimately show ?thesis using d' f3 by simp
    qed
  qed
qed

lemma Serial_ID_no_slash: "CHR ''/'' \<notin> set (Serial_ID n)"
  by (simp add: Serial_ID_def)

lemma b64_encode_no_dot: "CHR ''.'' \<notin> set (b64_encode bs)"
  by (rule b64_encode_free) simp

lemma b64_encode_empty: "b64_encode bs = [] \<longleftrightarrow> bs = []"
  by (cases bs rule: b64_encode.cases) simp_all

lemma plain_b64: "bs \<noteq> [] \<Longrightarrow> plain_elem (b64_encode bs)"
  using b64_encode_no_dot [of bs] by (auto simp: plain_elem_def b64_encode_empty)

text \<open>The marker \<^verbatim>\<open>dirty\<close> has five characters, a base64 text a multiple of four.\<close>

lemma Serial_ID_not_dirty: "Serial_ID n \<noteq> kDirtyMarker"
proof
  assume eq: "Serial_ID n = kDirtyMarker"
  have "length (Serial_ID n) mod 4 = 0" by (simp add: Serial_ID_def length_b64_encode)
  then show False unfolding eq by simp
qed

section \<open>The certificates on disk\<close>

text \<open>
  Under the root \<^verbatim>\<open>/c\<^sub>1/\<dots>/c\<^sub>n\<close> a certificate is the file of its bucket, its issuer and its serial.
\<close>

definition disk_pem :: "string list \<Rightarrow> disk \<Rightarrow> cert_key \<Rightarrow> string option" where
  "disk_pem comps d k = (case k of (e, i, n) \<Rightarrow> text_at d (comps @ [e, i, Serial_ID n]))"

definition disk_key_ok :: "string list \<Rightarrow> cert_key \<Rightarrow> bool" where
  "disk_key_ok comps k \<longleftrightarrow>
     (case k of (e, i, n) \<Rightarrow> list_all plain_elem comps \<and> plain_elem e \<and> plain_elem i \<and> serial n \<noteq> [])"

lemma disk_key_elems: "disk_key_ok comps (e, i, n) \<Longrightarrow> list_all plain_elem (comps @ [e, i, Serial_ID n])"
  by (simp add: disk_key_ok_def Serial_ID_def plain_b64)

lemma disk_pem_path:
  assumes "disk_key_ok comps (e, i, n)"
  shows "resolve d (filepath_Join [abs_path comps, e, i, Serial_ID n]) = comps @ [e, i, Serial_ID n]"
proof -
  have p: "list_all plain_elem comps" "list_all plain_elem [e, i, Serial_ID n]"
    using disk_key_elems [OF assms] by simp_all
  then have "list_all plain_elem (comps @ [e, i, Serial_ID n])" by simp
  then show ?thesis using filepath_Join_abs [OF p] resolve_abs by simp
qed

lemma LDB_StoreCertificatePEM_frame:
  assumes "LDB_StoreCertificatePEM (abs_path comps) n e i b d = (er, d')" and "disk_key_ok comps (cert_key e i n)"
  shows "same_env d d' \<and> (\<forall>q. q \<noteq> comps @ [ExpDate_ID e, iss_id i, Serial_ID n] \<longrightarrow> text_at d' q = text_at d q)
    \<and> (er = None \<longrightarrow> text_at d' (comps @ [ExpDate_ID e, iss_id i, Serial_ID n]) = Some b)"
proof -
  obtain er1 d1 where a: "LDB_AllocateExpDateAndIssuer (abs_path comps) e i d = (er1, d1)" by fastforce
  note f1 = makeDirectoryIfNotExist_frame [OF a [unfolded LDB_AllocateExpDateAndIssuer_def]]
  have s: "LDB_store (filepath_Join [abs_path comps, ExpDate_ID e, iss_id i, Serial_ID n]) b d1 = (er, d')"
    using assms(1) a by (simp add: LDB_StoreCertificatePEM_def)
  show ?thesis
    using LDB_store_frame [OF s] f1 disk_pem_path [OF assms(2), of d1] same_env_trans [of d d1 d'] by auto
qed

interpretation disk_store: pem_store "local_disk_backend js (abs_path comps)" "disk_pem comps" "disk_key_ok comps"
proof (unfold_locales, goal_cases)
  case (1 n e i b st st')
  note f = LDB_StoreCertificatePEM_frame [OF _ 1(2), of b st None st']
  show ?case using 1(1) f by (auto simp: local_disk_backend_def disk_pem_def)
next
  case (2 n e i st d st')
  then show ?case by (simp add: local_disk_backend_def LDB_LoadCertificatePEM_def)
next
  case (3 p st er st')
  obtain r where r: "resolve st (filepath_Join [p, kDirtyMarker]) = r @ [kDirtyMarker]"
    using resolve_Join_snoc [of kDirtyMarker st p] by (auto simp: plain_elem_def)
  have "LDB_store (filepath_Join [p, kDirtyMarker]) [CHR 0x00] st = (er, st')"
    using 3 by (simp add: local_disk_backend_def LDB_MarkDirty_def)
  note f = LDB_store_frame [OF this, unfolded r]
  have "text_at st' q = text_at st q" if "last q \<noteq> kDirtyMarker" for q
  proof -
    have "q \<noteq> r @ [kDirtyMarker]" using that by (metis last_snoc)
    then show ?thesis using f by blast
  qed
  then show ?case using Serial_ID_not_dirty by (auto simp: disk_pem_def fun_eq_iff)
next
  case (4 e i st er st')
  then show ?case
    using makeDirectoryIfNotExist_frame
    by (auto simp: local_disk_backend_def LDB_AllocateExpDateAndIssuer_def disk_pem_def fun_eq_iff)
qed

section \<open>Log states on disk\<close>

lemma log_path:
  assumes "list_all plain_elem comps" and "url \<noteq> []"
  shows "resolve d (filepath_Join [abs_path comps, kStateDirName, CertificateLogIDFromShortURL url])
    = comps @ [kStateDirName, CertificateLogIDFromShortURL url]"
proof -
  have "bytes_of_string url \<noteq> []" using assms(2) by (simp add: bytes_of_string_def)
  then have p: "list_all plain_elem [kStateDirName, CertificateLogIDFromShortURL url]"
    by (simp add: CertificateLogIDFromShortURL_def plain_b64) (simp add: plain_elem_def)
  then have "list_all plain_elem (comps @ [kStateDirName, CertificateLogIDFromShortURL url])"
    using assms(1) by simp
  then show ?thesis using filepath_Join_abs [OF assms(1) p] resolve_abs by simp
qed

lemma LDB_load_text:
  assumes "text_at d (resolve d p) = Some data" and "p \<noteq> []"
    and "io_open (disk_faults d) (resolve d p) = None" and "io_read (disk_faults d) (resolve d p) = None"
    and "io_close (disk_faults d) (resolve d p) = None"
  shows "LDB_load p d = (data, None)"
proof -
  have "ft_lookup (disk_tree d) (resolve d p) \<noteq> None" using assms(1) by (auto simp: file_text_def split: option.splits)
  then show ?thesis using assms by (auto simp: LDB_load_def os_Open_def ReadAll_def fd_Close_def Let_def)
qed

lemma filepath_Join_nonempty:
  assumes "list_all plain_elem comps" and "list_all plain_elem es" and "es \<noteq> []"
  shows "filepath_Join (abs_path comps # es) \<noteq> []"
  by (simp add: filepath_Join_abs [OF assms])

text \<open>
  A log state that the local disk took is the one it loads again, when its file can be read:
  the file is the one of the log's short URL under \<^verbatim>\<open>state\<close>, and its whole text is the encoding.
\<close>

lemma LDB_StoreLogState_then_Load:
  assumes "list_all plain_elem comps" and "ShortURL l \<noteq> []"
    and "LDB_StoreLogState js (abs_path comps) l d = (None, d')"
    and "\<And>s. json_Marshal js l = Inr s \<Longrightarrow> json_Unmarshal_value js s = Inr l"
    and "let p = comps @ [kStateDirName, CertificateLog_ID l]
         in io_open (disk_faults d) p = None \<and> io_read (disk_faults d) p = None \<and> io_close (disk_faults d) p = None"
  shows "LDB_LoadLogState js (abs_path comps) (ShortURL l) d' = ((Some l, None), d')"
proof -
  define p where "p = filepath_Join [abs_path comps, kStateDirName, CertificateLogIDFromShortURL (ShortURL l)]"
  obtain s where s: "json_Marshal js l = Inr s" "LDB_store p s d = (None, d')"
    using assms(3) by (auto simp: LDB_StoreLogState_def Let_def CertificateLog_ID_def p_def split: sum.splits)
  note r = log_path [OF assms(1,2), folded p_def]
  note f = LDB_store_frame [OF s(2)]
  have "p \<noteq> []" unfolding p_def
    by (rule filepath_Join_nonempty [OF assms(1)])
      (use assms(2) in \<open>simp_all add: CertificateLogIDFromShortURL_def plain_b64 bytes_of_string_def\<close>,
       simp add: plain_elem_def)
  then have "LDB_load p d' = (s, None)"
    using f assms(5) by (intro LDB_load_text) (simp_all add: r same_env_def CertificateLog_ID_def Let_def)
  then show ?thesis
    using assms(4) [OF s(1)] by (simp add: LDB_LoadLogState_def p_def Let_def)
qed

definition no_faults :: io_faults where
  "no_faults = \<lparr>io_mkdir = \<lambda>p. None, io_open = \<lambda>p. None, io_write = \<lambda>p s. None,
     io_read = \<lambda>p. None, io_close = \<lambda>p. None\<rparr>"

definition empty_disk :: disk where
  "empty_disk = \<lparr>disk_tree = FDir [], disk_cwd = [], disk_faults = no_faults\<rparr>"

section \<open>What the listings see\<close>

text \<open>A property of every name in a tree, and what keeps it.\<close>

fun all_names :: "(string \<Rightarrow> bool) \<Rightarrow> file_tree \<Rightarrow> bool" where
  "all_names P (FFile c) = True"
| "all_names P (FDir es) = list_all (\<lambda>(n, t). P n \<and> all_names P t) es"

lemma all_names_update:
  "\<lbrakk>all_names P (FDir es); P n; all_names P t\<rbrakk> \<Longrightarrow> all_names P (FDir (AList.update n t es))"
  by (induction es) auto

lemma all_names_map_of: "\<lbrakk>all_names P (FDir es); map_of es n = Some t\<rbrakk> \<Longrightarrow> all_names P t"
  by (drule map_of_SomeD) (auto simp: list_all_iff)

lemma all_names_put: "\<lbrakk>list_all P p; all_names P v; all_names P t\<rbrakk> \<Longrightarrow> all_names P (ft_put p v t)"
proof (induction p v t rule: ft_put.induct)
  case (3 n ns v es)
  show ?case
  proof (cases "map_of es n")
    case None
    then show ?thesis using 3 all_names_update [of P es n v] by auto
  next
    case (Some t)
    then show ?thesis using 3 all_names_update [of P es n] all_names_map_of [of P es n t] by auto
  qed
qed simp_all

lemma mkdir_elems_names:
  "\<lbrakk>mkdir_elems made es d = (er, d'); list_all P (made @ es); all_names P (disk_tree d)\<rbrakk> \<Longrightarrow> all_names P (disk_tree d')"
proof (induction made es d rule: mkdir_elems.induct)
  case (2 made e es d)
  have "all_names P (ft_put (made @ [e]) (FDir []) (disk_tree d))"
    using 2(4,5) by (intro all_names_put) auto
  then show ?case
    using 2 by (auto simp: Let_def split: option.splits file_tree.splits)
qed simp

lemma makeDirectoryIfNotExist_names:
  assumes "makeDirectoryIfNotExist p d = (er, d')" and "all_names P (disk_tree d)"
    and "list_all P (resolve d (fst (filepath_Split p)))"
  shows "all_names P (disk_tree d')"
  using assms mkdir_elems_names [of "[]" "resolve d (fst (filepath_Split p))" d er d' P]
  by (auto simp: makeDirectoryIfNotExist_def os_MkdirAll_def Let_def split: if_splits)

lemma LDB_store_names:
  assumes "LDB_store p data d = (er, d')" and "all_names P (disk_tree d)"
    and "list_all P (resolve d (fst (filepath_Split p)))" and "list_all P (resolve d p)"
  shows "all_names P (disk_tree d')"
proof -
  obtain er1 d1 where m: "makeDirectoryIfNotExist p d = (er1, d1)" by fastforce
  have d1: "all_names P (disk_tree d1)" "resolve d1 p = resolve d p"
    using makeDirectoryIfNotExist_names [OF m assms(2,3)] makeDirectoryIfNotExist_frame [OF m]
    by (auto simp: same_env_resolve)
  have d2: "all_names P (disk_tree d2)" if "os_OpenFile p d1 = (r, d2)" for r d2
    using that d1 assms(4) by (auto simp: os_OpenFile_def Let_def all_names_put split: option.splits if_splits)
  have d3: "all_names P (disk_tree d3)" if "fd_Write fd data d2 = (r, d3)" "os_OpenFile p d1 = (Inr fd, d2)" for fd r d2 d3
    using that(1) d2 [OF that(2)] os_OpenFile_Inr [OF that(2)] assms(4)
    by (auto simp: fd_Write_def Let_def d1 all_names_put split: option.splits prod.splits)
  show ?thesis
    using assms(1) d1 d2 d3
    by (auto simp: LDB_store_def m split: option.splits sum.splits prod.splits if_splits)
qed

lemma all_names_sort: "all_names P (FDir (sort_key f es)) = all_names P (FDir es)"
  by (simp add: list_all_iff)

text \<open>A walk whose function passes over all names of a tree ends with what it began with.\<close>

lemma walk_blind:
  shows "\<lbrakk>\<forall>n b st. Q n \<longrightarrow> fn n b st = (WalkOn, st); Q name; all_names Q t\<rbrakk> \<Longrightarrow> walk fn name t st = (WalkOn, st)"
    and "\<lbrakk>\<forall>n b st. Q n \<longrightarrow> fn n b st = (WalkOn, st); all_names Q (FDir es)\<rbrakk> \<Longrightarrow> walk_list fn es st = (WalkOn, st)"
proof (induction fn name t st and fn es st rule: walk_walk_list.induct)
  case (2 fn name es st)
  have s: "fn name True st = (WalkOn, st)" using 2(2,3) by blast
  have "all_names Q (FDir (sort_key fst es))" using 2(4) by (simp only: all_names_sort)
  then show ?case using 2(1) [OF s [symmetric] refl 2(2)] s by simp
qed simp_all

abbreviation no_pem_name :: "string \<Rightarrow> bool" where
  "no_pem_name n \<equiv> \<not> has_suffix n kSuffixCertificates"

text \<open>The walk over the dates meets no error and keeps what it found.\<close>

lemma walk_dates_grows:
  shows "walk fn name t st = (r, st') \<Longrightarrow> fn = walk_dates nb \<Longrightarrow>
      set st \<subseteq> set st' \<and> (\<forall>err. r \<noteq> WalkError err) \<and> (\<forall>c. t = FFile c \<longrightarrow> r = WalkOn)"
    and "walk_list fn es st = (r, st') \<Longrightarrow> fn = walk_dates nb \<Longrightarrow> set st \<subseteq> set st' \<and> r = WalkOn"
proof (induction fn name t st and fn es st arbitrary: r st' and r st' rule: walk_walk_list.induct)
  case (1 fn name c st)
  then show ?case by (auto simp: walk_dates_def)
next
  case (2 fn name es st)
  obtain r1 st1 where f: "fn name True st = (r1, st1)" by fastforce
  then have s: "set st \<subseteq> set st1" "\<forall>err. r1 \<noteq> WalkError err"
    using 2(3) by (auto simp: walk_dates_def split: if_splits sum.splits)
  show ?case
  proof (cases r1)
    case WalkOn
    then show ?thesis using 2(1) [OF f [symmetric] WalkOn] 2(2,3) s f by fastforce
  qed (use 2(2) s f in auto)
next
  case (4 fn n t es st)
  obtain r1 st1 where w: "walk fn n t st = (r1, st1)" by fastforce
  note ih = 4(1) [OF w 4(5)]
  show ?case
  proof (cases r1)
    case WalkOn
    then show ?thesis using 4(2) [OF w [symmetric] WalkOn, of r st'] 4(4,5) w ih by auto
  next
    case SkipDir
    then obtain x where t: "t = FDir x" using ih by (cases t) auto
    then show ?thesis using 4(3) [OF w [symmetric] SkipDir t, of r st'] 4(4,5) w ih SkipDir by auto
  qed (use ih in simp)
qed auto

lemma walk_dates_finds:
  assumes "(n, FDir x) \<in> set es" and "NewExpDate n = Inr e" and "\<not> IsExpiredAt e nb" and "n \<noteq> kStateDirName"
    and "walk_list (walk_dates nb) es st = (r, st')"
  shows "e \<in> set st'"
  using assms(1,5)
proof (induction es arbitrary: st)
  case (Cons m es)
  obtain k t where m: "m = (k, t)" by fastforce
  obtain r1 st1 where w: "walk (walk_dates nb) k t st = (r1, st1)" by fastforce
  have ok: "\<forall>err. r1 \<noteq> WalkError err" "\<forall>c. t = FFile c \<longrightarrow> r1 = WalkOn"
    using walk_dates_grows(1) [OF w refl] by blast+
  have go: "walk_list (walk_dates nb) es st1 = (r, st')"
    using Cons(3) ok w m by (cases r1; cases t) auto
  show ?case
  proof (cases "m = (n, FDir x)")
    case True
    then have "walk (walk_dates nb) k t st = (SkipDir, st @ [e])"
      using m assms(2-4) by (simp add: walk_dates_def)
    then show ?thesis using walk_dates_grows(2) [OF go refl] w by auto
  next
    case False
    then show ?thesis using Cons(1) [OF _ go] Cons(2) by auto
  qed
qed simp

text \<open>The names that a store writes do not end in \<^verbatim>\<open>.pem\<close>.\<close>

lemma no_dot_no_pem: "CHR ''.'' \<notin> set n \<Longrightarrow> no_pem_name n"
  by (auto simp: has_suffix_def suffix_def)

lemma ExpDate_ID_name:
  assumes "parsed_exp e"
  shows "plain_elem (ExpDate_ID e)" and "no_pem_name (ExpDate_ID e)" and "ExpDate_ID e \<noteq> kStateDirName"
proof -
  have f: "of_char c \<notin> {45} \<union> {48..57 :: nat} \<Longrightarrow> c \<notin> set (ExpDate_ID e)" for c
    using ExpDate_ID_free [OF parsed_exp_year [OF assms]] .
  have d: "CHR ''.'' \<notin> set (ExpDate_ID e)" "CHR ''/'' \<notin> set (ExpDate_ID e)" "CHR ''s'' \<notin> set (ExpDate_ID e)"
    by (rule f; simp)+
  have "ExpDate_ID e \<noteq> []" using NewExpDate_ExpDate_ID [OF assms] Parse_day_length [of "[]"]
    by (auto simp: NewExpDate_def NewExpDate_day_def dest: Parse_day_length split: sum.splits)
  then show "plain_elem (ExpDate_ID e)" using d by (auto simp: plain_elem_def)
  show "no_pem_name (ExpDate_ID e)" using d(1) by (rule no_dot_no_pem)
  show "ExpDate_ID e \<noteq> kStateDirName" using d(3) by auto
qed

lemma Serial_ID_no_pem: "no_pem_name (Serial_ID n)"
  by (rule no_dot_no_pem) (simp add: Serial_ID_def b64_encode_no_dot)

abbreviation pem_free :: "disk \<Rightarrow> bool" where
  "pem_free d \<equiv> all_names no_pem_name (disk_tree d)"

lemma StoreCertificatePEM_pem_free:
  assumes "LDB_StoreCertificatePEM (abs_path comps) n e i b d = (er, d')"
    and "disk_key_ok comps (cert_key e i n)" and "pem_free d"
    and "list_all no_pem_name (comps @ [ExpDate_ID e, iss_id i])"
  shows "pem_free d'"
proof -
  obtain er1 d1 where a: "LDB_AllocateExpDateAndIssuer (abs_path comps) e i d = (er1, d1)" by fastforce
  have s: "LDB_store (filepath_Join [abs_path comps, ExpDate_ID e, iss_id i, Serial_ID n]) b d1 = (er, d')"
    using assms(1) a by (simp add: LDB_StoreCertificatePEM_def)
  have pl: "list_all plain_elem comps" "list_all plain_elem [ExpDate_ID e, iss_id i]"
    "list_all plain_elem [ExpDate_ID e, iss_id i, Serial_ID n]"
    "list_all plain_elem ((comps @ [ExpDate_ID e]) @ [iss_id i])"
    "list_all plain_elem ((comps @ [ExpDate_ID e, iss_id i]) @ [Serial_ID n])"
    using disk_key_elems [OF assms(2)] by simp_all
  have j1: "filepath_Join [abs_path comps, ExpDate_ID e, iss_id i] = abs_path ((comps @ [ExpDate_ID e]) @ [iss_id i])"
    using filepath_Join_abs [OF pl(1,2)] by simp
  have j2: "filepath_Join [abs_path comps, ExpDate_ID e, iss_id i, Serial_ID n]
      = abs_path ((comps @ [ExpDate_ID e, iss_id i]) @ [Serial_ID n])"
    using filepath_Join_abs [OF pl(1,3)] by simp
  have "pem_free d1"
    using a assms(3,4) filepath_Split_abs(2) [OF pl(4), of d]
    by (intro makeDirectoryIfNotExist_names [of _ d er1 d1]) (auto simp: LDB_AllocateExpDateAndIssuer_def j1)
  then show ?thesis
    using assms(4) filepath_Split_abs(2) [OF pl(5), of d1] Serial_ID_no_pem [of n] resolve_abs [OF pl(5), of d1]
    by (intro LDB_store_names [OF s]) (simp_all add: j2)
qed

lemma ft_lookup_prefix_dir: "ft_lookup t (p @ x # q) = Some u \<Longrightarrow> \<exists>es. ft_lookup t p = Some (FDir es) \<and> (\<exists>v. map_of es x = Some v \<and> ft_lookup v q = Some u)"
  by (auto simp: ft_lookup_append split: option.splits) (rename_tac v; case_tac v; auto split: option.splits)

lemma all_names_lookup: "\<lbrakk>all_names P t; ft_lookup t p = Some u\<rbrakk> \<Longrightarrow> all_names P u"
  by (induction t p rule: ft_lookup.induct) (auto split: option.splits dest: all_names_map_of simp del: all_names.simps)

lemma filepath_Walk_blind:
  assumes "list_all plain_elem p" and "ft_lookup (disk_tree d) p = Some t" and "pem_free d"
    and "\<And>n b st. no_pem_name n \<Longrightarrow> fn n b st = (WalkOn, st)" and "no_pem_name (base_name (abs_path p))"
  shows "filepath_Walk (abs_path p) fn d st = (None, st)"
proof -
  have "all_names no_pem_name t" using assms(2,3) all_names_lookup by blast
  then have "walk fn (base_name (abs_path p)) t st = (WalkOn, st)"
    using assms(4,5) by (intro walk_blind(1) [of no_pem_name]) auto
  then show ?thesis using assms(2) by (simp add: filepath_Walk_def os_Stat_def resolve_abs [OF assms(1)])
qed

lemma base_name_snoc:
  assumes "list_all plain_elem (cs @ [e])" shows "base_name (abs_path (cs @ [e])) = e"
proof -
  have "filter (\<lambda>x. x \<noteq> []) (cs @ [e]) = cs @ [e]"
    using assms by (auto simp: filter_id_conv list_all_iff plain_elem_def)
  then show ?thesis using path_split_join_plain [OF assms] by (simp add: base_name_def)
qed

text \<open>The names that \<^verbatim>\<open>filepath.Walk\<close> gives for the root: passed over by the walks of the listings.\<close>

definition quiet_root :: "string list \<Rightarrow> bool" where
  "quiet_root comps \<longleftrightarrow> list_all plain_elem comps \<and> list_all no_pem_name comps
     \<and> base_name (abs_path comps) \<noteq> kStateDirName \<and> (\<exists>err. NewExpDate (base_name (abs_path comps)) = Inl err)"

lemma ListExpirationDates_finds:
  assumes "quiet_root comps" and "parsed_exp e" and "\<not> IsExpiredAt e (day_start now)"
    and "ft_lookup (disk_tree d) (comps @ [ExpDate_ID e]) = Some (FDir x)"
  shows "\<exists>dates. LDB_ListExpirationDates (abs_path comps) now d = ((dates, None), d) \<and> e \<in> set dates"
proof -
  let ?fn = "walk_dates (day_start now)"
  obtain es where es: "ft_lookup (disk_tree d) comps = Some (FDir es)" "map_of es (ExpDate_ID e) = Some (FDir x)"
    using ft_lookup_prefix_dir [of "disk_tree d" comps "ExpDate_ID e" "[]" "FDir x"] assms(4) by auto
  obtain err where "NewExpDate (base_name (abs_path comps)) = Inl err" "base_name (abs_path comps) \<noteq> kStateDirName"
    using assms(1) by (auto simp: quiet_root_def)
  then have r: "?fn (base_name (abs_path comps)) True [] = (WalkOn, [])" by (simp add: walk_dates_def)
  obtain res dates where w: "walk_list ?fn (sort_key fst es) [] = (res, dates)" by fastforce
  have "(ExpDate_ID e, FDir x) \<in> set (sort_key fst es)" using map_of_SomeD [OF es(2)] by simp
  then have "e \<in> set dates"
    using walk_dates_finds [OF _ NewExpDate_ExpDate_ID [OF assms(2)] assms(3) ExpDate_ID_name(3) [OF assms(2)] w] by simp
  moreover have "res = WalkOn" using walk_dates_grows(2) [OF w refl] by simp
  moreover have "resolve d (abs_path comps) = comps" using assms(1) by (intro resolve_abs) (simp add: quiet_root_def)
  ultimately show ?thesis
    using es r w by (simp add: LDB_ListExpirationDates_def filepath_Walk_def os_Stat_def)
qed

text \<open>
  C29. After a certificate was stored, the local disk lists its expiration date, unless expired,
  but neither its issuer nor its serial, without an error: those listings look for names that end
  in \<^verbatim>\<open>.pem\<close>, and no operation of the backend writes such a name.
\<close>

theorem Disk_lists_dates_only:
  assumes "quiet_root comps" and "disk_key_ok comps (cert_key e i n)" and "parsed_exp e" and "no_pem_name (iss_id i)"
    and "pem_free d" and "LDB_StoreCertificatePEM (abs_path comps) n e i b d = (None, d')"
    and "\<not> IsExpiredAt e (day_start now)"
  shows "pem_free d' \<and> (\<exists>dates. LDB_ListExpirationDates (abs_path comps) now d' = ((dates, None), d') \<and> e \<in> set dates)
    \<and> LDB_ListIssuersForExpirationDate (abs_path comps) e d' = (([], None), d')
    \<and> LDB_ListSerialsForExpirationDateAndIssuer (abs_path comps) e i d' = (([], None), d')"
proof -
  have c: "list_all plain_elem comps" "list_all no_pem_name comps" using assms(1) by (auto simp: quiet_root_def)
  have pe: "plain_elem (ExpDate_ID e)" "plain_elem (iss_id i)" "no_pem_name (ExpDate_ID e)"
    using assms(2) ExpDate_ID_name [OF assms(3)] by (auto simp: disk_key_ok_def)
  have pf: "pem_free d'"
    using StoreCertificatePEM_pem_free [OF assms(6,2,5)] c(2) pe(3) assms(4) by simp
  have "text_at d' (comps @ [ExpDate_ID e, iss_id i, Serial_ID n]) = Some b"
    using LDB_StoreCertificatePEM_frame [OF assms(6,2)] by simp
  then obtain u where u: "ft_lookup (disk_tree d') (comps @ [ExpDate_ID e, iss_id i, Serial_ID n]) = Some u"
    by (auto simp: file_text_def split: option.splits)
  obtain x where x: "ft_lookup (disk_tree d') (comps @ [ExpDate_ID e]) = Some (FDir x)"
    using ft_lookup_prefix_dir [of "disk_tree d'" "comps @ [ExpDate_ID e]" "iss_id i" "[Serial_ID n]" u] u by auto
  obtain y where y: "ft_lookup (disk_tree d') (comps @ [ExpDate_ID e, iss_id i]) = Some (FDir y)"
    using ft_lookup_prefix_dir [of "disk_tree d'" "comps @ [ExpDate_ID e, iss_id i]" "Serial_ID n" "[]" u] u by auto
  have p1: "list_all plain_elem (comps @ [ExpDate_ID e])" and p2: "list_all plain_elem (comps @ [ExpDate_ID e, iss_id i])"
    using c(1) pe by simp_all
  have i: "walk_issuers m bl st = (WalkOn, st)" if "no_pem_name m" for m bl st
    using that by (simp add: walk_issuers_def)
  have s: "walk_serials e i m bl st = (WalkOn, st)" if "no_pem_name m" for m bl st
    using that by (simp add: walk_serials_def)
  have "LDB_ListIssuersForExpirationDate (abs_path comps) e d' = (([], None), d')"
    using filepath_Walk_blind [OF p1 x pf i] pe filepath_Join_abs [OF c(1), of "[ExpDate_ID e]"] base_name_snoc [OF p1]
    by (simp add: LDB_ListIssuersForExpirationDate_def)
  moreover have "LDB_ListSerialsForExpirationDateAndIssuer (abs_path comps) e i d' = (([], None), d')"
    using filepath_Walk_blind [OF p2 y pf s] pe assms(4) base_name_snoc [of "comps @ [ExpDate_ID e]" "iss_id i"] p2
      filepath_Join_abs [OF c(1), of "[ExpDate_ID e, iss_id i]"]
    by (simp add: LDB_ListSerialsForExpirationDateAndIssuer_def LDB_StreamSerialsForExpirationDateAndIssuer_def)
  ultimately show ?thesis using pf ListExpirationDates_finds [OF assms(1,3,7) x] by blast
qed

theorem Disk_lists_dates_only_witness:
  "let d' = snd (LDB_StoreCertificatePEM ''/ct'' (Serial [1]) sample_bucket (NewIssuerFromString ''i'') ''pem'' empty_disk)
   in (\<exists>dates. LDB_ListExpirationDates ''/ct'' (utc 0) d' = ((dates, None), d') \<and> sample_bucket \<in> set dates)
    \<and> LDB_ListIssuersForExpirationDate ''/ct'' sample_bucket d' = (([], None), d')"
proof -
  have "isl (NewExpDate (base_name (abs_path [''ct''])))" by code_simp
  then have q: "quiet_root [''ct'']"
    by (auto simp: quiet_root_def plain_elem_def has_suffix_def suffix_def base_name_def
        strings_split_fresh isl_def)
  have s: "fst (LDB_StoreCertificatePEM ''/ct'' (Serial [1]) sample_bucket (NewIssuerFromString ''i'') ''pem'' empty_disk) = None"
    by code_simp
  have e: "\<not> IsExpiredAt sample_bucket (day_start (utc 0))" by code_simp
  have k: "disk_key_ok [''ct''] (cert_key sample_bucket (NewIssuerFromString ''i'') (Serial [1]))"
    and f: "no_pem_name (iss_id (NewIssuerFromString ''i''))" and d: "pem_free empty_disk"
    using ExpDate_ID_name(1) [OF parsed_exp_NewExpDate [OF NewExpDate_sample]]
    by (simp_all add: disk_key_ok_def plain_elem_def has_suffix_def suffix_def empty_disk_def)
  show ?thesis
    using Disk_lists_dates_only [OF q k parsed_exp_NewExpDate [OF NewExpDate_sample] f d _ e, of "''pem''"] s
    by (simp add: prod_eq_iff Let_def)
qed

end
