(* ===== verification/Telemetry.thy ===== *)
theory Telemetry
  imports Types
begin

text \<open>
  \<^verbatim>\<open>telemetry/telemetry.go\<close>: the dump of the metrics that the third-party package
  \<^verbatim>\<open>go-metrics\<close> gathers in memory. Its values and aggregates are type parameters and how they
  are printed is an argument; its maps are lists in the order of the visit. Locks are not modelled.
\<close>

section \<open>Flattening labels\<close>

record metric_label =
  lb_Name :: string
  lb_Value :: string

definition replacer :: "string \<Rightarrow> string" where
  "replacer s = map (\<lambda>c. if c = CHR '' '' \<or> c = CHR '':'' then CHR ''_'' else c) s"

fun flatten_loop :: "string \<Rightarrow> metric_label list \<Rightarrow> string" where
  "flatten_loop buf [] = buf"
| "flatten_loop buf (label # labels) = flatten_loop (buf @ replacer ''.'' @ replacer (lb_Value label)) labels"

definition flattenLabels :: "string \<Rightarrow> metric_label list \<Rightarrow> string" where
  "flattenLabels name labels = flatten_loop name labels"

text \<open>The labels bring no blank and no colon into the text; those of the name stay.\<close>

lemma flattenLabels_eq: "flattenLabels name labels = name @ concat (map (\<lambda>l. CHR ''.'' # replacer (lb_Value l)) labels)"
proof -
  have "flatten_loop buf labels = buf @ concat (map (\<lambda>l. CHR ''.'' # replacer (lb_Value l)) labels)" for buf
    by (induction labels arbitrary: buf) (simp_all add: replacer_def)
  then show ?thesis by (simp add: flattenLabels_def)
qed

lemma flattenLabels_separators:
  "c \<in> {CHR '' '', CHR '':''} \<Longrightarrow> c \<in> set (flattenLabels name labels) \<longleftrightarrow> c \<in> set name"
  by (auto simp: flattenLabels_eq replacer_def)

section \<open>Dumping\<close>

record 'v metric =
  m_Name :: string
  m_Labels :: "metric_label list"
  m_Value :: 'v

record ('v, 'a) interval_metrics =
  iv_Interval :: gotime
  iv_Gauges :: "'v metric list"
  iv_Points :: "(string \<times> 'v list) list"
  iv_Counters :: "'a metric list"
  iv_Samples :: "'a metric list"

text \<open>How \<^verbatim>\<open>fmt\<close> prints an instant, a value (with three decimals) and an aggregate.\<close>

record ('v, 'a) metric_printers =
  show_interval :: "gotime \<Rightarrow> string"
  show_value :: "'v \<Rightarrow> string"
  show_aggregate :: "'a \<Rightarrow> string"

definition stat_line :: "string \<Rightarrow> char \<Rightarrow> string \<Rightarrow> string \<Rightarrow> string" where
  "stat_line interval kind name val =
     ''['' @ interval @ '']['' @ [kind] @ ''] '' @ [CHR 0x27] @ name @ [CHR 0x27] @ '': '' @ val @ [CHR 0x0A]"

definition dump_interval :: "('v, 'a) metric_printers \<Rightarrow> ('v, 'a) interval_metrics \<Rightarrow> string" where
  "dump_interval pr intv =
     (let at = show_interval pr (iv_Interval intv)
      in concat (map (\<lambda>g. stat_line at CHR ''G'' (flattenLabels (m_Name g) (m_Labels g)) (show_value pr (m_Value g))) (iv_Gauges intv))
       @ concat (map (\<lambda>(name, vals). concat (map (\<lambda>v. stat_line at CHR ''P'' name (show_value pr v)) vals)) (iv_Points intv))
       @ concat (map (\<lambda>a. stat_line at CHR ''C'' (flattenLabels (m_Name a) (m_Labels a)) (show_aggregate pr (m_Value a))) (iv_Counters intv))
       @ concat (map (\<lambda>a. stat_line at CHR ''S'' (flattenLabels (m_Name a) (m_Labels a)) (show_aggregate pr (m_Value a))) (iv_Samples intv)))"

text \<open>The text that one dump writes.\<close>

definition dumpStats :: "('v, 'a) metric_printers \<Rightarrow> ('v, 'a) interval_metrics list \<Rightarrow> string" where
  "dumpStats pr data = concat (map (\<lambda>j. dump_interval pr (data ! j)) [0..<length data - 1])"

lemma dumpStats_skips_last: "dumpStats pr (data @ [current]) = concat (map (dump_interval pr) data)"
proof -
  have "map (\<lambda>j. dump_interval pr ((data @ [current]) ! j)) [0..<length data] = map (dump_interval pr) data"
    by (rule nth_equalityI) (simp_all add: nth_append)
  then show ?thesis by (simp add: dumpStats_def)
qed

section \<open>The dumper\<close>

text \<open>
  The channel \<^verbatim>\<open>stopCh\<close> and the ticker. \<^verbatim>\<open>time.NewTicker\<close> panics for a period that is
  not positive, and closing a closed channel panics.
\<close>

record MetricsDumper =
  stop_closed :: bool
  ticker_on :: bool

definition NewMetricsDumper :: "duration \<Rightarrow> MetricsDumper outcome" where
  "NewMetricsDumper period =
     (if period \<le> 0 then Panic ''non-positive interval for NewTicker''
      else Done \<lparr>stop_closed = False, ticker_on = True\<rparr>)"

definition MetricsDumper_Stop :: "MetricsDumper \<Rightarrow> MetricsDumper outcome" where
  "MetricsDumper_Stop d =
     (if stop_closed d then Panic ''close of closed channel''
      else Done \<lparr>stop_closed = True, ticker_on = False\<rparr>)"

text \<open>What the goroutine is woken by, with the data at each tick, and the texts it writes.\<close>

datatype 'd dumper_event = TickerFires 'd | StopClosed

fun dumper_run :: "('v, 'a) metric_printers \<Rightarrow> ('v, 'a) interval_metrics list dumper_event list \<Rightarrow> string list" where
  "dumper_run pr [] = []"
| "dumper_run pr (TickerFires data # events) = dumpStats pr data # dumper_run pr events"
| "dumper_run pr (StopClosed # events) = []"

lemma dumper_run_stops: "dumper_run pr (es @ StopClosed # fs) = dumper_run pr es"
  by (induction pr es rule: dumper_run.induct) simp_all

end
