(* ===== verification/Engine.thy ===== *)
theory Engine
  imports Log_Json Config Redis_Model Local_Disk Filesystem_Database Telemetry
begin

text \<open>
  \<^verbatim>\<open>engine/engine.go\<close>: what the programs are put together from, as the configuration says: the
  Redis cache, a backend on disk or one that stores nothing, the database over both, and the sink
  of the metrics.
\<close>

section \<open>Storage\<close>

text \<open>
  Both backends run on the disk, which the one that stores nothing leaves alone. \<open>dial\<close> makes the
  Redis client for a host and a timeout.
\<close>

definition GetConfiguredStorage ::
    "(string \<Rightarrow> duration \<Rightarrow> 's redis_client) \<Rightarrow> log_json \<Rightarrow> 'g gcache \<Rightarrow> url_parser \<Rightarrow> 'g \<Rightarrow> CTConfig \<Rightarrow> disk \<Rightarrow> 's
      \<Rightarrow> ((disk, 's, 'g) fs_deps \<times> (disk, 's, 'g) FilesystemDatabase) outcome" where
  "GetConfiguredStorage dial js gc url_Parse emptyCache ctconfig d s =
     (let hasLocalDiskConfig = 0 < length (CertPath ctconfig)
      in case ParseDuration (RedisTimeout ctconfig) of
           Inl err \<Rightarrow> Panic ''Could not parse RedisTimeout''
         | Inr redisTimeoutDuration \<Rightarrow>
             (let r = dial (RedisHost ctconfig) redisTimeoutDuration
              in case NewRedisCache r s of
                   (Some err, s) \<Rightarrow> Panic ''Unable to configure Redis cache''
                 | (None, s) \<Rightarrow>
                     (let backend = (if hasLocalDiskConfig then local_disk_backend js (CertPath ctconfig) else noop_backend)
                      in case NewFilesystemDatabase d s emptyCache of
                           (storageDB, Some err) \<Rightarrow> Panic ''Unable to construct cache-only DB''
                         | (storageDB, None) \<Rightarrow>
                             Done (\<lparr>dep_backend = backend, dep_cache = redis_cache js r, dep_known = gc, dep_url = url_Parse\<rparr>,
                                   storageDB))))"

section \<open>Telemetry\<close>

text \<open>The constructors of the third-party package that the code calls.\<close>

record 'k metrics_library =
  NewStatsdSink :: "string \<Rightarrow> 'k res"
  NewInmemSink :: "duration \<Rightarrow> duration \<Rightarrow> 'k outcome"
  NewGlobal :: "string \<Rightarrow> 'k \<Rightarrow> go_error option"

definition PrepareTelemetry ::
    "'k metrics_library \<Rightarrow> string \<Rightarrow> CTConfig \<Rightarrow> ('k \<times> MetricsDumper option) outcome" where
  "PrepareTelemetry lib utilName ctconfig =
     (if 1 < StatsDPort ctconfig \<and> 0 < length (StatsDHost ctconfig)
      then (case NewStatsdSink lib (StatsDHost ctconfig @ '':'' @ dec_of_int (StatsDPort ctconfig)) of
              Inl err \<Rightarrow> Panic ''NewStatsdSink''
            | Inr metricsSink \<Rightarrow>
                (case NewGlobal lib utilName metricsSink of
                   Some err \<Rightarrow> Panic ''NewGlobal''
                 | None \<Rightarrow> Done (metricsSink, None)))
      else (case ParseDuration (StatsRefreshPeriod ctconfig) of
              Inl err \<Rightarrow> Panic ''Could not parse StatsRefreshPeriod''
            | Inr infoDumpPeriod \<Rightarrow>
                outcome_bind (NewInmemSink lib infoDumpPeriod (sint (5 * word_of_int infoDumpPeriod :: 64 word)))
                  (\<lambda>metricsSink.
                    outcome_bind (NewMetricsDumper infoDumpPeriod) (\<lambda>dumper.
                      case NewGlobal lib utilName metricsSink of
                        Some err \<Rightarrow> Panic ''NewGlobal''
                      | None \<Rightarrow> Done (metricsSink, Some dumper)))))"

section \<open>Properties\<close>

lemma GetConfiguredStorage_Done:
  assumes "GetConfiguredStorage dial js gc url_Parse g cfg d s = Done (deps, db)"
  obtains t where "ParseDuration (RedisTimeout cfg) = Inr t" and "fst (NewRedisCache (dial (RedisHost cfg) t) s) = None"
    and "dep_cache deps = redis_cache js (dial (RedisHost cfg) t)"
    and "dep_backend deps = (if CertPath cfg = [] then noop_backend else local_disk_backend js (CertPath cfg))"
    and "fs_backend db = d" and "extCache db = snd (NewRedisCache (dial (RedisHost cfg) t) s)"
  using assms
  by (cases "NewRedisCache (dial (RedisHost cfg) (projr (ParseDuration (RedisTimeout cfg)))) s")
    (auto simp: GetConfiguredStorage_def Let_def NewFilesystemDatabase_def split: sum.splits option.splits)

lemma SaveLogState_redis:
  assumes "SaveLogState deps l db = Done (er, db')"
  shows "sb_StoreLogState (dep_backend deps) l (fs_backend db) = (er, fs_backend db')"
  using assms by (cases "rc_StoreLogState (dep_cache deps) l (extCache db)") (auto simp: SaveLogState_def split: prod.splits)

text \<open>
  C33. After the cache has lost the state of a log, a new process resumes where the last one saved,
  if the configuration names a directory for certificates, and starts the log over from its first
  entry, without an error, if it names none.
\<close>

theorem Restart_without_cache:
  assumes conf: "GetConfiguredStorage dial js gc url_Parse g cfg d s = Done (deps, db)"
    and path: "CertPath cfg = [] \<or> CertPath cfg = abs_path comps \<and> list_all plain_elem comps"
    and save: "SaveLogState deps l db = Done (None, db1)" and url: "host @ path = ShortURL l" "ShortURL l \<noteq> []"
    and codec: "codec_laws js" "json_state l"
    and faults: "disk_faults d = no_faults"
    and restart: "GetConfiguredStorage dial js gc url_Parse g cfg (fs_backend db1) s2 = Done (deps2, db2)"
    and lost: "rc_LoadLogState (dep_cache deps2) (ShortURL l) (extCache db2) = Done ((None, er), c)"
  shows "GetLogState deps2 host path db2
    = Done ((if CertPath cfg = [] then blank_log (ShortURL l) else l, None), db2\<lparr>extCache := c\<rparr>)"
proof -
  have b: "dep_backend deps = (if CertPath cfg = [] then noop_backend else local_disk_backend js (CertPath cfg))"
    "dep_backend deps2 = dep_backend deps" "fs_backend db = d" "fs_backend db2 = fs_backend db1"
    using GetConfiguredStorage_Done [OF conf] GetConfiguredStorage_Done [OF restart] by metis+
  note st = SaveLogState_redis [OF save]
  have "sb_LoadLogState (dep_backend deps2) (ShortURL l) (fs_backend db1)
    = (if CertPath cfg = [] then ((None, Some noopLoadError), fs_backend db1) else ((Some l, None), fs_backend db1))"
  proof (cases "CertPath cfg = []")
    case True
    then show ?thesis by (simp add: b noop_backend_def Noop_LoadLogState_def)
  next
    case False
    then have p: "CertPath cfg = abs_path comps" "list_all plain_elem comps" using path by auto
    have "LDB_StoreLogState js (abs_path comps) l d = (None, fs_backend db1)"
      using st p by (simp add: b local_disk_backend_def)
    from LDB_StoreLogState_then_Load [OF p(2) url(2) this] codec faults
    show ?thesis using p by (auto simp: b local_disk_backend_def no_faults_def codec_laws_def)
  qed
  then show ?thesis using lost by (simp add: GetLogState_def Let_def url b(4))
qed

definition sample_config :: CTConfig where
  "sample_config = NewCTConfig\<lparr>CertPath := ''/ct'', RedisTimeout := ''5s''\<rparr>"

text \<open>A Redis server that holds nothing, at the start and after its loss.\<close>

definition empty_redis :: redis_db where
  "empty_redis = \<lparr>keyspace = [], deadline = [], server_clock = (\<lambda>n. utc 0)\<rparr>"

abbreviation configured :: "disk \<Rightarrow> ((disk, redis_db, (string, nat) gomap) fs_deps
    \<times> (disk, redis_db, (string, nat) gomap) FilesystemDatabase) outcome" where
  "configured d \<equiv> GetConfiguredStorage (\<lambda>host t. redis_mem) comma_json map_gcache sample_url [] sample_config d empty_redis"

definition sample_log :: CertificateLog where
  "sample_log = (blank_log ''log.example/x'')\<lparr>MaxEntry := 7\<rparr>"

theorem Restart_without_cache_witness:
  "\<exists>deps db db1 deps2 db2 c. configured empty_disk = Done (deps, db) \<and> SaveLogState deps sample_log db = Done (None, db1)
    \<and> configured (fs_backend db1) = Done (deps2, db2)
    \<and> GetLogState deps2 ''log.example'' ''/x'' db2 = Done ((sample_log, None), db2\<lparr>extCache := c\<rparr>)"
proof -
  have t: "ParseDuration ''5s'' = Inr (5 * Second)"
    by (simp add: ParseDuration_eval)
  have p: "purge empty_redis = empty_redis" by (simp add: purge_def empty_redis_def)
  define deps :: "(disk, redis_db, (string, nat) gomap) fs_deps" where
    "deps = \<lparr>dep_backend = local_disk_backend comma_json ''/ct'', dep_cache = redis_cache comma_json redis_mem,
       dep_known = map_gcache, dep_url = sample_url\<rparr>"
  define db :: "disk \<Rightarrow> (disk, redis_db, (string, nat) gomap) FilesystemDatabase" where
    "db d = fst (NewFilesystemDatabase d empty_redis [])" for d
  have conf: "configured d = Done (deps, db d)" for d
    by (simp add: GetConfiguredStorage_def sample_config_def t NewRedisCache_def MemoryPolicyCorrect_def redis_mem_def p
        NewFilesystemDatabase_def deps_def db_def)
  have "fst (LDB_StoreLogState comma_json ''/ct'' sample_log empty_disk) = None" by code_simp
  then obtain d' where "LDB_StoreLogState comma_json ''/ct'' sample_log empty_disk = (None, d')"
    by (metis prod.collapse)
  moreover have "json_Marshal comma_json sample_log = Inr (show_log sample_log)" by (simp add: comma_json_def)
  ultimately have "\<exists>db1. SaveLogState deps sample_log (db empty_disk) = Done (None, db1)"
    by (simp add: SaveLogState_def deps_def db_def NewFilesystemDatabase_def redis_cache_def Redis_StoreLogState_def
        redis_mem_def local_disk_backend_def)
  then obtain db1 where s: "SaveLogState deps sample_log (db empty_disk) = Done (None, db1)" ..
  have lost: "rc_LoadLogState (dep_cache deps) (ShortURL sample_log) (extCache (db d)) = Done ((None, Some redis_nil), empty_redis)" for d
    by (simp add: deps_def db_def NewFilesystemDatabase_def redis_cache_def Redis_LoadLogState_def redis_mem_def p)
      (simp add: empty_redis_def)
  have l: "ShortURL sample_log = ''log.example'' @ ''/x''" "CertPath sample_config = ''/ct''"
    by (simp_all add: sample_log_def blank_log_def sample_config_def)
  have j: "json_state sample_log"
    unfolding json_state_def json_time_def sample_log_def blank_log_def by code_simp
  have "GetLogState deps ''log.example'' ''/x'' (db (fs_backend db1)) = Done ((sample_log, None), (db (fs_backend db1))\<lparr>extCache := empty_redis\<rparr>)"
    using Restart_without_cache [OF conf _ s _ _ comma_json_laws j _ conf lost, of "[''ct'']" "''log.example''" "''/x''"] l
    by (simp add: plain_elem_def empty_disk_def)
  then show ?thesis using conf s by blast
qed

end
