(* ===== verification/Fetch_Process.thy ===== *)
theory Fetch_Process
  imports Sync_Progress Engine
begin

text \<open>
  The process of \<^verbatim>\<open>ct-fetch.go\<close>: \<^verbatim>\<open>main\<close> starts a pool of insert threads and one
  download thread per log, waits for the downloads, closes the channel, waits for the pool and
  exits. A download thread runs the downloads of \<open>Log_Sync\<close> on the channel and the database it
  shares with the others.
\<close>

section \<open>The state\<close>

record CtLogEntry =
  cle_LogEntry :: LogEntry
  cle_LogURL :: string

text \<open>
  The goroutine of an insert thread adds itself to \<^verbatim>\<open>ThreadWaitGroup\<close> when it first runs, and
  is \<open>Spawned\<close> before; the wait group counts the threads that are \<open>Ranging\<close> or \<open>Inserting\<close>.
\<close>

datatype insert_thread = Spawned | Ranging | Inserting CtLogEntry | Finished

text \<open>A download thread, which \<^verbatim>\<open>DownloaderWaitGroup\<close> counts until it has left its loop.\<close>

datatype 'raw log_thread = BeforeSync | Downloading LogWorker "'raw download" | Polling | LeftLoop

text \<open>
  \<^verbatim>\<open>main\<close> waits for the downloads, then inside \<^verbatim>\<open>Stop\<close> for the display, then for
  the insert threads.
\<close>

datatype main_pc = AwaitDownloaders | AwaitDisplay | AwaitThreads | Exited

record ('raw, 'd) process =
  pr_logs :: "(string \<times> 'raw log_thread) list"
  pr_threads :: "insert_thread list"
  pr_chan :: "CtLogEntry list"
  pr_closed :: bool
  pr_cancelled :: bool
  pr_db :: 'd
  pr_lastUpdate :: gotime
  pr_main :: main_pc

text \<open>
  What the process runs on: the answers the services may give, which change as logs grow, and the
  contents of each log.
\<close>

record ('raw, 'd) fetch_env =
  fe_lib :: "'raw ct_library"
  fe_cfg :: CTConfig
  fe_db :: "'d CertDatabase"
  fe_zone :: int
  fe_services :: "log_services \<Rightarrow> bool"
  fe_log :: "string \<Rightarrow> nat \<Rightarrow> 'raw"

definition log_env :: "('raw, 'd) fetch_env \<Rightarrow> string \<Rightarrow> ('raw, 'd) sync_env" where
  "log_env fe url =
     \<lparr>en_lib = fe_lib fe, en_cfg = fe_cfg fe, en_db = fe_db fe, en_zone = fe_zone fe, en_log = fe_log fe url\<rparr>"

section \<open>Setting up\<close>

definition NewLogSyncEngine :: "CTConfig \<Rightarrow> 'd \<Rightarrow> ('raw, 'd) process outcome" where
  "NewLogSyncEngine ctconfig db =
     (case ParseDuration (OutputRefreshPeriod ctconfig) of
        Inl err \<Rightarrow> Panic ''OutputRefreshPeriod''
      | Inr refreshDur \<Rightarrow>
          Done \<lparr>pr_logs = [], pr_threads = [], pr_chan = [], pr_closed = False, pr_cancelled = False, pr_db = db,
                pr_lastUpdate = zero_time, pr_main = AwaitDownloaders\<rparr>)"

definition StartDatabaseThreads :: "CTConfig \<Rightarrow> ('raw, 'd) process \<Rightarrow> ('raw, 'd) process" where
  "StartDatabaseThreads ctconfig p = p\<lparr>pr_threads := pr_threads p @ replicate (nat (NumThreads ctconfig)) Spawned\<rparr>"

definition start_downloads :: "string list \<Rightarrow> ('raw, 'd) process \<Rightarrow> ('raw, 'd) process" where
  "start_downloads logUrls p = p\<lparr>pr_logs := map (\<lambda>u. (u, BeforeSync)) logUrls\<rparr>"

definition fetch_start :: "CTConfig \<Rightarrow> string list \<Rightarrow> 'd \<Rightarrow> ('raw, 'd) process outcome" where
  "fetch_start ctconfig logUrls db =
     outcome_bind (NewLogSyncEngine ctconfig db)
       (\<lambda>p. Done (start_downloads logUrls (StartDatabaseThreads ctconfig p)))"

text \<open>The period of the health ticker of an insert thread, for a random number below 15000.\<close>

definition healthStatusDuration :: "int \<Rightarrow> duration" where
  "healthStatusDuration healthStatusJitter =
     (case ParseDuration ''15s'' of Inl err \<Rightarrow> 0 | Inr healthStatusPeriod \<Rightarrow> healthStatusPeriod)
     + healthStatusJitter * Millisecond"

text \<open>The time between two downloads; the normally distributed number of seconds is an argument.\<close>

definition sleepTime :: "int \<Rightarrow> duration \<Rightarrow> duration" where
  "sleepTime sampledSeconds pollingDelayMean =
     sint (word_of_int sampledSeconds * word_of_int Second + word_of_int pollingDelayMean :: 64 word)"

definition ApproximateRemainingEntries :: "('raw, 'd) process \<Rightarrow> nat" where
  "ApproximateRemainingEntries p = length (pr_chan p)"

definition ApproximateMostRecentUpdateTimestamp :: "('raw, 'd) process \<Rightarrow> gotime" where
  "ApproximateMostRecentUpdateTimestamp p = pr_lastUpdate p"

text \<open>
  \<^verbatim>\<open>Stop\<close> closes the channel, cancels the context of the display, and then waits for the
  display; the wait is the step \<open>MainDisplayed\<close> below.
\<close>

definition LogSyncEngine_Stop :: "('raw, 'd) process \<Rightarrow> ('raw, 'd) process outcome" where
  "LogSyncEngine_Stop p =
     (if pr_closed p then Panic ''close of closed channel'' else Done (p\<lparr>pr_closed := True, pr_cancelled := True\<rparr>))"

text \<open>An error of the database is logged.\<close>

definition LogSyncEngine_Cleanup :: "'d CertDatabase \<Rightarrow> ('raw, 'd) process \<Rightarrow> ('raw, 'd) process" where
  "LogSyncEngine_Cleanup cd p = (case cd_Cleanup cd (pr_db p) of (err, db) \<Rightarrow> p\<lparr>pr_db := db\<rparr>)"

section \<open>Steps\<close>

text \<open>Where a download thread is after \<^verbatim>\<open>SyncLog\<close> has returned, and after a worker was made.\<close>

definition after_sync :: "CTConfig \<Rightarrow> 'raw log_thread" where
  "after_sync ctconfig = (if RunForever ctconfig then Polling else LeftLoop)"

definition SyncLog_begin :: "CTConfig \<Rightarrow> LogWorker res \<Rightarrow> 'raw log_thread" where
  "SyncLog_begin ctconfig r =
     (case r of
        Inl err \<Rightarrow> after_sync ctconfig
      | Inr worker \<Rightarrow>
          (if lw_StartPos worker = lw_EndPos worker then after_sync ctconfig
           else Downloading worker (dl_start worker)))"

text \<open>A download as \<open>Log_Sync\<close> sees it, and what its steps leave behind in the process.\<close>

definition log_view :: "LogWorker \<Rightarrow> 'raw download \<Rightarrow> ('raw, 'd) process \<Rightarrow> ('raw, 'd) sync" where
  "log_view lw d p =
     \<lparr>sy_lw = lw, sy_dl = d, sy_chan = map cle_LogEntry (pr_chan p), sy_busy = [], sy_db = pr_db p,
      sy_lastUpdate = pr_lastUpdate p, sy_done = False\<rparr>"

definition log_back :: "CTConfig \<Rightarrow> nat \<Rightarrow> string \<Rightarrow> ('raw, 'd) sync \<Rightarrow> ('raw, 'd) process \<Rightarrow> ('raw, 'd) process" where
  "log_back ctconfig k url v p =
     p\<lparr>pr_logs := (pr_logs p)[k := (url, if sy_done v then after_sync ctconfig else Downloading (sy_lw v) (sy_dl v))],
       pr_chan := pr_chan p
         @ map (\<lambda>e. \<lparr>cle_LogEntry = e, cle_LogURL = lw_LogURL (sy_lw v)\<rparr>) (drop (length (pr_chan p)) (sy_chan v)),
       pr_db := sy_db v\<rparr>"

fun download_label :: "sync_label \<Rightarrow> bool" where
  "download_label Take = False"
| "download_label (Insert e now) = False"
| "download_label l = True"

definition threads_working :: "insert_thread list \<Rightarrow> bool" where
  "threads_working ts \<longleftrightarrow> list_ex (\<lambda>t. t \<noteq> Spawned \<and> t \<noteq> Finished) ts"

text \<open>
  The display was made with \<^verbatim>\<open>ThreadWaitGroup\<close>: its \<^verbatim>\<open>Wait\<close> returns when that group is
  empty and the bars have quit, which they do once the context is cancelled. The label of an insert
  shows the time at which the filter looked at the clock.
\<close>

datatype fetch_label =
    ThreadStarts nat | ThreadTakes nat CtLogEntry | ThreadInserts nat CtLogEntry gotime | ThreadLeaves nat
  | LogBegins nat | LogSteps nat sync_label | LogWakes nat | LogSignalled nat
  | MainStops | MainDisplayed | MainExits

inductive fetch_step ::
    "('raw, 'd) fetch_env \<Rightarrow> fetch_label \<Rightarrow> ('raw, 'd) process \<Rightarrow> ('raw, 'd) process \<Rightarrow> bool" for fe where
  thread_starts: "\<lbrakk>pr_main p \<noteq> Exited; i < length (pr_threads p); pr_threads p ! i = Spawned\<rbrakk>
    \<Longrightarrow> fetch_step fe (ThreadStarts i) p (p\<lparr>pr_threads := (pr_threads p)[i := Ranging]\<rparr>)"
| thread_takes: "\<lbrakk>pr_main p \<noteq> Exited; i < length (pr_threads p); pr_threads p ! i = Ranging; pr_chan p = e # q\<rbrakk>
    \<Longrightarrow> fetch_step fe (ThreadTakes i e) p (p\<lparr>pr_threads := (pr_threads p)[i := Inserting e], pr_chan := q\<rparr>)"
| thread_inserts: "\<lbrakk>pr_main p \<noteq> Exited; i < length (pr_threads p); pr_threads p ! i = Inserting e;
      insert_entry (fe_lib fe) (fe_cfg fe) (fe_db fe) now health (cle_LogURL e) (cle_LogEntry e) (pr_db p, pr_lastUpdate p)
        = Done (db, upd)\<rbrakk>
    \<Longrightarrow> fetch_step fe (ThreadInserts i e now) p
          (p\<lparr>pr_threads := (pr_threads p)[i := Ranging], pr_db := db, pr_lastUpdate := upd\<rparr>)"
| thread_leaves: "\<lbrakk>pr_main p \<noteq> Exited; i < length (pr_threads p); pr_threads p ! i = Ranging; pr_chan p = []; pr_closed p\<rbrakk>
    \<Longrightarrow> fetch_step fe (ThreadLeaves i) p (p\<lparr>pr_threads := (pr_threads p)[i := Finished]\<rparr>)"
| log_begins: "\<lbrakk>pr_main p \<noteq> Exited; k < length (pr_logs p); pr_logs p ! k = (url, BeforeSync); fe_services fe ls;
      NewLogWorker ls (fe_cfg fe) (fe_db fe) url (pr_db p) = Done (r, db)\<rbrakk>
    \<Longrightarrow> fetch_step fe (LogBegins k) p (p\<lparr>pr_logs := (pr_logs p)[k := (url, SyncLog_begin (fe_cfg fe) r)], pr_db := db\<rparr>)"
| log_steps: "\<lbrakk>pr_main p \<noteq> Exited; k < length (pr_logs p); pr_logs p ! k = (url, Downloading lw d);
      download_label l; sync_step (log_env fe url) l (log_view lw d p) v\<rbrakk>
    \<Longrightarrow> fetch_step fe (LogSteps k l) p (log_back (fe_cfg fe) k url v p)"
| log_wakes: "\<lbrakk>pr_main p \<noteq> Exited; k < length (pr_logs p); pr_logs p ! k = (url, Polling)\<rbrakk>
    \<Longrightarrow> fetch_step fe (LogWakes k) p (p\<lparr>pr_logs := (pr_logs p)[k := (url, BeforeSync)]\<rparr>)"
| log_signalled: "\<lbrakk>pr_main p \<noteq> Exited; k < length (pr_logs p); pr_logs p ! k = (url, Polling)\<rbrakk>
    \<Longrightarrow> fetch_step fe (LogSignalled k) p (p\<lparr>pr_logs := (pr_logs p)[k := (url, LeftLoop)]\<rparr>)"
| main_stops: "\<lbrakk>pr_main p = AwaitDownloaders; \<forall>(url, t) \<in> set (pr_logs p). t = LeftLoop; LogSyncEngine_Stop p = Done p'\<rbrakk>
    \<Longrightarrow> fetch_step fe MainStops p (p'\<lparr>pr_main := AwaitDisplay\<rparr>)"
| main_displayed: "\<lbrakk>pr_main p = AwaitDisplay; pr_cancelled p; \<not> threads_working (pr_threads p)\<rbrakk>
    \<Longrightarrow> fetch_step fe MainDisplayed p (p\<lparr>pr_main := AwaitThreads\<rparr>)"
| main_exits: "\<lbrakk>pr_main p = AwaitThreads; \<not> threads_working (pr_threads p)\<rbrakk>
    \<Longrightarrow> fetch_step fe MainExits p ((LogSyncEngine_Cleanup (fe_db fe) p)\<lparr>pr_main := Exited\<rparr>)"

text \<open>What steps do to the process, and when \<^verbatim>\<open>main\<close> moves.\<close>

lemmas process_effects = log_back_def LogSyncEngine_Stop_def LogSyncEngine_Cleanup_def

inductive_simps MainStops_simps: "fetch_step fe MainStops p p'"
inductive_simps MainDisplayed_simps: "fetch_step fe MainDisplayed p p'"
inductive_simps MainExits_simps: "fetch_step fe MainExits p p'"

inductive fetch_run ::
    "('raw, 'd) fetch_env \<Rightarrow> ('raw, 'd) process \<Rightarrow> fetch_label list \<Rightarrow> ('raw, 'd) process \<Rightarrow> bool" for fe p0 where
  start: "fetch_run fe p0 [] p0"
| step: "fetch_run fe p0 ls p \<Longrightarrow> fetch_step fe l p p' \<Longrightarrow> fetch_run fe p0 (ls @ [l]) p'"

text \<open>The insertions of a run.\<close>

fun thread_insertion :: "fetch_label \<Rightarrow> (LogEntry \<times> gotime) set" where
  "thread_insertion (ThreadInserts i e now) = {(cle_LogEntry e, now)}"
| "thread_insertion l = {}"

definition thread_insertions :: "fetch_label list \<Rightarrow> (LogEntry \<times> gotime) set" where
  "thread_insertions ls = (\<Union>l \<in> set ls. thread_insertion l)"

lemma thread_insertions_simps [simp]:
  "thread_insertions [] = {}" "thread_insertions (l # ls) = thread_insertion l \<union> thread_insertions ls"
  "thread_insertions (ls @ ls') = thread_insertions ls \<union> thread_insertions ls'"
  by (simp_all add: thread_insertions_def)

section \<open>main\<close>

text \<open>
  What \<^verbatim>\<open>main\<close> sets up; without a log URL it prints the usage and exits with status 2, which
  is \<open>None\<close>. \<open>parse\<close> gives the text of a parsed URL.
\<close>

definition fetch_main ::
    "(string \<Rightarrow> duration \<Rightarrow> 's redis_client) \<Rightarrow> log_json \<Rightarrow> 'g gcache \<Rightarrow> url_parser \<Rightarrow> 'g \<Rightarrow> 'k metrics_library
      \<Rightarrow> (string \<Rightarrow> string res) \<Rightarrow> CTConfig \<Rightarrow> disk \<Rightarrow> 's
      \<Rightarrow> ((disk, 's, 'g) fs_deps \<times> duration \<times> ('raw, (disk, 's, 'g) FilesystemDatabase) process option) outcome" where
  "fetch_main dial js gc url_Parse emptyCache lib parse ctconfig d s =
     outcome_bind (GetConfiguredStorage dial js gc url_Parse emptyCache ctconfig d s) (\<lambda>(deps, storageDB).
     outcome_bind (PrepareTelemetry lib ''ct-fetch'' ctconfig) (\<lambda>_.
       case ParseDuration (PollingDelayMean ctconfig) of
         Inl err \<Rightarrow> Panic ''Could not parse PollingDelayMean''
       | Inr pollingDelayMean \<Rightarrow>
           outcome_bind (main_logUrls parse ctconfig) (\<lambda>logUrls.
             if 0 < length logUrls
             then outcome_bind (fetch_start ctconfig logUrls storageDB) (\<lambda>p. Done (deps, pollingDelayMean, Some p))
             else Done (deps, pollingDelayMean, None))))"

end
