(* ===== verification/Sync_Properties.thy ===== *)
theory Sync_Properties
  imports Sync_Progress
begin

text \<open>
  What a synchronisation achieves, on the filesystem database over the in-memory cache and backend.
\<close>

section \<open>The setting\<close>

text \<open>
  A worker about to run: its positions are in order and below \<open>2 ^ 63\<close>, its log is not named like
  a key of the database, and the entries of the log have times and certificates within the bounds of
  the encodings.
\<close>

definition sync_ready ::
    "(('raw, 'g mock_db) sync_env \<Rightarrow> log_json \<Rightarrow> 'g gcache \<Rightarrow> ('g \<Rightarrow> string \<Rightarrow> nat option)
      \<Rightarrow> (string list \<Rightarrow> string list) \<Rightarrow> url_parser \<Rightarrow> LogWorker \<Rightarrow> 'g mock_db \<Rightarrow> bool)" where
  "sync_ready env js gc held ord url_Parse lw db \<longleftrightarrow>
     en_db env = filesystem_certdb (mock_deps js ord gc url_Parse) \<and> mock_inv js gc held db
     \<and> lw_StartPos lw \<le> lw_EndPos lw \<and> unat (lw_EndPos lw) < 2 ^ 63
     \<and> log_key (url_of lw) \<and> json_time (LastEntryTime (lw_LogState lw)) \<and> log_ok env"

lemma ready_inv:
  assumes "sync_ready env js gc held ord url_Parse lw db" and "sync_run env (sync_start lw db) ls s"
  shows "sync_inv (mock_inv js gc held) (saved_log js) stored_text env lw db (insertions ls) s"
  using mock_certdb.sync_inv_run [OF assms(2), of js gc held ord url_Parse] assms(1)
  by (simp add: sync_ready_def)

section \<open>An example\<close>

text \<open>A log whose entries all hold the sample certificate, issued by itself.\<close>

definition sample_entry :: LogEntry where
  "sample_entry = \<lparr>le_Index = 0, le_EntryType = X509LogEntryType, le_Timestamp = 1000,
     le_X509Cert = Some sample_cert, le_Precert = None, le_Chain = [[1]]\<rparr>"

definition sample_lib :: "unit ct_library" where
  "sample_lib = \<lparr>ct_LogEntryFromLeaf = (\<lambda>i raw. (sample_entry, None)), x509_ParseCertificate = (\<lambda>b. Inr sample_cert)\<rparr>"

definition sample_sync_env :: "(unit, (string, nat) gomap mock_db) sync_env" where
  "sample_sync_env =
     \<lparr>en_lib = sample_lib, en_cfg = NewCTConfig\<lparr>LogExpiredEntries := True\<rparr>,
      en_db = filesystem_certdb (mock_deps comma_json rev map_gcache sample_url), en_zone = 0, en_log = (\<lambda>i. ())\<rparr>"

definition sample_worker :: LogWorker where
  "sample_worker = \<lparr>lw_LogURL = ''https://ct.example/log'', lw_LogState = blank_log ''ct.example/log'',
     lw_StartPos = 0, lw_EndPos = 2\<rparr>"

lemma sample_sync_entries:
  "entry_at sample_sync_env i = Some sample_entry" "wanted sample_sync_env sample_entry = Some (sample_cert, sample_cert)"
  "to_store sample_sync_env sample_entry now (sample_cert, sample_cert)" "worker_safe sample_sync_env sample_entry"
  by (simp_all add: entry_at_def sample_sync_env_def sample_lib_def wanted_def entry_certificate_def sample_entry_def
      to_store_def certIsFilteredOut_def sample_cert_def NewCTConfig_def worker_safe_def strings_split_fresh)

lemma sample_sync_time: "json_time (uint64ToTimestamp 0 1000)" "json_time zero_time" "json_time (utc 0)"
  by code_simp+

lemma sample_sync_ready:
  "sync_ready sample_sync_env comma_json map_gcache (\<lambda>g. gm_get g) rev sample_url sample_worker fresh_db"
  using sample_sync_entries sample_sync_time sample_cert_storable map_gcache_laws fresh_db_inv comma_json_laws
  by (auto simp: sync_ready_def mock_inv_def log_ok_def log_key_def issuer_key_def sample_worker_def blank_log_def)
    (auto simp: sample_sync_env_def sample_entry_def)

text \<open>
  The same with the configuration that expired entries are filtered out, the default, at a time
  before the certificate expires.
\<close>

lemma same_log:
  assumes "en_lib env' = en_lib env"
  shows "wanted env' = wanted env" and "en_log env' = en_log env \<Longrightarrow> entry_at env' = entry_at env"
proof -
  show "wanted env' = wanted env" unfolding wanted_def assms ..
  assume l: "en_log env' = en_log env"
  show "entry_at env' = entry_at env" unfolding entry_at_def assms l ..
qed

lemma other_cfg: "entry_at (env\<lparr>en_cfg := cfg\<rparr>) = entry_at env" "wanted (env\<lparr>en_cfg := cfg\<rparr>) = wanted env"
  by (rule same_log; simp)+

lemma sync_ready_cfg:
  "sync_ready (env\<lparr>en_cfg := cfg\<rparr>) js gc gget ord url_Parse lw db = sync_ready env js gc gget ord url_Parse lw db"
  by (simp add: sync_ready_def log_ok_def other_cfg)

definition default_sync_env :: "(unit, (string, nat) gomap mock_db) sync_env" where
  "default_sync_env = sample_sync_env\<lparr>en_cfg := NewCTConfig\<rparr>"

lemma sample_in_time:
  assumes "IssuerCNFilter cfg = []"
  shows "\<not> certIsFilteredOut cfg (utc 0) sample_cert"
proof -
  have "\<not> Before (NotAfter sample_cert) (utc 0)" by code_simp
  then show ?thesis using assms by (simp add: certIsFilteredOut_def strings_split_fresh) (simp add: sample_cert_def)
qed

lemma default_sync_entries:
  "entry_at default_sync_env i = Some sample_entry" "\<not> LogExpiredEntries (en_cfg default_sync_env)"
  "to_store default_sync_env sample_entry (utc 0) (sample_cert, sample_cert)"
  using sample_sync_entries(1,2) sample_in_time [of NewCTConfig]
  by (simp_all add: default_sync_env_def other_cfg to_store_def) (simp_all add: NewCTConfig_def)

lemma default_sync_ready:
  "sync_ready default_sync_env comma_json map_gcache (\<lambda>g. gm_get g) rev sample_url sample_worker fresh_db"
  unfolding default_sync_env_def sync_ready_cfg by (rule sample_sync_ready)

lemma default_wanted: "to_store default_sync_env sample_entry now cc \<Longrightarrow> cc = (sample_cert, sample_cert)"
  using sample_sync_entries(2) by (simp add: default_sync_env_def other_cfg to_store_def)

text \<open>It completes, with every look at the clock at one time.\<close>

lemma sample_completes_at:
  "\<exists>ls s. sync_run (sample_sync_env\<lparr>en_cfg := cfg\<rparr>) (sync_start sample_worker fresh_db) ls s
    \<and> list_all (\<lambda>l. productive l \<and> at_time t l) ls \<and> sy_done s \<and> sy_chan s = [] \<and> sy_busy s = []"
proof (rule mock_certdb.sync_completes [where js = comma_json and gc = map_gcache and held = "\<lambda>g. gm_get g"
      and ord = rev and url_Parse = sample_url and s = "sync_start sample_worker fresh_db" and ls = "[]"])
  show "\<forall>i e. entry_at (sample_sync_env\<lparr>en_cfg := cfg\<rparr>) i = Some e \<longrightarrow> worker_safe (sample_sync_env\<lparr>en_cfg := cfg\<rparr>) e"
    using sample_sync_entries by (simp add: other_cfg worker_safe_def)
qed (use sample_sync_ready [unfolded sync_ready_def] in
    \<open>simp_all add: sync_run.start log_ok_def other_cfg\<close>)

lemma sample_sync_completes:
  "\<exists>ls s. sync_run sample_sync_env (sync_start sample_worker fresh_db) ls s \<and> sy_done s"
  using sample_completes_at [of "en_cfg sample_sync_env"] by fastforce

lemma productive_uninterrupted: "productive l \<Longrightarrow> uninterrupted l"
  by (cases l) simp_all

lemma insertions_at: "list_all (at_time t) ls \<Longrightarrow> (e, now) \<in> insertions ls \<Longrightarrow> now = t"
  by (induction ls) (auto simp: insertion_iff)

lemma handled_text:
  assumes "handled env R has e" and "genuine env R had has"
    and "\<And>e now. (e, now) \<in> R \<Longrightarrow> now = t" and "to_store env e t cc" and "had (stored_key cc) = None"
    and "\<And>e now cc'. (e, now) \<in> R \<Longrightarrow> to_store env e now cc' \<Longrightarrow> fst cc' = fst cc"
  shows "has (stored_key cc) = Some (pem_EncodeToMemory ''CERTIFICATE'' (Raw (fst cc)))"
proof -
  have "has (stored_key cc) \<noteq> had (stored_key cc)" using assms(1,3-5) unfolding handled_def by metis
  then show ?thesis using assms(2,6) unfolding genuine_def by metis
qed

section \<open>Properties\<close>

text \<open>
  C4. No gap: while a log is synchronised, whatever the server, the workers, the ticker and the
  signals do, every readable entry of the log before the position that the run has saved is in the
  channel, in the hands of an insert worker, or dealt with: a worker has inserted it, and its
  certificate is stored, unless the filter dropped it at the time that the worker read from the
  clock or it has no readable issuer.
\<close>

theorem Sync_no_gap:
  assumes "sync_ready env js gc held ord url_Parse lw db" and "sync_run env (sync_start lw db) ls s"
    and "saved_log js (sy_db s) (url_of lw) = Some l" and "saved_log js db (url_of lw) \<noteq> Some l"
    and "unat (lw_StartPos lw) \<le> j" and "int j < MaxEntry l" and "entry_at env j = Some e"
  shows "e \<in> pending s \<or> handled env (insertions ls) (stored_text (sy_db s)) e"
proof -
  note I = ready_inv [OF assms(1,2), unfolded sync_inv_def]
  obtain i where "MaxEntry l = int i" "i \<le> at s"
    using I assms(3,4) by (auto simp: position_ok_def)
  then have "entry_in env (unat (lw_StartPos lw)) (at s) e" using assms(5-7) by (auto simp: entry_in_def)
  then have "e \<in> pending s \<union> fst ` insertions ls" using I by (simp add: accounted_def)
  then show ?thesis using I kept_handled by blast
qed

text \<open>A run in which the ticker fires when the first of two entries waits in the channel.\<close>

lemma sample_ticked:
  "\<exists>s l. sync_run sample_sync_env (sync_start sample_worker fresh_db) [Respond 2, Accept, Tick] s
    \<and> saved_log comma_json (sy_db s) ''ct.example/log'' = Some l \<and> MaxEntry l = 1
    \<and> stored_text (sy_db s) = stored_text fresh_db \<and> sy_chan s = [sample_entry]"
proof -
  let ?s0 = "sync_start sample_worker fresh_db :: (unit, (string, nat) gomap mock_db) sync"
  let ?s1 = "?s0\<lparr>sy_dl := \<lparr>dl_index = 0, dl_last = None, dl_pc = Submitting sample_entry [()]\<rparr>\<rparr>"
  let ?s2 = "?s0\<lparr>sy_dl := \<lparr>dl_index = 1, dl_last = Some (uint64ToTimestamp 0 1000), dl_pc = Submitting sample_entry []\<rparr>,
      sy_chan := [sample_entry]\<rparr>"
  have 0: "sy_dl ?s0 = \<lparr>dl_index = 0, dl_last = None, dl_pc = Fetching\<rparr>" "sy_lw ?s0 = sample_worker" "\<not> sy_done ?s0"
    by (simp_all add: sync_start_def dl_start_def loop_head_def sample_worker_def)
  have "served (\<lambda>i. ()) sample_worker 0 2 [(), ()]"
    by (simp add: served_def request_max_def sample_worker_def upt_rec)
  then have "sync_step sample_sync_env (Respond 2) ?s0
      (?s0\<lparr>sy_dl := dl_entries (en_lib sample_sync_env) (sy_lw ?s0) [(), ()] (sy_dl ?s0)\<rparr>)"
    by (intro sync_step.respond) (simp_all add: 0 sample_sync_env_def)
  then have 1: "sync_step sample_sync_env (Respond 2) ?s0 ?s1"
    by (simp add: 0 dl_entries_def sample_sync_env_def sample_lib_def)
  have "sync_step sample_sync_env Accept ?s1 (?s1\<lparr>sy_chan := sy_chan ?s1 @ [sample_entry],
      sy_dl := dl_accepted (en_lib sample_sync_env) (en_zone sample_sync_env) (sy_lw ?s1) sample_entry [()] (sy_dl ?s1)\<rparr>)"
    by (rule sync_step.accept) (simp_all add: sync_start_def chan_room_def)
  then have 2: "sync_step sample_sync_env Accept ?s1 ?s2"
    by (simp add: 0 dl_accepted_def dl_entries_def sample_sync_env_def sample_lib_def sample_entry_def sync_start_def)
  have k: "log_key (url_of sample_worker)" "json_time (LastEntryTime (lw_LogState sample_worker))"
      "url_of sample_worker = ''ct.example/log''"
      "mock_inv comma_json map_gcache (\<lambda>g. gm_get g) fresh_db"
    using sample_sync_ready by (simp_all add: sync_ready_def) (simp add: sample_worker_def blank_log_def)
  have "\<forall>t. Some (uint64ToTimestamp 0 1000) = Some t \<longrightarrow> json_time t" using sample_sync_time by simp
  moreover have "unat (1 :: 64 word) < 2 ^ 63" by simp
  ultimately obtain st db where sv: "saveState (filesystem_certdb (mock_deps comma_json rev map_gcache sample_url)) (utc 0) 1
        (Some (uint64ToTimestamp 0 1000)) (sample_worker, fresh_db) = Done (sample_worker\<lparr>lw_LogState := st\<rparr>, db)"
      and "stored_text db = stored_text fresh_db"
      and "saved_log comma_json db = (saved_log comma_json fresh_db)(url_of sample_worker \<mapsto> st)"
      and "MaxEntry st = int (unat (1 :: 64 word))"
    using mock_certdb.saveState_spec [OF k(4,1,2) sample_sync_time(3)] by metis
  moreover have "sync_step sample_sync_env Tick ?s2 (?s2\<lparr>sy_lw := sample_worker\<lparr>lw_LogState := st\<rparr>, sy_db := db\<rparr>)"
    by (rule sync_step.tick [OF _ sample_sync_time(3)]) (use sv in \<open>simp_all add: sync_start_def sample_sync_env_def\<close>)
  moreover have "sync_run sample_sync_env ?s0 [Respond 2, Accept] ?s2"
    using sync_run.step [OF sync_run.step [OF sync_run.start 1] 2] by simp
  ultimately show ?thesis
    using sync_run.step [of sample_sync_env ?s0 "[Respond 2, Accept]" ?s2 Tick] k(3)
    by (intro exI [of _ "?s2\<lparr>sy_lw := sample_worker\<lparr>lw_LogState := st\<rparr>, sy_db := db\<rparr>"] exI [of _ st]) simp
qed

lemma fresh_db_saved: "saved_log js fresh_db u = None"
  by (simp add: saved_log_def fresh_db_def NewFilesystemDatabase_def NewMockRemoteCache_def)

lemma fresh_db_text: "stored_text fresh_db k = None"
  using fresh_db_recorded by (simp add: stored_text_def stored_cert_def)

text \<open>In the default configuration: a whole run, whose insertions all look at the clock in 1970.\<close>

lemma default_completes:
  obtains ls s l where "sync_run default_sync_env (sync_start sample_worker fresh_db) ls s"
    and "list_all productive ls" and "list_all (at_time (utc 0)) ls" and "sy_done s" and "sy_chan s = []" and "sy_busy s = []"
    and "saved_log comma_json (sy_db s) (url_of sample_worker) = Some l" and "MaxEntry l = 2"
proof -
  obtain ls s where r: "sync_run default_sync_env (sync_start sample_worker fresh_db) ls s"
      "list_all (\<lambda>l. productive l \<and> at_time (utc 0) l) ls" "sy_done s" "sy_chan s = []" "sy_busy s = []"
    using sample_completes_at [of NewCTConfig "utc 0"] unfolding default_sync_env_def by blast
  have p: "list_all productive ls" "list_all uninterrupted ls" "list_all (at_time (utc 0)) ls"
    using r(2) productive_uninterrupted by (auto simp: list_all_iff)
  note I = ready_inv [OF default_sync_ready r(1), unfolded sync_inv_def]
  have "lw_EndPos (sy_lw s) = lw_EndPos sample_worker" using I by (auto simp: worker_ok_def)
  then have "lw_EndPos sample_worker \<le> dl_index (sy_dl s)" using run_to_end [OF r(1) p(2)] I r(3) by auto
  moreover have "dl_index (sy_dl s) \<le> lw_EndPos sample_worker" using I by (simp add: download_ok_def)
  ultimately have "at s = 2" by (simp add: sample_worker_def)
  moreover have "lw_StartPos sample_worker \<noteq> lw_EndPos sample_worker" by (simp add: sample_worker_def)
  ultimately show ?thesis using that [OF r(1) p(1,3) r(3-5)] I r(3) by auto
qed

theorem Sync_no_gap_witness:
  "\<exists>ls s. sync_run default_sync_env (sync_start sample_worker fresh_db) ls s \<and> pending s = {}
    \<and> \<not> LogExpiredEntries (en_cfg default_sync_env)
    \<and> handled default_sync_env (insertions ls) (stored_text (sy_db s)) sample_entry"
proof -
  obtain ls s l where r: "sync_run default_sync_env (sync_start sample_worker fresh_db) ls s"
      "sy_chan s = []" "sy_busy s = []" "saved_log comma_json (sy_db s) (url_of sample_worker) = Some l" "MaxEntry l = 2"
    by (rule default_completes) blast
  have "unat (lw_StartPos sample_worker) \<le> 0" by (simp add: sample_worker_def)
  from Sync_no_gap [OF default_sync_ready r(1,4) _ this _ default_sync_entries(1)]
  have "handled default_sync_env (insertions ls) (stored_text (sy_db s)) sample_entry"
    using r(2,3,5) by (simp add: fresh_db_saved)
  then show ?thesis using r default_sync_entries(2) by auto
qed

text \<open>
  C23. The saved position runs ahead of the database: the ticker saves the index as soon as the
  channel has taken an entry, so a process that dies then has lost the entry, which the next run
  starts after.
\<close>

theorem Save_runs_ahead_of_database:
  "\<exists>s l. sync_run sample_sync_env (sync_start sample_worker fresh_db) [Respond 2, Accept, Tick] s
    \<and> saved_log comma_json (sy_db s) ''ct.example/log'' = Some l \<and> MaxEntry l = 1
    \<and> entry_at sample_sync_env 0 = Some sample_entry
    \<and> wanted sample_sync_env sample_entry = Some (sample_cert, sample_cert)
    \<and> (\<forall>now. \<not> certIsFilteredOut (en_cfg sample_sync_env) now sample_cert)
    \<and> \<not> stored_cert (sy_db s) (stored_key (sample_cert, sample_cert))"
proof -
  obtain s l where s: "sync_run sample_sync_env (sync_start sample_worker fresh_db) [Respond 2, Accept, Tick] s"
      "saved_log comma_json (sy_db s) ''ct.example/log'' = Some l" "MaxEntry l = 1"
      "stored_text (sy_db s) = stored_text fresh_db"
    using sample_ticked by blast
  have "mock_inv comma_json map_gcache (\<lambda>g. gm_get g) (sy_db s)"
    using ready_inv [OF sample_sync_ready s(1)] by (simp add: sync_inv_def)
  then have "\<not> stored_cert (sy_db s) k" for k
    using stored_text_cert s(4) fresh_db_text by metis
  moreover have "\<forall>now. \<not> certIsFilteredOut (en_cfg sample_sync_env) now sample_cert"
    using sample_sync_entries(3) by (simp add: to_store_def)
  ultimately show ?thesis using s(1-3) sample_sync_entries(1,2) by blast
qed

lemma sync_completed:
  assumes "sync_ready env js gc held ord url_Parse lw db" and "sync_run env (sync_start lw db) ls s"
    and "sy_done s" and "sy_chan s = []" and "sy_busy s = []"
  shows "(\<forall>e. entry_in env (unat (lw_StartPos lw)) (at s) e \<longrightarrow> handled env (insertions ls) (stored_text (sy_db s)) e)
    \<and> (\<forall>(e, now) \<in> insertions ls. entry_in env (unat (lw_StartPos lw)) (at s) e)
    \<and> genuine env (insertions ls) (stored_text db) (stored_text (sy_db s))
    \<and> (lw_StartPos lw \<noteq> lw_EndPos lw \<longrightarrow> (\<exists>l. saved_log js (sy_db s) (url_of lw) = Some l \<and> MaxEntry l = int (at s)))
    \<and> (list_all uninterrupted ls \<longrightarrow> dl_index (sy_dl s) = lw_EndPos lw)"
proof -
  note I = ready_inv [OF assms(1,2), unfolded sync_inv_def]
  have "lw_EndPos (sy_lw s) = lw_EndPos lw" using I by (auto simp: worker_ok_def)
  then have "list_all uninterrupted ls \<longrightarrow> lw_EndPos lw \<le> dl_index (sy_dl s)"
    using run_to_end [OF assms(2)] I assms(3) by auto
  moreover have "dl_index (sy_dl s) \<le> lw_EndPos lw" using I by (simp add: download_ok_def)
  moreover have "handled env (insertions ls) (stored_text (sy_db s)) e"
    if "entry_in env (unat (lw_StartPos lw)) (at s) e" for e
    using I that assms(4,5) kept_handled by (fastforce simp: accounted_def)
  ultimately show ?thesis using I assms(3-5) by auto
qed

text \<open>
  C3. Completeness: when the run has returned and the workers have emptied the channel, every
  readable entry from the start position up to the final one has been inserted, and its certificate
  is stored unless the filter dropped it at the time that the worker read from the clock or it has no
  readable issuer; only entries of that range were inserted; each text that is new in the database is
  the PEM of such a certificate, and no other text has changed; and the final position is the one
  saved. It is the end position if no signal and no error other than a 429 stopped the download.
\<close>

theorem Sync_complete:
  assumes "sync_ready env js gc held ord url_Parse lw db" and "sync_run env (sync_start lw db) ls s"
    and "sy_done s" and "sy_chan s = []" and "sy_busy s = []"
  shows "(\<forall>e. entry_in env (unat (lw_StartPos lw)) (at s) e \<longrightarrow> handled env (insertions ls) (stored_text (sy_db s)) e)
    \<and> (\<forall>(e, now) \<in> insertions ls. entry_in env (unat (lw_StartPos lw)) (at s) e)
    \<and> genuine env (insertions ls) (stored_text db) (stored_text (sy_db s))
    \<and> (lw_StartPos lw \<noteq> lw_EndPos lw \<longrightarrow> (\<exists>l. saved_log js (sy_db s) (url_of lw) = Some l \<and> MaxEntry l = int (at s)))
    \<and> (list_all uninterrupted ls \<longrightarrow> dl_index (sy_dl s) = lw_EndPos lw)"
  using sync_completed [OF assms] .

theorem Sync_complete_witness:
  "\<exists>ls s. sync_run default_sync_env (sync_start sample_worker fresh_db) ls s
    \<and> \<not> LogExpiredEntries (en_cfg default_sync_env) \<and> dl_index (sy_dl s) = 2
    \<and> stored_text (sy_db s) (stored_key (sample_cert, sample_cert)) = Some (pem_EncodeToMemory ''CERTIFICATE'' (Raw sample_cert))"
proof -
  obtain ls s where r: "sync_run default_sync_env (sync_start sample_worker fresh_db) ls s" "list_all productive ls"
      "list_all (at_time (utc 0)) ls" "sy_done s" "sy_chan s = []" "sy_busy s = []"
    by (rule default_completes) blast
  note c = Sync_complete [OF default_sync_ready r(1,4,5,6)]
  have "list_all uninterrupted ls" using r(2) productive_uninterrupted by (auto simp: list_all_iff)
  then have e: "dl_index (sy_dl s) = 2" using c by (simp add: sample_worker_def)
  have "entry_in default_sync_env (unat (lw_StartPos sample_worker)) (at s) sample_entry"
    using default_sync_entries(1) by (auto simp: entry_in_def e sample_worker_def intro!: exI [of _ 0])
  then have "handled default_sync_env (insertions ls) (stored_text (sy_db s)) sample_entry" using c by blast
  moreover have same: "e = sample_entry" if "(e, now) \<in> insertions ls" for e now
    using c that default_sync_entries(1) by (fastforce simp: entry_in_def)
  ultimately have "stored_text (sy_db s) (stored_key (sample_cert, sample_cert))
      = Some (pem_EncodeToMemory ''CERTIFICATE'' (Raw (fst (sample_cert, sample_cert))))"
    using c insertions_at [OF r(3)] default_sync_entries(3) fresh_db_text default_wanted
    by (intro handled_text [of default_sync_env "insertions ls" _ sample_entry "stored_text fresh_db" "utc 0"]) blast+
  then show ?thesis using r(1) e default_sync_entries(2) by auto
qed

text \<open>
  C5. Termination: a run takes at most eight productive steps per entry of the range and three
  more, and as long as it has not saved its final position and emptied the channel, a productive step
  can be taken.
\<close>

theorem Sync_terminates:
  fixes env :: "('raw, 'g mock_db) sync_env"
  assumes "sync_ready env js gc held ord url_Parse lw db" and "\<forall>i e. entry_at env i = Some e \<longrightarrow> worker_safe env e"
    and "sync_run env (sync_start lw db) ls s"
  shows "length (filter productive ls) \<le> 8 * (unat (lw_EndPos lw) - unat (lw_StartPos lw)) + 3
    \<and> (\<not> (sy_done s \<and> sy_chan s = [] \<and> sy_busy s = []) \<longrightarrow> (\<exists>l s'. productive l \<and> sync_step env l s s'))"
proof
  have "length (filter productive ls) \<le> potential (sync_start lw db :: ('raw, 'g mock_db) sync)"
    using mock_certdb.productive_bound [OF assms(3), of js gc held ord url_Parse] assms(1)
    by (simp add: sync_ready_def)
  then show "length (filter productive ls) \<le> 8 * (unat (lw_EndPos lw) - unat (lw_StartPos lw)) + 3"
    using potential_start [of lw db, where ?'raw = 'raw] by linarith
  show "\<not> (sy_done s \<and> sy_chan s = [] \<and> sy_busy s = []) \<longrightarrow> (\<exists>l s'. productive l \<and> sync_step env l s s')"
    using mock_certdb.sync_progress [OF ready_inv [OF assms(1,3)], of ord url_Parse "utc 0"] assms(1,2)
    by (auto simp: sync_ready_def)
qed

theorem Sync_terminates_witness:
  "\<exists>l s'. productive l \<and> sync_step sample_sync_env l (sync_start sample_worker fresh_db) s'"
proof -
  have "\<forall>i e. entry_at sample_sync_env i = Some e \<longrightarrow> worker_safe sample_sync_env e"
    using sample_sync_entries by simp
  moreover have "\<not> sy_done (sync_start sample_worker fresh_db :: (unit, (string, nat) gomap mock_db) sync)"
    by (simp add: sync_start_def sample_worker_def)
  ultimately show ?thesis
    using Sync_terminates [OF sample_sync_ready _ sync_run.start] by blast
qed

text \<open>
  C8. A new worker for the log starts exactly at the position where the last run stopped, if no
  offset is configured.
\<close>

theorem Sync_resumes:
  assumes "sync_ready env js gc held ord url_Parse lw db" and "sync_run env (sync_start lw db) ls s"
    and "sy_done s" and "lw_StartPos lw \<noteq> lw_EndPos lw"
    and "ls_client ls' u = None" and "ls_TreeSize ls' u = Inr treeSize" and "ls_url ls' u = Inr (host, path)"
    and "host @ path = url_of lw" and "cfg_Offset cfg = 0" and "ParseDuration (SavePeriod cfg) = Inr p" and "0 < p"
  shows "\<exists>lw' db'. NewLogWorker ls' cfg (en_db env) u (sy_db s) = Done (Inr lw', db')
    \<and> lw_StartPos lw' = dl_index (sy_dl s) \<and> mock_inv js gc held db' \<and> stored_cert db' = stored_cert (sy_db s)"
proof -
  note I = ready_inv [OF assms(1,2), unfolded sync_inv_def]
  obtain l where l: "saved_log js (sy_db s) (host @ path) = Some l" "MaxEntry l = int (at s)"
    using I assms(3,4,8) by auto
  have db: "en_db env = filesystem_certdb (mock_deps js ord gc url_Parse)" "mock_inv js gc held (sy_db s)"
    using assms(1) I by (simp_all add: sync_ready_def)
  obtain db' where g: "cd_GetLogState (en_db env) host path (sy_db s) = Done ((l, None), db')" "mock_inv js gc held db'"
      "stored_text db' = stored_text (sy_db s)"
    using mock_certdb.Get_law [OF db(2) l(1), of ord url_Parse] unfolding db(1) by blast
  have "start_pos cfg l = dl_index (sy_dl s)" using l(2) assms(9) by (simp add: start_pos_def)
  moreover have "stored_cert db' = stored_cert (sy_db s)"
    using stored_text_cert [OF g(2)] stored_text_cert [OF db(2)] g(3) by (simp add: fun_eq_iff)
  ultimately show ?thesis
    using g assms(5-7,10,11) by (auto simp: NewLogWorker_def Let_def)
qed

theorem Sync_resumes_witness:
  "\<exists>ls s lw' db'. sync_run sample_sync_env (sync_start sample_worker fresh_db) ls s
    \<and> NewLogWorker \<lparr>ls_client = (\<lambda>u. None), ls_TreeSize = (\<lambda>u. Inr 7), ls_url = (\<lambda>u. Inr (''ct.example'', ''/log''))\<rparr>
      (NewCTConfig\<lparr>SavePeriod := ''15m''\<rparr>) (en_db sample_sync_env) ''https://ct.example/log'' (sy_db s) = Done (Inr lw', db')
    \<and> lw_StartPos lw' = dl_index (sy_dl s)"
proof -
  obtain ls s where r: "sync_run sample_sync_env (sync_start sample_worker fresh_db) ls s" "sy_done s"
    using sample_sync_completes by blast
  let ?ls = "\<lparr>ls_client = (\<lambda>u. None), ls_TreeSize = (\<lambda>u. Inr 7), ls_url = (\<lambda>u. Inr (''ct.example'', ''/log''))\<rparr> :: log_services"
  let ?u = "''https://ct.example/log''" and ?cfg = "NewCTConfig\<lparr>SavePeriod := ''15m''\<rparr>"
  have ne: "lw_StartPos sample_worker \<noteq> lw_EndPos sample_worker" by (simp add: sample_worker_def)
  have p: "ParseDuration (SavePeriod ?cfg) = Inr (15 * Minute)"
    by (simp add: ParseDuration_eval)
  have a: "ls_client ?ls ?u = None" "ls_TreeSize ?ls ?u = Inr 7" "ls_url ?ls ?u = Inr (''ct.example'', ''/log'')"
      "''ct.example'' @ ''/log'' = url_of sample_worker" "cfg_Offset ?cfg = 0" "0 < 15 * Minute"
    by (simp_all add: sample_worker_def blank_log_def NewCTConfig_def)
  show ?thesis
    using Sync_resumes [OF sample_sync_ready r ne a(1-5) p a(6)] r(1) by blast
qed

text \<open>
  C20. Whenever the worker asks for entries, it asks for a range of 1 to 1001 entries that begins at
  its index, lies between the start and the end position, and survives the conversion to signed
  numbers.
\<close>

theorem Requests_in_range:
  assumes "sync_ready env js gc held ord url_Parse lw db" and "sync_run env (sync_start lw db) ls s"
    and "dl_pc (sy_dl s) = Fetching"
  shows "sint (dl_index (sy_dl s)) = int (at s) \<and> unat (lw_StartPos lw) \<le> at s
    \<and> sint (dl_index (sy_dl s)) \<le> sint (request_max (sy_lw s) (dl_index (sy_dl s)))
    \<and> sint (request_max (sy_lw s) (dl_index (sy_dl s))) \<le> sint (dl_index (sy_dl s)) + 1000
    \<and> sint (request_max (sy_lw s) (dl_index (sy_dl s))) < int (unat (lw_EndPos lw))"
proof -
  let ?i = "dl_index (sy_dl s)" and ?m = "request_max lw (dl_index (sy_dl s))"
  note I = ready_inv [OF assms(1,2), unfolded sync_inv_def]
  have E: "unat (lw_EndPos lw) < 2 ^ 63" using assms(1) by (simp add: sync_ready_def)
  have d: "lw_StartPos lw \<le> ?i" "?i < lw_EndPos lw" using I assms(3) by (simp_all add: download_ok_def)
  note b = request_max_bounds [OF d(2) E]
  have "request_max (sy_lw s) = request_max lw" using I by (auto simp: worker_ok_def)
  moreover have "sint ?i = int (at s)" "sint ?m = int (unat ?m)"
    using sint_small [of ?i] sint_small [of ?m] b(1,2) E by simp_all
  moreover have "int (at s) \<le> int (unat ?m)" "int (unat ?m) \<le> int (at s) + 1000" "int (unat ?m) < int (unat (lw_EndPos lw))"
    using b by linarith+
  ultimately show ?thesis using d(1) by (simp add: word_le_nat_alt)
qed

theorem Requests_in_range_witness:
  "sint (request_max sample_worker 0) \<le> 1000 \<and> sint (request_max sample_worker 0) < 2"
proof -
  let ?s0 = "sync_start sample_worker fresh_db :: (unit, (string, nat) gomap mock_db) sync"
  have "dl_pc (sy_dl ?s0) = Fetching" by (simp add: sync_start_def dl_start_def loop_head_def sample_worker_def)
  from Requests_in_range [OF sample_sync_ready sync_run.start this] show ?thesis
    by (simp add: sync_start_def dl_start_def) (simp add: sample_worker_def)
qed

text \<open>
  C25. A configured offset beyond the end of the log makes the run download nothing and save the
  offset as the position of the log, so that a later run without an offset skips the entries that the
  log will grow in between.
\<close>

theorem Offset_beyond_tree_is_saved:
  fixes env :: "('raw, 'g mock_db) sync_env"
  assumes "codec_laws js" and "gcache_laws gc held" and "db_inv held db"
    and "en_db env = filesystem_certdb (mock_deps js ord gc url_Parse)"
    and "NewLogWorker ls' cfg (en_db env) u db0 = Done (Inr lw, db)"
    and "cfg_Limit cfg = 0" and "cfg_Offset cfg < 2 ^ 63"
    and "ls_TreeSize ls' u = Inr treeSize" and "unat treeSize < cfg_Offset cfg"
    and "log_key (url_of lw)" and "json_time (LastEntryTime (lw_LogState lw))"
  shows "\<exists>s l. sync_run env (sync_start lw db) [Finish] s \<and> sy_done s
    \<and> saved_log js (sy_db s) (url_of lw) = Some l \<and> MaxEntry l = int (cfg_Offset cfg)"
proof -
  let ?s0 = "sync_start lw db :: ('raw, 'g mock_db) sync"
  have off: "unat (word_of_nat (cfg_Offset cfg) :: 64 word) = cfg_Offset cfg"
    using assms(7) by (simp add: unat_of_nat take_bit_nat_eq_self)
  have pos: "0 < cfg_Offset cfg" using assms(9) by simp
  have p: "lw_StartPos lw = word_of_nat (cfg_Offset cfg)" "lw_EndPos lw = treeSize"
    using assms(5,6,8) pos
    by (auto simp: NewLogWorker_def Let_def start_pos_def end_pos_def outcome_bind_Done_iff
        split: option.splits sum.splits if_splits)
  have ne: "\<not> lw_StartPos lw < lw_EndPos lw" "lw_StartPos lw \<noteq> lw_EndPos lw"
    using assms(9) off by (auto simp: p word_less_nat_alt)
  have r: "dl_pc (sy_dl ?s0) = Returned None" "\<not> sy_done ?s0" "sy_lw ?s0 = lw" "sy_db ?s0 = db"
      "dl_index (sy_dl ?s0) = lw_StartPos lw" "dl_last (sy_dl ?s0) = None"
    using ne by (simp_all add: sync_start_def dl_start_def loop_head_def)
  have inv: "mock_inv js gc held db" using assms(1-3) by (simp add: mock_inv_def)
  have small: "unat (lw_StartPos lw) < 2 ^ 63" using assms(7) off by (simp add: p)
  have none: "\<forall>t. None = Some t \<longrightarrow> json_time t" by simp
  obtain st db2 where sv: "saveState (en_db env) (utc 0) (lw_StartPos lw) None (lw, db) = Done (lw\<lparr>lw_LogState := st\<rparr>, db2)"
    and st: "saved_log js db2 = (saved_log js db)(url_of lw \<mapsto> st)" "MaxEntry st = int (unat (lw_StartPos lw))"
    unfolding assms(4)
    by (rule mock_certdb.saveState_spec [OF inv assms(10,11) sample_sync_time(3) none small, of ord url_Parse])
  have "sync_step env Finish ?s0 (?s0\<lparr>sy_lw := lw\<lparr>lw_LogState := st\<rparr>, sy_db := db2, sy_done := True\<rparr>)"
    by (rule sync_step.finish [OF r(1,2) sample_sync_time(3)]) (use sv r in simp)
  then have "sync_run env ?s0 [Finish] (?s0\<lparr>sy_lw := lw\<lparr>lw_LogState := st\<rparr>, sy_db := db2, sy_done := True\<rparr>)"
    using sync_run.step [OF sync_run.start] by fastforce
  then show ?thesis
    using st off by (intro exI [of _ "?s0\<lparr>sy_lw := lw\<lparr>lw_LogState := st\<rparr>, sy_db := db2, sy_done := True\<rparr>"] exI [of _ st])
      (simp add: p)
qed

theorem Offset_beyond_tree_is_saved_witness:
  "\<exists>s l. sync_run sample_sync_env (sync_start (sample_worker\<lparr>lw_StartPos := 9, lw_EndPos := 7\<rparr>) fresh_db) [Finish] s
    \<and> saved_log comma_json (sy_db s) ''ct.example/log'' = Some l \<and> MaxEntry l = 9"
proof -
  let ?ls = "\<lparr>ls_client = (\<lambda>u. None), ls_TreeSize = (\<lambda>u. Inr 7), ls_url = (\<lambda>u. Inr (''ct.example'', ''/log''))\<rparr> :: log_services"
  let ?cfg = "NewCTConfig\<lparr>SavePeriod := ''15m'', cfg_Offset := 9\<rparr>" and ?lw = "sample_worker\<lparr>lw_StartPos := 9, lw_EndPos := 7\<rparr>"
  have d: "en_db sample_sync_env = filesystem_certdb (mock_deps comma_json rev map_gcache sample_url)"
    by (simp add: sample_sync_env_def)
  have p: "ParseDuration ''15m'' = Inr (15 * Minute)"
    by (simp add: ParseDuration_eval)
  have w: "NewLogWorker ?ls ?cfg (en_db sample_sync_env) ''https://ct.example/log'' fresh_db = Done (Inr ?lw, fresh_db)"
    unfolding d
    by (simp add: NewLogWorker_def filesystem_certdb_def GetLogState_def mock_cache_def untimed_def Mock_LoadLogState_def
        fresh_db_def NewFilesystemDatabase_def NewMockRemoteCache_def mock_backend_def MB_LoadLogState_def
        NewMockBackend_def start_pos_def end_pos_def NewCTConfig_def p sample_worker_def blank_log_def)
  have k: "log_key (url_of ?lw)" "json_time (LastEntryTime (lw_LogState ?lw))" "url_of ?lw = ''ct.example/log''"
    using sample_sync_ready by (simp_all add: sync_ready_def) (simp add: sample_worker_def blank_log_def)
  have n: "cfg_Limit ?cfg = 0" "cfg_Offset ?cfg < 2 ^ 63" "ls_TreeSize ?ls ''https://ct.example/log'' = Inr 7"
    "unat (7 :: 64 word) < cfg_Offset ?cfg" "cfg_Offset ?cfg = 9"
    by (simp_all add: NewCTConfig_def)
  show ?thesis
    using Offset_beyond_tree_is_saved [OF comma_json_laws map_gcache_laws fresh_db_inv d w n(1-4) k(1,2)]
    unfolding k(3) n(5) by auto
qed

end
