(* ===== verification/Fetch_Shutdown.thy ===== *)
theory Fetch_Shutdown
  imports Fetch_Process Sync_Properties
begin

text \<open>
  How the process of \<^verbatim>\<open>ct-fetch\<close> ends: the order in which its parts stop, and where the
  entries are that were put into the channel.
\<close>

section \<open>Steps of a download\<close>

lemma saveState_url: "saveState cd now i t (lw, db) = Done (lw', db') \<Longrightarrow> lw_LogURL lw' = lw_LogURL lw"
  by (auto simp: saveState_def Let_def outcome_bind_Done_iff split: if_splits)

lemma download_step:
  assumes "sync_step env l v v'" and "download_label l"
  shows "(if l = Accept then \<exists>e. sy_chan v' = sy_chan v @ [e] else sy_chan v' = sy_chan v)
    \<and> sy_busy v' = sy_busy v \<and> sy_lastUpdate v' = sy_lastUpdate v \<and> lw_LogURL (sy_lw v') = lw_LogURL (sy_lw v)"
  using assms by cases (auto dest: saveState_url)

text \<open>It does not look at what the insert threads hold.\<close>

lemma download_step_busy:
  assumes "sync_step env l v v'" and "download_label l"
  shows "sync_step env l (v\<lparr>sy_busy := b\<rparr>) (v'\<lparr>sy_busy := b\<rparr>)"
  using assms(1)
proof cases
  case (respond n rs)
  then show ?thesis using sync_step.respond [of "v\<lparr>sy_busy := b\<rparr>" env n rs] by (cases v) simp
next
  case (fail err)
  then show ?thesis using sync_step.fail [of "v\<lparr>sy_busy := b\<rparr>" env err] by (cases v) simp
next
  case (accept e rest)
  then show ?thesis using sync_step.accept [of "v\<lparr>sy_busy := b\<rparr>" e rest env] by (cases v) simp
next
  case (tick e rest now lw db)
  then show ?thesis using sync_step.tick [of "v\<lparr>sy_busy := b\<rparr>" e rest now env lw db] by (cases v) simp
next
  case (signal e rest)
  then show ?thesis using sync_step.signal [of "v\<lparr>sy_busy := b\<rparr>" e rest env] by (cases v) simp
next
  case (finish err now lw db)
  then show ?thesis using sync_step.finish [of "v\<lparr>sy_busy := b\<rparr>" err now env lw db] by (cases v) simp
qed (use assms(2) in simp_all)

section \<open>The shutdown\<close>

text \<open>
  The channel is closed exactly when \<^verbatim>\<open>main\<close> has seen all downloads leave, so no download is
  sending; an insert thread finishes on an empty closed channel only.
\<close>

definition shutdown_ok :: "('raw, 'd) process \<Rightarrow> bool" where
  "shutdown_ok p \<longleftrightarrow>
     (pr_closed p \<longleftrightarrow> pr_main p \<noteq> AwaitDownloaders)
   \<and> (pr_cancelled p \<longleftrightarrow> pr_closed p)
   \<and> (pr_closed p \<longrightarrow> (\<forall>t \<in> set (map snd (pr_logs p)). t = LeftLoop))
   \<and> (Finished \<in> set (pr_threads p) \<longrightarrow> pr_closed p \<and> pr_chan p = [])
   \<and> (pr_main p = Exited \<longrightarrow> \<not> threads_working (pr_threads p))"

lemma Finished_update: "Finished \<in> set (ts[i := t]) \<Longrightarrow> t \<noteq> Finished \<Longrightarrow> Finished \<in> set ts"
  using set_update_subset_insert [of ts i t] by auto

lemma log_there: "k < length ls \<Longrightarrow> ls ! k = (url, t) \<Longrightarrow> t \<in> set (map snd ls)"
  by (metis image_eqI list.set_map nth_mem snd_conv)

lemma shutdown_ok_step:
  assumes "fetch_step fe l p p'" and "shutdown_ok p"
  shows "shutdown_ok p'"
  using assms(1)
proof cases
  case (log_begins k url r db)
  then have "\<not> pr_closed p" using assms(2) log_there by (fastforce simp: shutdown_ok_def)
  then show ?thesis using assms(2) log_begins by (auto simp: shutdown_ok_def)
next
  case (log_steps k url lw d lb v)
  then have "\<not> pr_closed p" using assms(2) log_there by (fastforce simp: shutdown_ok_def)
  then show ?thesis using assms(2) log_steps by (auto simp: shutdown_ok_def log_back_def)
next
  case (log_wakes k url)
  then have "\<not> pr_closed p" using assms(2) log_there by (fastforce simp: shutdown_ok_def)
  then show ?thesis using assms(2) log_wakes by (auto simp: shutdown_ok_def)
next
  case (log_signalled k url)
  then have "\<not> pr_closed p" using assms(2) log_there by (fastforce simp: shutdown_ok_def)
  then show ?thesis using assms(2) log_signalled by (auto simp: shutdown_ok_def)
next
  case (main_stops p'')
  then show ?thesis using assms(2) by (auto simp: shutdown_ok_def LogSyncEngine_Stop_def split: if_splits)
next
  case main_exits
  then show ?thesis using assms(2) by (auto simp: shutdown_ok_def LogSyncEngine_Cleanup_def split: prod.splits)
next
  case (thread_takes i e q)
  then have "Finished \<notin> set (pr_threads p)" using assms(2) by (auto simp: shutdown_ok_def)
  then show ?thesis using assms(2) thread_takes Finished_update by (fastforce simp: shutdown_ok_def)
qed (use assms(2) Finished_update in \<open>fastforce simp: shutdown_ok_def\<close>)+

lemma fetch_start_simps:
  assumes "fetch_start cfg urls db = Done p0"
  shows "pr_logs p0 = map (\<lambda>u. (u, BeforeSync)) urls" and "pr_threads p0 = replicate (nat (NumThreads cfg)) Spawned"
    and "pr_chan p0 = []" and "\<not> pr_closed p0" and "pr_db p0 = db" and "pr_lastUpdate p0 = zero_time"
    and "pr_main p0 = AwaitDownloaders" and "\<not> pr_cancelled p0"
  using assms by (auto simp: fetch_start_def NewLogSyncEngine_def start_downloads_def StartDatabaseThreads_def
      split: sum.splits)

lemma shutdown_ok_run:
  assumes "fetch_run fe p0 ls p" and "fetch_start cfg urls db = Done p0"
  shows "shutdown_ok p"
  using assms(1)
proof induction
  case start
  then show ?case using fetch_start_simps [OF assms(2)] by (auto simp: shutdown_ok_def)
next
  case (step ls p l p')
  then show ?case using shutdown_ok_step by blast
qed

text \<open>An insert thread that has started stays so.\<close>

lemma started_step:
  assumes "fetch_step fe l p p'"
  shows "(\<exists>t \<in> set (pr_threads p). t \<noteq> Spawned) \<Longrightarrow> \<exists>t \<in> set (pr_threads p'). t \<noteq> Spawned"
    and "l = ThreadStarts i \<Longrightarrow> \<exists>t \<in> set (pr_threads p'). t \<noteq> Spawned"
  using assms
  by (cases; auto simp: process_effects dest: set_update_memI split: prod.splits if_splits)+

lemma started_run:
  assumes "fetch_run fe p0 ls p" and "ThreadStarts i \<in> set ls"
  shows "\<exists>t \<in> set (pr_threads p). t \<noteq> Spawned"
  using assms by induction (auto dest: started_step)

text \<open>What the insert threads hold.\<close>

fun thread_holds :: "insert_thread \<Rightarrow> CtLogEntry multiset" where
  "thread_holds (Inserting e) = {#e#}"
| "thread_holds t = {#}"

definition held :: "insert_thread list \<Rightarrow> CtLogEntry multiset" where
  "held ts = (\<Sum>t\<in>#mset ts. thread_holds t)"

lemma held_update:
  assumes "i < length ts"
  shows "held (ts[i := t]) + thread_holds (ts ! i) = held ts + thread_holds t"
proof -
  have "mset ts = add_mset (ts ! i) (mset ts - {#ts ! i#})"
    using assms by simp
  then have "held ts = thread_holds (ts ! i) + (\<Sum>t\<in>#mset ts - {#ts ! i#}. thread_holds t)"
    unfolding held_def by (metis image_mset_add_mset sum_mset.add_mset)
  then show ?thesis using assms by (simp add: held_def mset_update ac_simps)
qed

lemma held_size:
  "i < length ts \<Longrightarrow> size (held (ts[i := t])) + size (thread_holds (ts ! i)) = size (held ts) + size (thread_holds t)"
  using arg_cong [OF held_update, of i ts size t] by simp

lemma held_idle: "\<not> threads_working ts \<Longrightarrow> held ts = {#}"
  by (induction ts) (auto simp: held_def threads_working_def)

text \<open>How many entries a run has put into the channel, and how many inserts it has finished.\<close>

fun submits :: "fetch_label \<Rightarrow> bool" where
  "submits (LogSteps k Accept) = True"
| "submits l = False"

fun inserts :: "fetch_label \<Rightarrow> bool" where
  "inserts (ThreadInserts i e now) = True"
| "inserts l = False"

lemma balance_step:
  assumes "fetch_step fe l p p'"
  shows "length (pr_chan p') + size (held (pr_threads p')) + of_bool (inserts l)
    = length (pr_chan p) + size (held (pr_threads p)) + of_bool (submits l)"
  using assms
proof cases
  case (thread_starts i)
  then show ?thesis using held_update [of i "pr_threads p" Ranging] by simp
next
  case (thread_takes i e q)
  then show ?thesis using held_size [of i "pr_threads p" "Inserting e"] by simp
next
  case (thread_inserts i e now health db upd)
  then show ?thesis using held_size [of i "pr_threads p" Ranging] by simp
next
  case (thread_leaves i)
  then show ?thesis using held_update [of i "pr_threads p" Finished] by simp
next
  case (log_steps k url lw d lb v)
  note d = download_step [OF log_steps(7,6)]
  have c: "length (sy_chan (log_view lw d p)) = length (pr_chan p)" by (simp add: log_view_def)
  have "length (pr_chan p') = length (sy_chan v)"
    using d c by (auto simp: log_steps(2) log_back_def split: if_splits)
  moreover have "length (sy_chan v) = length (pr_chan p) + of_bool (submits l)"
    using d c log_steps(1) by (cases lb) auto
  moreover have "pr_threads p' = pr_threads p" by (simp add: log_steps(2) log_back_def)
  ultimately show ?thesis by (simp add: log_steps(1))
next
  case (main_stops p'')
  then show ?thesis by (auto simp: LogSyncEngine_Stop_def split: if_splits)
next
  case main_exits
  then show ?thesis by (simp add: LogSyncEngine_Cleanup_def split: prod.splits)
qed simp_all

lemma balance_run:
  assumes "fetch_run fe p0 ls p" and "fetch_start cfg urls db = Done p0"
  shows "length (filter submits ls) = length (pr_chan p) + size (held (pr_threads p)) + length (filter inserts ls)"
  using assms(1)
proof induction
  case start
  have "\<not> threads_working (pr_threads p0)"
    using fetch_start_simps [OF assms(2)] by (auto simp: threads_working_def list_ex_iff)
  then show ?case using fetch_start_simps [OF assms(2)] held_idle by simp
next
  case (step ls p l p')
  then show ?case using balance_step [OF step(2)] by (simp add: of_bool_def split: if_splits)
qed

text \<open>What is left when \<^verbatim>\<open>main\<close> exits.\<close>

lemma exit_empty:
  assumes "fetch_start cfg urls db = Done p0" and "fetch_run fe p0 ls p"
    and "pr_main p = Exited" and "ThreadStarts i \<in> set ls"
  shows "pr_chan p = []" and "held (pr_threads p) = {#}"
proof -
  note I = shutdown_ok_run [OF assms(2,1), unfolded shutdown_ok_def]
  have w: "\<not> threads_working (pr_threads p)" using I assms(3) by blast
  then have "Finished \<in> set (pr_threads p)"
    using started_run [OF assms(2,4)] by (auto simp: threads_working_def list_ex_iff)
  then show "pr_chan p = []" using I by blast
  show "held (pr_threads p) = {#}" by (rule held_idle [OF w])
qed

end
