(* ===== verification/Fetch_Simulation.thy ===== *)
theory Fetch_Simulation
  imports Fetch_Shutdown
begin

text \<open>
  The process of \<^verbatim>\<open>ct-fetch\<close> with one log and without \<^verbatim>\<open>-runForever\<close> refines the
  synchronisation of that log: its threads together are the workers of \<open>Log_Sync\<close>. So it stores
  what the log holds, and it can always come to its end.
\<close>

section \<open>The simulation\<close>

definition matches :: "string \<Rightarrow> ('raw, 'd) process \<Rightarrow> ('raw, 'd) sync \<Rightarrow> bool" where
  "matches url p s \<longleftrightarrow>
     sy_chan s = map cle_LogEntry (pr_chan p)
   \<and> mset (sy_busy s) = image_mset cle_LogEntry (held (pr_threads p))
   \<and> cle_LogURL ` (set (pr_chan p) \<union> set_mset (held (pr_threads p))) \<subseteq> {lw_LogURL (sy_lw s)}
   \<and> sy_db s = pr_db p \<and> sy_lastUpdate s = pr_lastUpdate p
   \<and> pr_logs p = [(url, if sy_done s then LeftLoop else Downloading (sy_lw s) (sy_dl s))]"

text \<open>The step of the synchronisation that a step of the process is.\<close>

fun sync_of :: "fetch_label \<Rightarrow> sync_label option" where
  "sync_of (ThreadTakes i e) = Some Take"
| "sync_of (ThreadInserts i e now) = Some (Insert (cle_LogEntry e) now)"
| "sync_of (LogSteps k l) = Some l"
| "sync_of l = None"

lemma matches_unchanged:
  assumes "matches url p s" and "pr_chan p' = pr_chan p" and "held (pr_threads p') = held (pr_threads p)"
    and "pr_db p' = pr_db p" and "pr_lastUpdate p' = pr_lastUpdate p" and "pr_logs p' = pr_logs p"
  shows "matches url p' s"
  using assms by (simp add: matches_def)

lemma log_view_busy:
  assumes "matches url p s" and "\<not> sy_done s"
  shows "(log_view (sy_lw s) (sy_dl s) p)\<lparr>sy_busy := sy_busy s\<rparr> = s"
  using assms by (cases s) (simp add: matches_def log_view_def)

lemma simulation_log:
  assumes m: "matches url p s" and k: "k < length (pr_logs p)" "pr_logs p ! k = (url', Downloading lw d)"
    and l: "download_label l" and st: "sync_step (log_env fe url') l (log_view lw d p) v" and rf: "\<not> RunForever cfg"
  shows "\<exists>s'. sync_step (log_env fe url) l s s' \<and> matches url (log_back cfg k url' v p) s'"
proof -
  have e: "k = 0" "url' = url" "lw = sy_lw s" "d = sy_dl s" "\<not> sy_done s"
    using m k by (auto simp: matches_def split: if_splits)
  let ?s' = "v\<lparr>sy_busy := sy_busy s\<rparr>"
  have "sync_step (log_env fe url) l s ?s'"
    using download_step_busy [OF st l, of "sy_busy s"] log_view_busy [OF m e(5)] by (simp add: e)
  moreover have "matches url (log_back cfg k url' v p) ?s'"
  proof -
    note d = download_step [OF st l]
    have c: "sy_chan (log_view lw d p) = map cle_LogEntry (pr_chan p)" "sy_lastUpdate (log_view lw d p) = pr_lastUpdate p"
      "sy_lw (log_view lw d p) = sy_lw s" by (simp_all add: log_view_def e)
    have after: "after_sync cfg = LeftLoop" using rf by (simp add: after_sync_def)
    show ?thesis
    proof (cases "l = Accept")
      case True
      then obtain x where "sy_chan v = map cle_LogEntry (pr_chan p) @ [x]" using d c(1) by auto
      then show ?thesis using m d c(2,3) by (auto simp: matches_def log_back_def e after)
    next
      case False
      then have "sy_chan v = map cle_LogEntry (pr_chan p)" using d c(1) by simp
      then show ?thesis using m d c(2,3) by (auto simp: matches_def log_back_def e after)
    qed
  qed
  ultimately show ?thesis by blast
qed

lemma simulation_take:
  assumes m: "matches url p s" and i: "i < length (pr_threads p)" "pr_threads p ! i = Ranging" and c: "pr_chan p = e # q"
  shows "\<exists>s'. sync_step env Take s s'
    \<and> matches url (p\<lparr>pr_threads := (pr_threads p)[i := Inserting e], pr_chan := q\<rparr>) s'"
proof -
  have h: "held ((pr_threads p)[i := Inserting e]) = add_mset e (held (pr_threads p))"
    using held_update [OF i(1), of "Inserting e"] i(2) by simp
  have "sy_chan s = cle_LogEntry e # map cle_LogEntry q" using m c by (simp add: matches_def)
  note t = sync_step.take [OF this]
  have "matches url (p\<lparr>pr_threads := (pr_threads p)[i := Inserting e], pr_chan := q\<rparr>)
      (s\<lparr>sy_chan := map cle_LogEntry q, sy_busy := cle_LogEntry e # sy_busy s\<rparr>)"
    using m c h by (auto simp: matches_def)
  then show ?thesis using t by blast
qed

lemma simulation_insert:
  assumes m: "matches url p s" and i: "i < length (pr_threads p)" "pr_threads p ! i = Inserting e"
    and ins: "insert_entry (fe_lib fe) (fe_cfg fe) (fe_db fe) now health (cle_LogURL e) (cle_LogEntry e) (pr_db p, pr_lastUpdate p)
        = Done (db, upd)"
  shows "\<exists>s'. sync_step (log_env fe url) (Insert (cle_LogEntry e) now) s s'
    \<and> matches url (p\<lparr>pr_threads := (pr_threads p)[i := Ranging], pr_db := db, pr_lastUpdate := upd\<rparr>) s'"
proof -
  have h: "held (pr_threads p) = add_mset e (held ((pr_threads p)[i := Ranging]))"
    using held_update [OF i(1), of Ranging] i(2) by simp
  have u: "cle_LogURL e = lw_LogURL (sy_lw s)" using m h by (simp add: matches_def)
  have a: "mset (sy_busy s) = add_mset (cle_LogEntry e) (image_mset cle_LogEntry (held ((pr_threads p)[i := Ranging])))"
    using m h by (simp add: matches_def)
  have "cle_LogEntry e \<in> set (sy_busy s)" using arg_cong [OF a, of set_mset] by simp
  then obtain xs ys where b: "sy_busy s = xs @ cle_LogEntry e # ys" using split_list by metis
  have b': "mset (xs @ ys) = image_mset cle_LogEntry (held ((pr_threads p)[i := Ranging]))" using a b by simp
  have "insert_entry (en_lib (log_env fe url)) (en_cfg (log_env fe url)) (en_db (log_env fe url)) now health
      (lw_LogURL (sy_lw s)) (cle_LogEntry e) (sy_db s, sy_lastUpdate s) = Done (db, upd)"
    using ins m u by (simp add: log_env_def matches_def)
  note t = sync_step.insert [OF b this]
  have "matches url (p\<lparr>pr_threads := (pr_threads p)[i := Ranging], pr_db := db, pr_lastUpdate := upd\<rparr>)
      (s\<lparr>sy_busy := xs @ ys, sy_db := db, sy_lastUpdate := upd\<rparr>)"
    using m h b' by (auto simp: matches_def)
  then show ?thesis using t by blast
qed

lemma simulation_step:
  assumes m: "matches url p s" and st: "fetch_step fe l p p'" and rf: "\<not> RunForever (fe_cfg fe)"
    and cl: "\<And>d. snd (cd_Cleanup (fe_db fe) d) = d"
  shows "case sync_of l of None \<Rightarrow> matches url p' s
    | Some lb \<Rightarrow> \<exists>s'. sync_step (log_env fe url) lb s s' \<and> matches url p' s'"
  using st
proof cases
  case (thread_starts i)
  have "held (pr_threads p') = held (pr_threads p)"
    using held_update [OF thread_starts(4), of Ranging] thread_starts by simp
  then show ?thesis using matches_unchanged [OF m] thread_starts by simp
next
  case (thread_takes i e q)
  then show ?thesis using simulation_take [OF m] by simp
next
  case (thread_inserts i e now health db upd)
  then show ?thesis using simulation_insert [OF m] by simp
next
  case (thread_leaves i)
  have "held (pr_threads p') = held (pr_threads p)"
    using held_update [OF thread_leaves(4), of Finished] thread_leaves by simp
  then show ?thesis using matches_unchanged [OF m] thread_leaves by simp
next
  case (log_steps k url' lw d lb v)
  then show ?thesis using simulation_log [OF m _ _ _ _ rf] by simp
next
  case (main_stops p'')
  then show ?thesis using matches_unchanged [OF m] by (auto simp: LogSyncEngine_Stop_def split: if_splits)
next
  case main_exits
  have "pr_db (LogSyncEngine_Cleanup (fe_db fe) p) = pr_db p"
    using cl [of "pr_db p"] by (cases "cd_Cleanup (fe_db fe) (pr_db p)") (simp add: LogSyncEngine_Cleanup_def)
  then show ?thesis
    using matches_unchanged [OF m] main_exits by (simp add: LogSyncEngine_Cleanup_def split: prod.splits)
qed (use m in \<open>auto simp: matches_def split: if_splits\<close>)

section \<open>Runs\<close>

text \<open>Before the download begins.\<close>

definition waiting :: "string \<Rightarrow> 'd \<Rightarrow> ('raw, 'd) process \<Rightarrow> bool" where
  "waiting url db p \<longleftrightarrow> pr_logs p = [(url, BeforeSync)] \<and> pr_chan p = [] \<and> held (pr_threads p) = {#}
     \<and> pr_db p = db \<and> pr_lastUpdate p = zero_time"

lemma waiting_step:
  assumes w: "waiting url db p" and st: "fetch_step fe l p p'" and rf: "\<not> RunForever (fe_cfg fe)"
    and cl: "\<And>d. snd (cd_Cleanup (fe_db fe) d) = d"
    and N: "\<forall>ls. fe_services fe ls \<longrightarrow> NewLogWorker ls (fe_cfg fe) (fe_db fe) url db = Done (Inr lw, db1)"
  shows "(waiting url db p' \<or> matches url p' (sync_start lw db1)) \<and> thread_insertion l = {}"
  using st
proof cases
  case (thread_starts i)
  then show ?thesis using w held_update [OF thread_starts(4), of Ranging] by (simp add: waiting_def)
next
  case (thread_inserts i e now health db' upd)
  then show ?thesis using w held_update [OF thread_inserts(4), of Ranging] by (simp add: waiting_def)
next
  case (thread_leaves i)
  then show ?thesis using w held_update [OF thread_leaves(4), of Finished] by (simp add: waiting_def)
next
  case (log_begins k url' ls r db')
  then have "k = 0" "url' = url" "r = Inr lw" "db' = db1" using w N by (simp_all add: waiting_def)
  moreover from this have "pr_logs p' = [(url, if lw_StartPos lw = lw_EndPos lw then LeftLoop else Downloading lw (dl_start lw))]"
    using w rf by (simp add: log_begins(2) waiting_def SyncLog_begin_def after_sync_def)
  ultimately show ?thesis using w by (simp add: log_begins(1,2) waiting_def matches_def sync_start_def)
next
  case main_exits
  have "pr_db (LogSyncEngine_Cleanup (fe_db fe) p) = pr_db p"
    using cl [of "pr_db p"] by (cases "cd_Cleanup (fe_db fe) (pr_db p)") (simp add: LogSyncEngine_Cleanup_def)
  then show ?thesis using w main_exits by (simp add: waiting_def LogSyncEngine_Cleanup_def split: prod.splits)
qed (use w in \<open>auto simp: waiting_def\<close>)

lemma sync_of_insertion:
  "fetch_step fe l p p' \<Longrightarrow> thread_insertion l = (case sync_of l of Some lb \<Rightarrow> insertion lb | None \<Rightarrow> {})"
  by (cases rule: fetch_step.cases) (auto elim: download_label.elims)

text \<open>No signal comes, and no answer of the server is an error other than 429.\<close>

fun undisturbed :: "fetch_label \<Rightarrow> bool" where
  "undisturbed (LogSteps k l) = uninterrupted l"
| "undisturbed l = True"

text \<open>The process works on one log, once, on the filesystem database over in-memory stores.\<close>

definition fetch_ready ::
    "('raw, 'g mock_db) fetch_env \<Rightarrow> log_json \<Rightarrow> 'g gcache \<Rightarrow> ('g \<Rightarrow> string \<Rightarrow> nat option)
      \<Rightarrow> (string list \<Rightarrow> string list) \<Rightarrow> url_parser \<Rightarrow> string \<Rightarrow> 'g mock_db \<Rightarrow> LogWorker \<Rightarrow> 'g mock_db \<Rightarrow> bool" where
  "fetch_ready fe js gc gget ord url_Parse url db lw db1 \<longleftrightarrow>
     \<not> RunForever (fe_cfg fe) \<and> (\<exists>ls. fe_services fe ls)
     \<and> (\<forall>ls. fe_services fe ls \<longrightarrow> NewLogWorker ls (fe_cfg fe) (fe_db fe) url db = Done (Inr lw, db1))
     \<and> sync_ready (log_env fe url) js gc gget ord url_Parse lw db1"

lemma fetch_ready_Cleanup: "fetch_ready fe js gc gget ord url_Parse url db lw db1 \<Longrightarrow> snd (cd_Cleanup (fe_db fe) d) = d"
  by (simp add: fetch_ready_def sync_ready_def log_env_def filesystem_certdb_def fs_Cleanup_def)

lemma fetch_simulated:
  assumes R: "fetch_ready fe js gc gget ord url_Parse url db lw db1"
    and "fetch_start (fe_cfg fe) [url] db = Done p0" and "fetch_run fe p0 ls p"
  shows "waiting url db p \<and> thread_insertions ls = {}
    \<or> (\<exists>ls' s. sync_run (log_env fe url) (sync_start lw db1) ls' s \<and> matches url p s
      \<and> insertions ls' = thread_insertions ls \<and> (list_all undisturbed ls \<longrightarrow> list_all uninterrupted ls'))"
  using assms(3)
proof induction
  case start
  have "\<not> threads_working (pr_threads p0)"
    using fetch_start_simps [OF assms(2)] by (auto simp: threads_working_def list_ex_iff)
  then show ?case using fetch_start_simps [OF assms(2)] held_idle by (simp add: waiting_def)
next
  case (step ls p l p')
  have rf: "\<not> RunForever (fe_cfg fe)"
    and N: "\<forall>ls. fe_services fe ls \<longrightarrow> NewLogWorker ls (fe_cfg fe) (fe_db fe) url db = Done (Inr lw, db1)"
    using R by (simp_all add: fetch_ready_def)
  note cl = fetch_ready_Cleanup [OF R]
  from step.IH show ?case
  proof
    assume w: "waiting url db p \<and> thread_insertions ls = {}"
    from waiting_step [OF _ step.hyps(2) rf cl N] w show ?thesis using sync_run.start by fastforce
  next
    assume "\<exists>ls' s. sync_run (log_env fe url) (sync_start lw db1) ls' s \<and> matches url p s
      \<and> insertions ls' = thread_insertions ls \<and> (list_all undisturbed ls \<longrightarrow> list_all uninterrupted ls')"
    then obtain ls' s where s: "sync_run (log_env fe url) (sync_start lw db1) ls' s" "matches url p s"
      "list_all undisturbed ls \<longrightarrow> list_all uninterrupted ls'" and ins: "insertions ls' = thread_insertions ls" by blast
    note i = sync_of_insertion [OF step.hyps(2)]
    note m = simulation_step [OF s(2) step.hyps(2) rf cl]
    show ?thesis
    proof (cases "sync_of l")
      case None
      then have "matches url p' s" using m by simp
      then show ?thesis using s ins i None by auto
    next
      case (Some lb)
      then obtain s' where s': "sync_step (log_env fe url) lb s s'" "matches url p' s'" using m by auto
      have ins': "insertions (ls' @ [lb]) = thread_insertions (ls @ [l])" using ins i Some by simp
      have "undisturbed l \<longrightarrow> uninterrupted lb" using Some by (cases l) auto
      then have "list_all undisturbed (ls @ [l]) \<longrightarrow> list_all uninterrupted (ls' @ [lb])" using s(3) by simp
      then show ?thesis using sync_run.step [OF s(1) s'(1)] s'(2) ins' by blast
    qed
  qed
qed

section \<open>Reaching the end\<close>

text \<open>The steps that are not retries, saves or interruptions.\<close>

definition advancing :: "fetch_label \<Rightarrow> bool" where
  "advancing l \<longleftrightarrow> (case sync_of l of Some lb \<Rightarrow> productive lb | None \<Rightarrow> True)"

text \<open>And with every look at the clock at one time.\<close>

definition advancing_at :: "gotime \<Rightarrow> fetch_label \<Rightarrow> bool" where
  "advancing_at t l \<longleftrightarrow> (case sync_of l of Some lb \<Rightarrow> productive lb \<and> at_time t lb | None \<Rightarrow> True)"

lemma advancing_at: "advancing_at t l \<Longrightarrow> advancing l"
  by (simp add: advancing_at_def advancing_def split: option.splits)

fun thread_rank :: "insert_thread \<Rightarrow> nat" where
  "thread_rank Spawned = 2"
| "thread_rank Ranging = 1"
| "thread_rank (Inserting e) = 1"
| "thread_rank Finished = 0"

fun main_rank :: "main_pc \<Rightarrow> nat" where
  "main_rank AwaitDownloaders = 3"
| "main_rank AwaitDisplay = 2"
| "main_rank AwaitThreads = 1"
| "main_rank Exited = 0"

definition shutdown_rank :: "('raw, 'd) process \<Rightarrow> nat" where
  "shutdown_rank p = sum_list (map thread_rank (pr_threads p)) + main_rank (pr_main p)"

lemma thread_rank_update:
  assumes "i < length ts"
  shows "sum_list (map thread_rank (ts[i := t])) + thread_rank (ts ! i) = sum_list (map thread_rank ts) + thread_rank t"
proof -
  have "thread_rank (ts ! i) \<le> sum_list (map thread_rank ts)"
    using elem_le_sum_list [of i "map thread_rank ts"] assms by simp
  then show ?thesis using assms by (simp add: map_update sum_list_update)
qed

lemma shutdown_rank_step:
  assumes "fetch_step fe l p p'" and "matches url p s"
  shows "shutdown_rank p' + of_bool (sync_of l = None) \<le> shutdown_rank p"
  using assms(1)
proof cases
  case (thread_starts i)
  then show ?thesis using thread_rank_update [OF thread_starts(4), of Ranging] by (simp add: shutdown_rank_def)
next
  case (thread_takes i e q)
  then show ?thesis using thread_rank_update [OF thread_takes(4), of "Inserting e"] by (simp add: shutdown_rank_def)
next
  case (thread_inserts i e now health db upd)
  then show ?thesis using thread_rank_update [OF thread_inserts(4), of Ranging] by (simp add: shutdown_rank_def)
next
  case (thread_leaves i)
  then show ?thesis using thread_rank_update [OF thread_leaves(4), of Finished] by (simp add: shutdown_rank_def)
next
  case (log_steps k url lw d lb v)
  then show ?thesis by (simp add: shutdown_rank_def log_back_def)
next
  case (main_stops p'')
  then show ?thesis by (auto simp: shutdown_rank_def LogSyncEngine_Stop_def split: if_splits)
next
  case main_displayed
  then show ?thesis by (simp add: shutdown_rank_def)
next
  case main_exits
  then show ?thesis by (simp add: shutdown_rank_def LogSyncEngine_Cleanup_def split: prod.splits)
qed (use assms(2) in \<open>auto simp: matches_def split: if_splits\<close>)

lemma threads_length_step: "fetch_step fe l p p' \<Longrightarrow> length (pr_threads p') = length (pr_threads p)"
  by (cases rule: fetch_step.cases)
    (auto simp: process_effects split: if_splits prod.splits)

lemma threads_length_run: "fetch_run fe p0 ls p \<Longrightarrow> length (pr_threads p) = length (pr_threads p0)"
  by (induction rule: fetch_run.induct) (auto dest: threads_length_step)

text \<open>Until \<^verbatim>\<open>main\<close> has exited, some thread advances.\<close>

lemma fetch_progress_busy:
  fixes s :: "('raw, 'g mock_db) sync"
  assumes R: "fetch_ready fe js gc gget ord url_Parse url db lw db1"
    and safe: "\<forall>j e. entry_at (log_env fe url) j = Some e \<longrightarrow> worker_safe (log_env fe url) e"
    and s: "sync_run (log_env fe url) (sync_start lw db1) ls' s" "matches url p s"
    and x: "pr_main p \<noteq> Exited" and i: "i < length (pr_threads p)" "pr_threads p ! i = Inserting e"
  shows "\<exists>p'. fetch_step fe (ThreadInserts i e t) p p'"
proof -
  let ?env = "log_env fe url"
  have ready: "sync_ready ?env js gc gget ord url_Parse lw db1" using R by (simp add: fetch_ready_def)
  have "held (pr_threads p) = add_mset e (held ((pr_threads p)[i := Ranging]))"
    using held_update [OF i(1), of Ranging] i(2) by simp
  then have "mset (sy_busy s) = add_mset (cle_LogEntry e) (image_mset cle_LogEntry (held ((pr_threads p)[i := Ranging])))"
    using s(2) by (simp add: matches_def)
  from arg_cong [OF this, of set_mset] have "cle_LogEntry e \<in> pending s" by simp
  then obtain j where "entry_at ?env j = Some (cle_LogEntry e)"
    using ready_inv [OF ready s(1)] by (auto simp: sync_inv_def entry_in_def)
  then have "worker_safe ?env (cle_LogEntry e)" "\<forall>cc. wanted ?env (cle_LogEntry e) = Some cc \<longrightarrow> storable cc"
    using safe ready by (auto simp: sync_ready_def log_ok_def)
  moreover have "mock_inv js gc gget (pr_db p)" using ready_inv [OF ready s(1)] s(2) by (simp add: sync_inv_def matches_def)
  ultimately obtain d' upd where "insert_entry (en_lib ?env) (en_cfg ?env)
      (filesystem_certdb (mock_deps js ord gc url_Parse)) t None (cle_LogURL e) (cle_LogEntry e)
      (pr_db p, pr_lastUpdate p) = Done (d', upd)"
    using mock_certdb.insert_entry_total [of js gc gget "pr_db p" ?env "cle_LogEntry e" ord url_Parse t None
        "cle_LogURL e" "pr_lastUpdate p"] by metis
  then have "insert_entry (fe_lib fe) (fe_cfg fe) (fe_db fe) t None (cle_LogURL e) (cle_LogEntry e)
      (pr_db p, pr_lastUpdate p) = Done (d', upd)"
    using ready by (simp add: sync_ready_def log_env_def)
  from fetch_step.thread_inserts [OF x i this] show ?thesis by blast
qed

text \<open>A step of the download that the threads leave alone is a step of the process.\<close>

lemma download_lifts:
  assumes "matches url p s" and "\<not> sy_done s" and "sy_busy s = []" and "pr_main p \<noteq> Exited"
    and "sync_step (log_env fe url) lb s v" and "download_label lb"
  shows "fetch_step fe (LogSteps 0 lb) p (log_back (fe_cfg fe) 0 url v p)"
proof -
  have "log_view (sy_lw s) (sy_dl s) p = s"
    using log_view_busy [OF assms(1,2)] assms(3) by (simp add: log_view_def)
  moreover have "0 < length (pr_logs p)" "pr_logs p ! 0 = (url, Downloading (sy_lw s) (sy_dl s))"
    using assms(1,2) by (simp_all add: matches_def)
  ultimately show ?thesis using fetch_step.log_steps [OF assms(4) _ _ assms(6)] assms(5) by metis
qed

lemma fetch_progress_log:
  fixes s :: "('raw, 'g mock_db) sync"
  assumes R: "fetch_ready fe js gc gget ord url_Parse url db lw db1"
    and safe: "\<forall>j e. entry_at (log_env fe url) j = Some e \<longrightarrow> worker_safe (log_env fe url) e"
    and s: "sync_run (log_env fe url) (sync_start lw db1) ls' s" "matches url p s"
    and x: "pr_main p \<noteq> Exited" and e: "pr_chan p = []" "held (pr_threads p) = {#}" and d: "\<not> sy_done s"
  shows "\<exists>l p'. fetch_step fe l p p' \<and> advancing_at t l"
proof -
  let ?env = "log_env fe url"
  have ready: "sync_ready ?env js gc gget ord url_Parse lw db1" using R by (simp add: fetch_ready_def)
  obtain lb v where v: "productive lb" "sync_step ?env lb s v" "at_time t lb"
    using mock_certdb.sync_progress [OF ready_inv [OF ready s(1)], of ord url_Parse t] ready safe d
    by (auto simp: sync_ready_def)
  have empty: "sy_chan s = []" "sy_busy s = []" using s(2) e by (simp_all add: matches_def)
  then have l: "download_label lb" using v(2) by (cases lb) (auto elim: sync_TakeE sync_InsertE)
  have "fetch_step fe (LogSteps 0 lb) p (log_back (fe_cfg fe) 0 url v p)"
    by (rule download_lifts [OF s(2) d empty(2) x v(2) l])
  moreover have "advancing_at t (LogSteps 0 lb)" using v(1,3) by (simp add: advancing_at_def)
  ultimately show ?thesis by blast
qed

lemma fetch_progress:
  fixes s :: "('raw, 'g mock_db) sync"
  assumes R: "fetch_ready fe js gc gget ord url_Parse url db lw db1"
    and safe: "\<forall>j e. entry_at (log_env fe url) j = Some e \<longrightarrow> worker_safe (log_env fe url) e"
    and s: "sync_run (log_env fe url) (sync_start lw db1) ls' s" "matches url p s"
    and x: "pr_main p \<noteq> Exited" and I: "shutdown_ok p" and ne: "pr_threads p \<noteq> []"
  shows "\<exists>l p'. fetch_step fe l p p' \<and> advancing_at t l"
proof -
  note J = I [unfolded shutdown_ok_def]
  consider (spawned) i where "i < length (pr_threads p)" "pr_threads p ! i = Spawned"
    | (inserting) i e where "i < length (pr_threads p)" "pr_threads p ! i = Inserting e"
    | (ranging) i where "i < length (pr_threads p)" "pr_threads p ! i = Ranging"
        "\<forall>t \<in> set (pr_threads p). t = Ranging \<or> t = Finished"
    | (finished) "\<forall>t \<in> set (pr_threads p). t = Finished"
    by (metis in_set_conv_nth insert_thread.exhaust)
  then show ?thesis
  proof cases
    case spawned
    from fetch_step.thread_starts [OF x spawned] show ?thesis by (fastforce simp: advancing_at_def)
  next
    case inserting
    from fetch_progress_busy [OF R safe s x inserting, of t] show ?thesis by (fastforce simp: advancing_at_def)
  next
    case ranging
    have h: "held (pr_threads p) = {#}" using ranging(3) by (fastforce simp: held_def)
    show ?thesis
    proof (cases "pr_chan p")
      case (Cons e q)
      from fetch_step.thread_takes [OF x ranging(1,2) Cons] show ?thesis by (fastforce simp: advancing_at_def)
    next
      case Nil
      show ?thesis
      proof (cases "sy_done s")
        case False
        from fetch_progress_log [OF R safe s x Nil h False] show ?thesis .
      next
        case True
        then have "\<forall>(url, t) \<in> set (pr_logs p). t = LeftLoop" using s(2) by (simp add: matches_def)
        then have "pr_main p = AwaitDownloaders \<Longrightarrow> \<exists>p'. fetch_step fe MainStops p p'"
          using fetch_step.main_stops J by (fastforce simp: LogSyncEngine_Stop_def)
        moreover have "pr_main p \<noteq> AwaitDownloaders \<Longrightarrow> \<exists>p'. fetch_step fe (ThreadLeaves i) p p'"
          using fetch_step.thread_leaves [OF x ranging(1,2) Nil] J by fastforce
        ultimately show ?thesis using x by (cases "pr_main p") (fastforce simp: advancing_at_def)+
      qed
    qed
  next
    case finished
    then have "Finished \<in> set (pr_threads p)" using ne by (cases "pr_threads p") auto
    then have "pr_main p = AwaitDisplay \<and> pr_cancelled p \<or> pr_main p = AwaitThreads" using J x by (cases "pr_main p") auto
    moreover have "\<not> threads_working (pr_threads p)" using finished by (auto simp: threads_working_def list_ex_iff)
    ultimately have "(\<exists>p'. fetch_step fe MainDisplayed p p') \<or> (\<exists>p'. fetch_step fe MainExits p p')"
      using fetch_step.main_displayed fetch_step.main_exits by blast
    then show ?thesis by (fastforce simp: advancing_at_def)
  qed
qed

text \<open>Runs compose.\<close>

lemma fetch_run_Cons: "fetch_run fe p1 ls p2 \<Longrightarrow> fetch_step fe l p p1 \<Longrightarrow> fetch_run fe p (l # ls) p2"
proof (induction rule: fetch_run.induct)
  case start
  then show ?case using fetch_run.step [OF fetch_run.start] by fastforce
next
  case (step ls p2 l' p2')
  then show ?case using fetch_run.step [of fe p "l # ls" p2 l' p2'] by simp
qed

lemma fetch_run_append: "fetch_run fe p1 ls' p2 \<Longrightarrow> fetch_run fe p ls p1 \<Longrightarrow> fetch_run fe p (ls @ ls') p2"
proof (induction rule: fetch_run.induct)
  case (step ls' p2 l' p2')
  then show ?case using fetch_run.step [of fe p "ls @ ls'" p2 l' p2'] by simp
qed simp

lemma fetch_ends_matched:
  fixes s :: "('raw, 'g mock_db) sync"
  assumes R: "fetch_ready fe js gc gget ord url_Parse url db lw db1"
    and safe: "\<forall>j e. entry_at (log_env fe url) j = Some e \<longrightarrow> worker_safe (log_env fe url) e"
    and s: "sync_run (log_env fe url) (sync_start lw db1) ls' s" "matches url p s"
    and I: "shutdown_ok p" and ne: "pr_threads p \<noteq> []"
  shows "\<exists>ls p'. fetch_run fe p ls p' \<and> pr_main p' = Exited \<and> list_all (advancing_at t) ls"
  using s I ne
proof (induction "potential s + shutdown_rank p" arbitrary: ls' s p rule: less_induct)
  case less
  show ?case
  proof (cases "pr_main p = Exited")
    case True
    then show ?thesis using fetch_run.start by fastforce
  next
    case False
    from fetch_progress [OF R safe less.prems(1,2) False less.prems(3,4)]
    obtain l p1 where st: "fetch_step fe l p p1" "advancing_at t l" by blast
    have ready: "sync_ready (log_env fe url) js gc gget ord url_Parse lw db1" and rf: "\<not> RunForever (fe_cfg fe)"
      using R by (simp_all add: fetch_ready_def)
    have p1: "shutdown_ok p1" "pr_threads p1 \<noteq> []"
      using shutdown_ok_step [OF st(1) less.prems(3)] threads_length_step [OF st(1)] less.prems(4) by auto
    note m = simulation_step [OF less.prems(2) st(1) rf fetch_ready_Cleanup [OF R]]
    have "\<exists>ls1 s1. sync_run (log_env fe url) (sync_start lw db1) ls1 s1 \<and> matches url p1 s1
      \<and> potential s1 + shutdown_rank p1 < potential s + shutdown_rank p"
    proof (cases "sync_of l")
      case None
      then have "matches url p1 s" using m by simp
      moreover have "shutdown_rank p1 < shutdown_rank p" using shutdown_rank_step [OF st(1) less.prems(2)] None by simp
      ultimately show ?thesis using less.prems(1) by fastforce
    next
      case (Some lb)
      then obtain s1 where s1: "sync_step (log_env fe url) lb s s1" "matches url p1 s1" using m by auto
      have "potential s1 < potential s"
        using mock_certdb.potential_step [OF ready_inv [OF ready less.prems(1)] s1(1)] ready st(2) Some
        by (simp add: sync_ready_def advancing_at_def)
      moreover have "shutdown_rank p1 \<le> shutdown_rank p" using shutdown_rank_step [OF st(1) less.prems(2)] Some by simp
      ultimately show ?thesis using sync_run.step [OF less.prems(1) s1(1)] s1(2) add_less_le_mono by blast
    qed
    then obtain ls1 s1 where s1: "sync_run (log_env fe url) (sync_start lw db1) ls1 s1" "matches url p1 s1"
        "potential s1 + shutdown_rank p1 < potential s + shutdown_rank p" by blast
    obtain ls p' where "fetch_run fe p1 ls p'" "pr_main p' = Exited" "list_all (advancing_at t) ls"
      using less.hyps [OF s1(3,1,2) p1] by blast
    then show ?thesis using fetch_run_Cons [OF _ st(1)] st(2) by (metis list.pred_inject(2))
  qed
qed

lemma fetch_ends:
  assumes R: "fetch_ready fe js gc gget ord url_Parse url db lw db1"
    and safe: "\<forall>j e. entry_at (log_env fe url) j = Some e \<longrightarrow> worker_safe (log_env fe url) e"
    and st: "fetch_start (fe_cfg fe) [url] db = Done p0" and n: "0 < NumThreads (fe_cfg fe)" and run: "fetch_run fe p0 ls p"
  shows "\<exists>ls' p'. fetch_run fe p ls' p' \<and> pr_main p' = Exited \<and> list_all (advancing_at t) ls'"
proof -
  note I = shutdown_ok_run [OF run st]
  have ne: "pr_threads p \<noteq> []"
    using threads_length_run [OF run] fetch_start_simps(2) [OF st] n by auto
  from fetch_simulated [OF R st run] show ?thesis
  proof
    assume "waiting url db p \<and> thread_insertions ls = {}"
    then have w: "waiting url db p" by blast
    have "pr_main p = AwaitDownloaders" using w I by (cases "pr_main p") (auto simp: waiting_def shutdown_ok_def)
    then have x: "pr_main p \<noteq> Exited" by simp
    have rf: "\<not> RunForever (fe_cfg fe)"
      and N: "\<forall>ls. fe_services fe ls \<longrightarrow> NewLogWorker ls (fe_cfg fe) (fe_db fe) url (pr_db p) = Done (Inr lw, db1)"
      using R w by (simp_all add: fetch_ready_def waiting_def)
    obtain ls where ls: "fe_services fe ls" using R by (auto simp: fetch_ready_def)
    then have N1: "NewLogWorker ls (fe_cfg fe) (fe_db fe) url (pr_db p) = Done (Inr lw, db1)" using N by blast
    have "0 < length (pr_logs p)" "pr_logs p ! 0 = (url, BeforeSync)" using w by (simp_all add: waiting_def)
    from fetch_step.log_begins [OF x this ls N1] obtain p1 where p1: "fetch_step fe (LogBegins 0) p p1"
      "pr_logs p1 \<noteq> [(url, BeforeSync)]"
      using w rf by (auto simp: waiting_def SyncLog_begin_def after_sync_def)
    have "matches url p1 (sync_start lw db1)"
      using waiting_step [OF w p1(1) rf fetch_ready_Cleanup [OF R]] N w p1(2) by (auto simp: waiting_def)
    moreover have "shutdown_ok p1" "pr_threads p1 \<noteq> []"
      using shutdown_ok_step [OF p1(1) I] threads_length_step [OF p1(1)] ne by auto
    ultimately obtain ls' p' where "fetch_run fe p1 ls' p'" "pr_main p' = Exited" "list_all (advancing_at t) ls'"
      using fetch_ends_matched [OF R safe sync_run.start] by blast
    moreover have "advancing_at t (LogBegins 0)" by (simp add: advancing_at_def)
    ultimately show ?thesis using fetch_run_Cons [OF _ p1(1)] by (metis list.pred_inject(2))
  next
    assume "\<exists>ls' s. sync_run (log_env fe url) (sync_start lw db1) ls' s \<and> matches url p s
      \<and> insertions ls' = thread_insertions ls \<and> (list_all undisturbed ls \<longrightarrow> list_all uninterrupted ls')"
    then show ?thesis using fetch_ends_matched [OF R safe _ _ I ne] by blast
  qed
qed

lemma download_run_lifts:
  fixes s :: "('raw, 'g mock_db) sync"
  assumes R: "fetch_ready fe js gc gget ord url_Parse url db lw db1"
    and p: "matches url p (sync_start lw db1 :: ('raw, 'g mock_db) sync)" "pr_main p = AwaitDownloaders"
    and run: "sync_run (log_env fe url) (sync_start lw db1) ls s" and "list_all download_label ls"
  shows "\<exists>p'. fetch_run fe p (map (LogSteps 0) ls) p' \<and> matches url p' s \<and> sy_busy s = []
    \<and> pr_threads p' = pr_threads p \<and> pr_main p' = AwaitDownloaders"
  using run assms(5)
proof (induction rule: sync_run.induct)
  case start
  then show ?case using p fetch_run.start by (fastforce simp: sync_start_def)
next
  case (step ls s l s')
  then obtain p' where p': "fetch_run fe p (map (LogSteps 0) ls) p'" "matches url p' s" "sy_busy s = []"
      "pr_threads p' = pr_threads p" "pr_main p' = AwaitDownloaders" by auto
  have l: "download_label l" using step.prems by simp
  have ready: "sync_ready (log_env fe url) js gc gget ord url_Parse lw db1" and rf: "\<not> RunForever (fe_cfg fe)"
    using R by (simp_all add: fetch_ready_def)
  have "\<not> sy_done s"
    using step.hyps(2) l ready_inv [OF ready step.hyps(1)]
    by cases (auto simp: sync_inv_def returned_def)
  then have st: "fetch_step fe (LogSteps 0 l) p' (log_back (fe_cfg fe) 0 url s' p')"
    using download_lifts [OF p'(2) _ p'(3) _ step.hyps(2) l] p'(5) by simp
  have e: "0 < length (pr_logs p')" "pr_logs p' ! 0 = (url, Downloading (sy_lw s) (sy_dl s))"
    using p'(2) \<open>\<not> sy_done s\<close> by (simp_all add: matches_def)
  have "log_view (sy_lw s) (sy_dl s) p' = s"
    using log_view_busy [OF p'(2) \<open>\<not> sy_done s\<close>] p'(3) by (simp add: log_view_def)
  moreover have "sync_step (log_env fe url) l s t \<Longrightarrow> sy_busy t = []" for t
    using download_step [OF _ l] p'(3) by fastforce
  ultimately have "sy_busy s' = []" using step.hyps(2) by blast
  moreover have "matches url (log_back (fe_cfg fe) 0 url s' p') s'"
    using p'(2) \<open>\<not> sy_done s\<close> download_step [OF step.hyps(2) l] rf \<open>sy_busy s' = []\<close> p'(3)
    by (auto simp: matches_def log_back_def after_sync_def split: if_splits)
  moreover have "fetch_run fe p (map (LogSteps 0) (ls @ [l])) (log_back (fe_cfg fe) 0 url s' p')"
    using fetch_run.step [OF p'(1) st] by simp
  ultimately show ?case using p'(4,5) by (intro exI conjI) (assumption | simp add: log_back_def)+
qed

end
