(* ===== verification/Log_Positions.thy ===== *)
theory Log_Positions
  imports Cert_Database
begin

text \<open>
  The state that a database gives back for a log, and with it the position where the next download
  begins, as a function of the database: which operations change it and which do not.
\<close>

section \<open>The contract\<close>

text \<open>
  \<open>loaded\<close> is the state that \<^verbatim>\<open>GetLogState\<close> returns for a URL, a blank one where nothing
  is known.
\<close>

locale log_database = reliable_database cd inv saved stored
  for cd :: "'d CertDatabase" and inv and saved and stored +
  fixes loaded :: "'d \<Rightarrow> string \<Rightarrow> CertificateLog"
  assumes Load_law: "inv d \<Longrightarrow> cd_GetLogState cd host path d = Done ((l, er), d') \<Longrightarrow>
      l = loaded d (host @ path) \<and> inv d' \<and> stored d' = stored d \<and> (\<forall>u. log_key u \<longrightarrow> loaded d' u = loaded d u)"
  and Save_loaded: "inv d \<Longrightarrow> log_key (ShortURL l) \<Longrightarrow> json_state l \<Longrightarrow> cd_SaveLogState cd l d = Done (er, d') \<Longrightarrow>
      \<forall>u. log_key u \<longrightarrow> loaded d' u = (if u = ShortURL l then l else loaded d u)"
  and Store_loaded: "inv d \<Longrightarrow> storable (c, ca) \<Longrightarrow> cd_Store cd c ca url i d = Done (er, d') \<Longrightarrow>
      \<forall>u. log_key u \<longrightarrow> loaded d' u = loaded d u"
  and Cleanup_law: "inv d \<Longrightarrow> cd_Cleanup cd d = (er, d') \<Longrightarrow>
      inv d' \<and> stored d' = stored d \<and> (\<forall>u. log_key u \<longrightarrow> loaded d' u = loaded d u)"

section \<open>The filesystem database on the in-memory cache and backend\<close>

text \<open>The state in the cache, if there is one, and otherwise the one in the backend.\<close>

definition loaded_log :: "log_json \<Rightarrow> 'g mock_db \<Rightarrow> string \<Rightarrow> CertificateLog" where
  "loaded_log js db u =
     (case fst (fst (Mock_LoadLogState js u (snd (extCache db)))) of
        Some l \<Rightarrow> l
      | None \<Rightarrow>
          (case fst (fst (MB_LoadLogState js u (fs_backend db))) of Some l \<Rightarrow> l | None \<Rightarrow> blank_log u))"

lemma LoadLogState_keeps [simp]:
  "snd (Mock_LoadLogState js u ec) = ec" "snd (MB_LoadLogState js u st) = st"
  by (auto simp: Mock_LoadLogState_def MB_LoadLogState_def split: option.splits sum.splits)

lemma GetLogState_loaded:
  fixes db :: "'g mock_db"
  assumes "GetLogState (mock_deps js ord gc url_Parse) host path db = Done ((l, er), db')"
  shows "l = loaded_log js db (host @ path) \<and> db' = db"
proof -
  obtain r er1 where c: "Mock_LoadLogState js (host @ path) (snd (extCache db)) = ((r, er1), snd (extCache db))"
    by (metis LoadLogState_keeps(1) prod.collapse)
  obtain r2 er2 where b: "MB_LoadLogState js (host @ path) (fs_backend db) = ((r2, er2), fs_backend db)"
    by (metis LoadLogState_keeps(2) prod.collapse)
  show ?thesis
    using assms c b
    by (cases r; cases r2) (auto simp: GetLogState_def mock_cache_def untimed_def mock_backend_def loaded_log_def Let_def)
qed

lemma Mock_LoadLogState_list:
  "fst (fst (Mock_LoadLogState js u ec)) =
     (case gm_list (Data ec) u of
        [s] \<Rightarrow> (case json_Unmarshal_value js s of Inr l \<Rightarrow> Some l | Inl err \<Rightarrow> None)
      | _ \<Rightarrow> None)"
  by (auto simp: Mock_LoadLogState_def gm_list_def length_Suc_conv split: option.splits sum.splits list.splits)

lemma loaded_log_cong:
  assumes "gm_list (Data (snd (extCache db'))) u = gm_list (Data (snd (extCache db))) u"
    and "gm_get (mb_store (fs_backend db')) (''logstate'' @ u) = gm_get (mb_store (fs_backend db)) (''logstate'' @ u)"
  shows "loaded_log js db' u = loaded_log js db u"
proof -
  have "fst (fst (MB_LoadLogState js u (fs_backend db'))) = fst (fst (MB_LoadLogState js u (fs_backend db)))"
    using assms(2) by (simp add: MB_LoadLogState_def split: option.splits)
  then show ?thesis unfolding loaded_log_def Mock_LoadLogState_list assms(1) by (simp only:)
qed

text \<open>\<^verbatim>\<open>Store\<close> reaches the backend through three of its operations only.\<close>

lemma store_finish_backend:
  assumes "store_finish deps aCert db = Done (err, db')" and "Q (fs_backend db)"
    and "\<And>s b. Q b \<Longrightarrow> Q (snd (sb_MarkDirty (dep_backend deps) s b))"
  shows "Q (fs_backend db')"
  using assms(1) assms(3) [OF assms(2)]
  by (auto simp: store_finish_def markDirty_def Let_def split: prod.splits dest: spec) (metis snd_conv)

lemma store_unknown_backend:
  assumes st: "store_unknown deps aCert e i n db = Done (err, db')" and q: "Q (fs_backend db)"
    and m: "\<And>s b. Q b \<Longrightarrow> Q (snd (sb_MarkDirty (dep_backend deps) s b))"
    and a: "\<And>b. Q b \<Longrightarrow> Q (snd (sb_AllocateExpDateAndIssuer (dep_backend deps) e i b))"
    and p: "\<And>t b. Q b \<Longrightarrow> Q (snd (sb_StoreCertificatePEM (dep_backend deps) n e i t b))"
  shows "Q (fs_backend db')"
proof -
  obtain im db0 where g: "GetIssuerMetadata i db = (im, db0)" by fastforce
  have b0: "fs_backend db0 = fs_backend db" using g by (auto simp: GetIssuerMetadata_def Let_def split: option.splits)
  obtain seen er im' c where ac: "Accumulate (dep_url deps) (dep_cache deps) (im_heap db0 ! im) aCert (extCache db0) = Done ((seen, er), im', c)"
    using st by (auto simp: store_unknown_def g outcome_bind_Done_iff)
  define db1 where "db1 = db0\<lparr>im_heap := (im_heap db0)[im := im'], extCache := c\<rparr>"
  have b1: "fs_backend db1 = fs_backend db0" by (simp add: db1_def)
  obtain ea b1' where al: "(if \<not> seen then sb_AllocateExpDateAndIssuer (dep_backend deps) e i (fs_backend db0)
      else (None, fs_backend db0)) = (ea, b1')" by fastforce
  have q1: "Q b1'"
  proof (cases seen)
    case False
    then have "b1' = snd (sb_AllocateExpDateAndIssuer (dep_backend deps) e i (fs_backend db))" using al b0 by simp
    then show ?thesis using a [OF q] by simp
  qed (use al q b0 in auto)
  obtain es b2 where sp: "sb_StoreCertificatePEM (dep_backend deps) n e i (pem_EncodeToMemory ''CERTIFICATE'' (Raw aCert)) b1'
      = (es, b2)" by fastforce
  have q2: "Q b2" using p [OF q1, of "pem_EncodeToMemory ''CERTIFICATE'' (Raw aCert)"] sp by simp
  have "db' = db1 \<or> db' = db1\<lparr>fs_backend := b1'\<rparr> \<or> db' = db1\<lparr>fs_backend := b2\<rparr>
    \<or> store_finish deps aCert (db1\<lparr>fs_backend := b2\<rparr>) = Done (err, db')"
    using st ac al sp
    by (cases seen; cases er; cases ea; cases es) (simp_all add: store_unknown_def g Let_def db1_def)
  then show ?thesis
  proof (elim disjE)
    assume "store_finish deps aCert (db1\<lparr>fs_backend := b2\<rparr>) = Done (err, db')"
    then show ?thesis by (rule store_finish_backend [where Q = Q]) (use q2 m in simp_all)
  qed (use q q1 q2 b0 b1 in simp_all)
qed

lemma Store_backend:
  assumes st: "Store deps aCert aIssuer url entry db = Done (err, db')" and q: "Q (fs_backend db)"
    and m: "\<And>s b. Q b \<Longrightarrow> Q (snd (sb_MarkDirty (dep_backend deps) s b))"
    and a: "\<And>e i b. Q b \<Longrightarrow> Q (snd (sb_AllocateExpDateAndIssuer (dep_backend deps) e i b))"
    and p: "\<And>n e i t b. Q b \<Longrightarrow> Q (snd (sb_StoreCertificatePEM (dep_backend deps) n e i t b))"
  shows "Q (fs_backend db')"
proof -
  define e i where "e = NewExpDateFromTime (NotAfter aCert)" and "i = NewIssuer aIssuer"
  obtain k db0 where k: "GetKnownCertificates (dep_known deps) e i db = Done (k, db0)"
    using st by (auto simp: Store_def Let_def outcome_bind_Done_iff e_def i_def)
  have b0: "fs_backend db0 = fs_backend db"
    using k by (auto simp: GetKnownCertificates_def Let_def split: prod.splits sum.splits option.splits if_splits)
  obtain n w er kc' c where u: "NewSerial aCert = Done n"
      "WasUnknown (dep_cache deps) (kc_heap db0 ! k) n (extCache db0) = Done ((w, er), kc', c)"
    using st k by (auto simp: Store_def Let_def outcome_bind_Done_iff e_def [symmetric] i_def [symmetric])
  define db1 where "db1 = db0\<lparr>kc_heap := (kc_heap db0)[k := kc'], extCache := c\<rparr>"
  have q1: "Q (fs_backend db1)" using q b0 by (simp add: db1_def)
  have "db' = db1 \<or> store_unknown deps aCert e i n db1 = Done (err, db') \<or> store_finish deps aCert db1 = Done (err, db')"
    using st k u
    by (auto simp: Store_def Let_def e_def [symmetric] i_def [symmetric] db1_def split: option.splits if_splits)
  then show ?thesis
  proof (elim disjE)
    assume "store_unknown deps aCert e i n db1 = Done (err, db')"
    then show ?thesis by (rule store_unknown_backend [where Q = Q]) (use q1 m a p in simp_all)
  next
    assume "store_finish deps aCert db1 = Done (err, db')"
    then show ?thesis by (rule store_finish_backend [where Q = Q]) (use q1 m in simp_all)
  qed (use q1 in simp)
qed

lemma MB_Allocate_store: "mb_store (snd (MB_AllocateExpDateAndIssuer e i st)) = mb_store st"
  by (simp add: MB_AllocateExpDateAndIssuer_def Let_def)

lemma Store_loaded_log:
  fixes db :: "'g mock_db"
  assumes "gcache_laws gc held" and "db_inv held db" and "storable (c, ca)" and u: "log_key u"
    and st: "Store (mock_deps js ord gc url_Parse) c ca url i db = Done (er, db')"
  shows "loaded_log js db' u = loaded_log js db u"
proof (rule loaded_log_cong)
  obtain db2 where s: "Store (mock_deps js ord gc url_Parse) c ca url i db = Done (None, db2)" "db_inv held db2"
      "\<And>k. log_key k \<Longrightarrow> mock_contents (snd (extCache db2)) k = mock_contents (snd (extCache db)) k"
  proof -
    obtain n where t: "t_off (NotAfter c) = 0" "year_4_digits (NotAfter c)" and n: "NewSerial c = Done n"
      using assms(3) by (auto simp: storable_def split: outcome.splits)
    show ?thesis by (rule Store_mock [OF assms(1,2) t n, of js ord url_Parse ca url i]) (rule that)
  qed
  then have "db2 = db'" using st by simp
  then show "gm_list (Data (snd (extCache db'))) u = gm_list (Data (snd (extCache db))) u"
    using gm_list_contents [OF db_inv_world [OF assms(2)] db_inv_world [OF s(2)] s(3) [OF u]] by simp
  let ?Q = "\<lambda>b :: MockBackend. gm_get (mb_store b) (''logstate'' @ u) = gm_get (mb_store (fs_backend db)) (''logstate'' @ u)"
  show "?Q (fs_backend db')"
  proof (rule Store_backend [OF st, where Q = ?Q])
    fix n e i t and b :: MockBackend assume "?Q b"
    moreover have "''logstate'' @ u \<noteq> pem_key e i n" by (simp add: pem_key_def)
    ultimately show "?Q (snd (sb_StoreCertificatePEM (dep_backend (mock_deps js ord gc url_Parse)) n e i t b))"
      by (simp add: mock_backend_def MB_StoreCertificatePEM_def Let_def)
  qed (simp_all add: mock_backend_def MB_MarkDirty_def MB_Allocate_store)
qed

lemma Save_loaded_log:
  fixes db :: "'g mock_db"
  assumes "codec_laws js" and "json_state l" and "SaveLogState (mock_deps js ord gc url_Parse) l db = Done (er, db')"
  shows "loaded_log js db' u = (if u = ShortURL l then l else loaded_log js db u)"
proof -
  obtain s where s: "json_Marshal js l = Inr s" "json_Unmarshal_value js s = Inr l"
    using assms(1,2) by (auto simp: codec_laws_def)
  have d: "Data (snd (extCache db')) = gm_set (ShortURL l) [s] (Data (snd (extCache db)))"
    "mb_store (fs_backend db') = gm_set (''logstate'' @ ShortURL l) s (mb_store (fs_backend db))"
    using assms(3)
    by (auto simp: SaveLogState_def mock_cache_def untimed_def Mock_StoreLogState_def s mock_backend_def MB_StoreLogState_def)
  show ?thesis
  proof (cases "u = ShortURL l")
    case True
    then show ?thesis by (simp add: loaded_log_def Mock_LoadLogState_list d gm_list_def s)
  next
    case False
    then have "loaded_log js db' u = loaded_log js db u"
      by (intro loaded_log_cong) (simp_all add: d gm_list_def)
    then show ?thesis using False by simp
  qed
qed

interpretation mock_logdb: log_database
  "filesystem_certdb (mock_deps js ord gc url_Parse)" "mock_inv js gc held" "saved_log js" stored_text "loaded_log js"
proof (unfold_locales, goal_cases)
  case (1 d host path l er d')
  then show ?case using GetLogState_loaded [of js ord gc url_Parse host path d l er d'] by (simp add: filesystem_certdb_def)
next
  case (2 d l er d')
  then show ?case
    using Save_loaded_log [of js l ord gc url_Parse d er d'] by (simp add: filesystem_certdb_def mock_inv_def)
next
  case (3 d c ca url i er d')
  then show ?case
    using Store_loaded_log [of gc held d c ca _ js ord url_Parse url i er d'] by (simp add: filesystem_certdb_def mock_inv_def)
next
  case (4 d er d')
  then show ?case by (simp add: filesystem_certdb_def fs_Cleanup_def)
qed

end
