(* ===== verification/Fetch_Logs.thy ===== *)
theory Fetch_Logs
  imports Fetch_Shutdown Log_Positions
begin

text \<open>
  The process of \<^verbatim>\<open>ct-fetch\<close> with any number of logs, polling or not: the invariant that no
  entry before a saved position is lost, whatever the threads of the logs do to the channel and the
  database that they share.
\<close>

section \<open>The invariant\<close>

text \<open>The entries that are in the channel or that an insert thread holds.\<close>

definition in_hand :: "('raw, 'd) process \<Rightarrow> LogEntry set" where
  "in_hand p = cle_LogEntry ` (set (pr_chan p) \<union> set_mset (held (pr_threads p)))"

text \<open>A log state with a position that fits the numbers it is converted to.\<close>

definition state_ok :: "string \<Rightarrow> CertificateLog \<Rightarrow> bool" where
  "state_ok u l \<longleftrightarrow> ShortURL l = u \<and> 0 \<le> MaxEntry l \<and> MaxEntry l < 2 ^ 63 \<and> json_time (LastEntryTime l)"

text \<open>A download that begins past the end position has returned at once.\<close>

definition dl_ok :: "('raw, 'd) sync_env \<Rightarrow> LogWorker \<Rightarrow> 'raw download \<Rightarrow> bool" where
  "dl_ok env lw d \<longleftrightarrow> download_ok env lw d
     \<or> lw_EndPos lw < lw_StartPos lw \<and> dl_index d = lw_StartPos lw \<and> dl_last d = None \<and> dl_pc d = Returned None"

definition thread_ok ::
    "('raw, 'd) sync_env \<Rightarrow> string \<Rightarrow> nat \<Rightarrow> LogEntry set \<Rightarrow> 'raw log_thread \<Rightarrow> bool" where
  "thread_ok env u a P t \<longleftrightarrow>
     (case t of
        Downloading lw d \<Rightarrow>
          ShortURL (lw_LogState lw) = u \<and> json_time (LastEntryTime (lw_LogState lw))
          \<and> unat (lw_StartPos lw) < 2 ^ 63 \<and> unat (lw_EndPos lw) < 2 ^ 63
          \<and> dl_ok env lw d \<and> a \<le> unat (dl_index d) \<and> accounted env a (unat (dl_index d)) P
      | _ \<Rightarrow> True)"

text \<open>
  One log, whose position was \<open>a\<close> at the start of the process, and is now in \<open>l\<close>: the entries
  between the two, and up to the index of the download that runs, are in \<open>P\<close>.
\<close>

definition log_inv ::
    "('raw, 'd) sync_env \<Rightarrow> string \<Rightarrow> nat \<Rightarrow> LogEntry set \<Rightarrow> CertificateLog \<Rightarrow> 'raw log_thread \<Rightarrow> bool" where
  "log_inv env u a P l t \<longleftrightarrow>
     state_ok u l \<and> a \<le> nat (MaxEntry l) \<and> accounted env a (nat (MaxEntry l)) P \<and> thread_ok env u a P t"

text \<open>
  What the theorem asks of the configuration and the services: \<open>site\<close> gives the short URL of a log;
  two logs do not share one, no offset is configured, and tree sizes are below \<open>2 ^ 63\<close>.
\<close>

definition fleet_ok :: "('raw, 'd) fetch_env \<Rightarrow> (string \<Rightarrow> string) \<Rightarrow> string list \<Rightarrow> bool" where
  "fleet_ok fe site urls \<longleftrightarrow>
     distinct (map site urls) \<and> cfg_Offset (fe_cfg fe) = 0
     \<and> (\<forall>url \<in> set urls. log_key (site url) \<and> log_ok (log_env fe url)
         \<and> (\<forall>ls h q t. fe_services fe ls \<longrightarrow> (ls_url ls url = Inr (h, q) \<longrightarrow> h @ q = site url)
              \<and> (ls_TreeSize ls url = Inr t \<longrightarrow> unat t < 2 ^ 63)))"

text \<open>\<open>R\<close> are the insertions so far.\<close>

definition fleet_inv ::
    "('d \<Rightarrow> bool) \<Rightarrow> ('d \<Rightarrow> cert_key \<Rightarrow> string option) \<Rightarrow> ('d \<Rightarrow> string \<Rightarrow> CertificateLog)
      \<Rightarrow> ('raw, 'd) fetch_env \<Rightarrow> (string \<Rightarrow> string) \<Rightarrow> string list \<Rightarrow> 'd \<Rightarrow> (LogEntry \<times> gotime) set
      \<Rightarrow> ('raw, 'd) process \<Rightarrow> bool" where
  "fleet_inv valid stored loaded fe site urls d0 R p \<longleftrightarrow>
     valid (pr_db p) \<and> map fst (pr_logs p) = urls
     \<and> (\<forall>e \<in> in_hand p. \<exists>url \<in> set urls. \<exists>j. entry_at (log_env fe url) j = Some e)
     \<and> (\<forall>url. kept (log_env fe url) R (stored (pr_db p)))
     \<and> (\<forall>(url, t) \<in> set (pr_logs p). log_inv (log_env fe url) (site url) (nat (MaxEntry (loaded d0 (site url))))
          (in_hand p \<union> fst ` R) (loaded (pr_db p) (site url)) t)"

lemma fleet_inv_log_inv:
  assumes "fleet_inv valid stored loaded fe site urls d0 R p" and "(url, t) \<in> set (pr_logs p)"
  shows "log_inv (log_env fe url) (site url) (nat (MaxEntry (loaded d0 (site url)))) (in_hand p \<union> fst ` R)
    (loaded (pr_db p) (site url)) t" and "url \<in> set urls"
proof -
  have "\<forall>(url, t) \<in> set (pr_logs p). log_inv (log_env fe url) (site url) (nat (MaxEntry (loaded d0 (site url))))
      (in_hand p \<union> fst ` R) (loaded (pr_db p) (site url)) t" and u: "map fst (pr_logs p) = urls"
    using assms(1) unfolding fleet_inv_def by simp_all
  from bspec [OF this(1) assms(2)] show "log_inv (log_env fe url) (site url) (nat (MaxEntry (loaded d0 (site url))))
      (in_hand p \<union> fst ` R) (loaded (pr_db p) (site url)) t" by (simp only: prod.case)
  show "url \<in> set urls" using assms(2) u by force
qed

section \<open>What other threads do to a log\<close>

lemma wanted_log_env: "wanted (log_env fe url) e = wanted (log_env fe url') e"
  using same_log(1) [of "log_env fe url" "log_env fe url'"] by (simp add: log_env_def)

lemma kept_log_env: "kept (log_env fe url) R has \<Longrightarrow> kept (log_env fe url') R has"
  unfolding kept_def to_store_def wanted_log_env [of fe url _ url'] by (simp add: log_env_def)

lemma log_inv_change: "log_inv env u a P l t \<Longrightarrow> P \<subseteq> P' \<Longrightarrow> log_inv env u a P' l t"
  using accounted_mono [of env _ _ P P'] unfolding log_inv_def thread_ok_def by (cases t) auto

text \<open>The thread of one log moves, and the database and the channel with it.\<close>

lemma logs_update:
  assumes "distinct (map f (map fst ls))" and "k < length ls" and "ls ! k = (url, t)" and "x \<in> set (ls[k := (url, t')])"
  shows "x = (url, t') \<or> x \<in> set ls \<and> f (fst x) \<noteq> f url"
proof -
  obtain i where i: "i < length ls" "x = ls[k := (url, t')] ! i" using assms(4) by (auto simp: in_set_conv_nth)
  show ?thesis
  proof (cases "i = k")
    case False
    then have "x = ls ! i" using i by simp
    moreover have "map f (map fst ls) ! i \<noteq> map f (map fst ls) ! k"
      using nth_eq_iff_index_eq [OF assms(1), of i k] assms(2) i(1) False by simp
    ultimately show ?thesis using i(1) assms(2,3) by simp
  qed (use i in simp)
qed

lemma map_fst_update: "k < length ls \<Longrightarrow> ls ! k = (url, t) \<Longrightarrow> map fst (ls[k := (url, t')]) = map fst ls"
  by (metis fst_conv list_update_id map_update)

lemma fleet_inv_log:
  assumes I: "fleet_inv valid stored loaded fe site urls d0 R p" and ok: "fleet_ok fe site urls"
    and k: "k < length (pr_logs p)" "pr_logs p ! k = (url, t)" and logs: "pr_logs p' = (pr_logs p)[k := (url, t')]"
    and db: "valid (pr_db p')" "stored (pr_db p') = stored (pr_db p)"
    and other: "\<And>u. log_key u \<Longrightarrow> u \<noteq> site url \<Longrightarrow> loaded (pr_db p') u = loaded (pr_db p) u"
    and hand: "in_hand p \<subseteq> in_hand p'" "\<And>e. e \<in> in_hand p' \<Longrightarrow> e \<in> in_hand p \<or> (\<exists>j. entry_at (log_env fe url) j = Some e)"
    and new: "log_inv (log_env fe url) (site url) (nat (MaxEntry (loaded d0 (site url)))) (in_hand p' \<union> fst ` R)
      (loaded (pr_db p') (site url)) t'"
  shows "fleet_inv valid stored loaded fe site urls d0 R p'"
proof -
  note J = I [unfolded fleet_inv_def]
  have urls: "map fst (pr_logs p') = urls" using J map_fst_update [OF k] logs by simp
  have url: "url \<in> set urls" using J k by (metis fst_conv length_map nth_map nth_mem)
  have dist: "distinct (map site (map fst (pr_logs p)))" using J ok by (simp add: fleet_ok_def)
  have "\<exists>url \<in> set urls. \<exists>j. entry_at (log_env fe url) j = Some e" if "e \<in> in_hand p'" for e
    using hand(2) [OF that] J url by blast
  moreover have "log_inv (log_env fe url') (site url') (nat (MaxEntry (loaded d0 (site url')))) (in_hand p' \<union> fst ` R)
      (loaded (pr_db p') (site url')) s" if x: "(url', s) \<in> set (pr_logs p')" for url' s
  proof (cases "site url' = site url")
    case True
    then have "(url', s) = (url, t')" using logs_update [OF dist k, of "(url', s)" t'] x logs by auto
    then show ?thesis using new by simp
  next
    case False
    then have m: "(url', s) \<in> set (pr_logs p)" using logs_update [OF dist k, of "(url', s)" t'] x logs by auto
    then have "url' \<in> set urls" using fleet_inv_log_inv(2) [OF I] by blast
    then have "log_key (site url')" using ok by (simp add: fleet_ok_def)
    then have "loaded (pr_db p') (site url') = loaded (pr_db p) (site url')" using other False by blast
    moreover have "log_inv (log_env fe url') (site url') (nat (MaxEntry (loaded d0 (site url')))) (in_hand p \<union> fst ` R)
        (loaded (pr_db p) (site url')) s" by (rule fleet_inv_log_inv(1) [OF I m])
    from log_inv_change [OF this, of "in_hand p' \<union> fst ` R"]
    have "log_inv (log_env fe url') (site url') (nat (MaxEntry (loaded d0 (site url')))) (in_hand p' \<union> fst ` R)
        (loaded (pr_db p) (site url')) s" using hand(1) by blast
    ultimately show ?thesis by (simp only:)
  qed
  moreover have "\<forall>url. kept (log_env fe url) R (stored (pr_db p'))" using J db(2) by simp
  ultimately show ?thesis using urls db(1) unfolding fleet_inv_def by blast
qed

text \<open>A step that moves no log.\<close>

lemma fleet_inv_rest:
  assumes I: "fleet_inv valid stored loaded fe site urls d0 R p" and ok: "fleet_ok fe site urls"
    and logs: "pr_logs p' = pr_logs p" and db: "valid (pr_db p')" "\<And>url. kept (log_env fe url) R' (stored (pr_db p'))"
    and loaded: "\<And>u. log_key u \<Longrightarrow> loaded (pr_db p') u = loaded (pr_db p) u"
    and hand: "in_hand p' \<subseteq> in_hand p" "in_hand p \<union> fst ` R \<subseteq> in_hand p' \<union> fst ` R'"
  shows "fleet_inv valid stored loaded fe site urls d0 R' p'"
proof -
  note J = I [unfolded fleet_inv_def]
  have "log_inv (log_env fe url) (site url) (nat (MaxEntry (loaded d0 (site url)))) (in_hand p' \<union> fst ` R')
      (loaded (pr_db p') (site url)) t" if m: "(url, t) \<in> set (pr_logs p')" for url t
  proof -
    have m: "(url, t) \<in> set (pr_logs p)" using m by (simp only: logs)
    then have "url \<in> set urls" using fleet_inv_log_inv(2) [OF I] by blast
    then have "loaded (pr_db p') (site url) = loaded (pr_db p) (site url)" using ok loaded by (simp add: fleet_ok_def)
    then show ?thesis using log_inv_change [OF fleet_inv_log_inv(1) [OF I m] hand(2)] by (simp only:)
  qed
  moreover have "\<forall>e \<in> in_hand p'. \<exists>url \<in> set urls. \<exists>j. entry_at (log_env fe url) j = Some e"
    using J hand(1) by blast
  moreover have "map fst (pr_logs p') = urls" using J logs by simp
  ultimately show ?thesis using db unfolding fleet_inv_def by blast
qed

section \<open>What the thread of a log does\<close>

text \<open>Only the positions of a worker matter to its download.\<close>

lemma dl_ok_state [simp]: "dl_ok env (lw\<lparr>lw_LogState := st\<rparr>) d = dl_ok env lw d"
  by (cases "dl_pc d") (simp_all add: dl_ok_def download_ok_def)

lemma dl_ok_index: "dl_ok env lw d \<Longrightarrow> unat (lw_StartPos lw) < 2 ^ 63 \<Longrightarrow> unat (lw_EndPos lw) < 2 ^ 63 \<Longrightarrow>
    unat (dl_index d) < 2 ^ 63 \<and> (\<forall>t. dl_last d = Some t \<longrightarrow> json_time t)"
  by (auto simp: dl_ok_def download_ok_def word_le_nat_alt)

lemma dl_start_index [simp]: "dl_index (dl_start lw) = lw_StartPos lw"
  by (simp add: dl_start_def)

lemma start_pos_nat: "0 \<le> m \<Longrightarrow> m < 2 ^ 63 \<Longrightarrow> unat (word_of_int m :: 64 word) = nat m"
proof -
  assume m: "0 \<le> m" "m < 2 ^ 63"
  then have "(word_of_int m :: 64 word) = word_of_nat (nat m)" by (metis nat_0_le of_int_of_nat_eq)
  moreover have "nat m < 2 ^ 63" using m by (simp add: nat_less_iff)
  ultimately show ?thesis by (simp add: unat_of_nat take_bit_nat_eq_self)
qed

text \<open>A step that does not save: the download moves, and may put the entry at its index into the channel.\<close>

definition advances :: "('raw, 'd) sync_env \<Rightarrow> ('raw, 'd) sync \<Rightarrow> ('raw, 'd) sync \<Rightarrow> bool" where
  "advances env s s' \<longleftrightarrow> at s \<le> at s'
     \<and> (sy_chan s' = sy_chan s \<and> no_entry env (at s) (at s')
      \<or> (\<exists>e. sy_chan s' = sy_chan s @ [e] \<and> entry_at env (at s) = Some e \<and> no_entry env (Suc (at s)) (at s')))"

lemma advances_accounted:
  assumes "advances env s s'" and "accounted env a (at s) P"
  shows "accounted env a (at s') (P \<union> set (sy_chan s'))"
proof -
  from assms(1) consider (same) "no_entry env (at s) (at s')"
    | (sent) e where "e \<in> set (sy_chan s')" "entry_at env (at s) = Some e" "no_entry env (Suc (at s)) (at s')"
    unfolding advances_def by fastforce
  then show ?thesis
  proof cases
    case same
    then show ?thesis using accounted_skip [OF assms(2)] unfolding accounted_def by blast
  next
    case sent
    then show ?thesis
      using accounted_skip [OF accounted_accept [OF assms(2) sent(2)] sent(3)] unfolding accounted_def by blast
  qed
qed

lemma download_advances:
  assumes step: "sync_step env l s s'" and l: "download_label l" "l \<noteq> Tick" "l \<noteq> Finish"
    and d: "dl_ok env (sy_lw s) (sy_dl s)" and E: "unat (lw_EndPos (sy_lw s)) < 2 ^ 63" and ok: "log_ok env"
  shows "advances env s s' \<and> dl_ok env (sy_lw s) (sy_dl s') \<and> sy_lw s' = sy_lw s \<and> sy_db s' = sy_db s \<and> sy_done s' = sy_done s"
proof -
  let ?lw = "sy_lw s"
  have D: "download_ok env ?lw (sy_dl s)" if "\<And>err. dl_pc (sy_dl s) \<noteq> Returned err"
    using d that by (simp add: dl_ok_def)
  show ?thesis
    using step
  proof cases
    case (respond n rs)
    note D = D [unfolded respond(3), simplified]
    have lt: "dl_index (sy_dl s) < lw_EndPos ?lw" using D respond(3) by (simp add: download_ok_def)
    have rs: "rs = map (en_log env) [at s ..< at s + n]" "at s + n \<le> unat (lw_EndPos ?lw)"
      using respond(5) request_max_bounds(2) [OF lt E] by (simp_all add: served_def)
    have b: "lw_StartPos ?lw \<le> dl_index (sy_dl s)" "\<forall>t. dl_last (sy_dl s) = Some t \<longrightarrow> json_time t"
      using D by (simp_all add: download_ok_def)
    note n = dl_entries_ok [OF rs(1) _ rs(2) E b]
    show ?thesis using n by (simp add: respond(2) advances_def dl_ok_def word_le_nat_alt)
  next
    case (fail err)
    note D = D [unfolded fail(3), simplified]
    have "download_ok env ?lw (dl_failed ?lw err (sy_dl s))" "dl_index (dl_failed ?lw err (sy_dl s)) = dl_index (sy_dl s)"
      using D by (auto simp: dl_failed_def download_ok_def loop_head_def)
    then show ?thesis by (simp add: fail(2) advances_def dl_ok_def no_entry_def)
  next
    case (accept e rest)
    note D = D [unfolded accept(3), simplified]
    have e: "entry_at env (at s) = Some e" using D accept(3) by (simp add: download_ok_def)
    obtain m where m: "at s < m" "m \<le> unat (lw_EndPos ?lw)" "rest = map (en_log env) [Suc (at s) ..< m]"
      using D accept(3) by (auto simp: download_ok_def)
    let ?d = "(sy_dl s)\<lparr>dl_last := Some (uint64ToTimestamp (en_zone env) (le_Timestamp e)), dl_index := dl_index (sy_dl s) + 1\<rparr>"
    have suc: "unat (dl_index (sy_dl s) + 1) = Suc (at s)"
      using m(1,2) by (intro unat_index_Suc [of _ "lw_EndPos ?lw"]) (simp add: word_less_nat_alt)
    have t: "\<forall>t. dl_last ?d = Some t \<longrightarrow> json_time t" using ok e by (auto simp: log_ok_def)
    have b: "lw_StartPos ?lw \<le> dl_index ?d" using D suc by (simp add: word_le_nat_alt download_ok_def)
    have rest: "rest = map (en_log env) [unat (dl_index ?d) ..< m]" "unat (dl_index ?d) \<le> m" using m suc by simp_all
    note n = dl_entries_ok [OF rest m(2) E b t]
    show ?thesis
      using n suc e by (simp add: accept(2) advances_def dl_ok_def dl_accepted_def Let_def word_le_nat_alt)
  next
    case (signal e rest)
    note D = D [unfolded signal(3), simplified]
    show ?thesis
      using D by (simp add: signal(2) advances_def dl_ok_def dl_signal_def download_ok_def no_entry_def)
  qed (use l in simp_all)
qed

lemma save_step:
  assumes "sync_step env l s v" and "l = Tick \<or> l = Finish"
  shows "\<exists>now. saveState (en_db env) now (dl_index (sy_dl s)) (dl_last (sy_dl s)) (sy_lw s, sy_db s) = Done (sy_lw v, sy_db v)
    \<and> json_time now \<and> sy_dl v = sy_dl s \<and> sy_chan v = sy_chan s"
  using assms(2)
proof
  assume "l = Tick"
  then have "sync_step env Tick s v" using assms(1) by simp
  then show ?thesis by (rule sync_TickE) auto
next
  assume "l = Finish"
  then have "sync_step env Finish s v" using assms(1) by simp
  then show ?thesis by (rule sync_FinishE) auto
qed

context log_database
begin

text \<open>A save makes the index the position of the log.\<close>

lemma saveState_position:
  assumes "saveState cd now index ts (lw, d) = Done (lw', d')" and "inv d" and u: "log_key (ShortURL (lw_LogState lw))"
    and t: "json_time (LastEntryTime (lw_LogState lw))" "json_time now" "\<forall>t. ts = Some t \<longrightarrow> json_time t"
    and i: "unat index < 2 ^ 63"
  shows "inv d' \<and> stored d' = stored d
    \<and> (\<exists>st. lw' = lw\<lparr>lw_LogState := st\<rparr> \<and> state_ok (ShortURL (lw_LogState lw)) st \<and> MaxEntry st = int (unat index)
        \<and> (\<forall>u. log_key u \<longrightarrow> loaded d' u = (if u = ShortURL (lw_LogState lw) then st else loaded d u)))"
proof -
  obtain st d2 where s: "saveState cd now index ts (lw, d) = Done (lw\<lparr>lw_LogState := st\<rparr>, d2)" "inv d2" "stored d2 = stored d"
      "ShortURL st = ShortURL (lw_LogState lw)" "MaxEntry st = int (unat index)" "json_time (LastEntryTime st)"
    using saveState_spec [OF assms(2) u t i] by metis
  have e: "lw' = lw\<lparr>lw_LogState := st\<rparr>" "d' = d2" using s(1) assms(1) by simp_all
  have "\<not> word_of_nat (2 ^ 63 - 1) < index"
    using i by (simp add: word_less_nat_alt)
  define A where "A = (case ts of Some t \<Rightarrow> (lw_LogState lw)\<lparr>MaxEntry := sint index, LastEntryTime := t\<rparr>
      | None \<Rightarrow> (lw_LogState lw)\<lparr>MaxEntry := sint index\<rparr>)\<lparr>LastUpdateTime := now\<rparr>"
  have "saveState cd now index ts (lw, d)
      = outcome_bind (cd_SaveLogState cd A d) (\<lambda>(saveErr, db). Done (lw\<lparr>lw_LogState := A\<rparr>, db))"
    using \<open>\<not> word_of_nat (2 ^ 63 - 1) < index\<close> by (cases ts) (simp_all add: saveState_def A_def Let_def)
  then have "outcome_bind (cd_SaveLogState cd A d) (\<lambda>(saveErr, db). Done (lw\<lparr>lw_LogState := A\<rparr>, db)) = Done (lw', d')"
    using assms(1) by simp
  then obtain er where save: "cd_SaveLogState cd A d = Done (er, d')" and "lw' = lw\<lparr>lw_LogState := A\<rparr>"
    by (auto simp: outcome_bind_Done_iff)
  then have "A = st" using e(1) by (metis LogWorker.select_convs(2) LogWorker.surjective LogWorker.update_convs(2))
  then have save: "cd_SaveLogState cd st d = Done (er, d')" and now: "LastUpdateTime st = now"
    using save by (auto simp: A_def)
  have "json_state st" using s(6) t(2) now by (simp add: json_state_def)
  from Save_loaded [OF assms(2) _ this save] have
    "\<forall>u. log_key u \<longrightarrow> loaded d' u = (if u = ShortURL st then st else loaded d u)" using u s(4) by simp
  moreover have "int (unat index) < int (2 ^ 63)" using i by (simp only: of_nat_less_iff)
  then have "state_ok (ShortURL (lw_LogState lw)) st" using s(4-6) by (simp add: state_ok_def)
  ultimately show ?thesis using s(2-5) e by auto
qed

lemma NewLogWorker_position:
  assumes "NewLogWorker ls cfg cd url d = Done (r, d')" and "inv d" and "cfg_Offset cfg = 0"
    and u: "\<forall>h q. ls_url ls url = Inr (h, q) \<longrightarrow> h @ q = u" and T: "\<forall>t. ls_TreeSize ls url = Inr t \<longrightarrow> unat t < 2 ^ 63"
    and l: "state_ok u (loaded d u)"
  shows "inv d' \<and> stored d' = stored d \<and> (\<forall>u. log_key u \<longrightarrow> loaded d' u = loaded d u)
    \<and> (\<forall>lw. r = Inr lw \<longrightarrow> lw_LogState lw = loaded d u \<and> unat (lw_StartPos lw) = nat (MaxEntry (loaded d u))
        \<and> unat (lw_EndPos lw) < 2 ^ 63)"
proof (cases "\<exists>h q t. ls_client ls url = None \<and> ls_TreeSize ls url = Inr t \<and> ls_url ls url = Inr (h, q)")
  case False
  then have "d' = d \<and> (\<exists>err. r = Inl err)"
    using assms(1) by (auto simp: NewLogWorker_def split: option.splits sum.splits prod.splits)
  then show ?thesis using assms(2) by auto
next
  case True
  then obtain h q t where c: "ls_client ls url = None" "ls_TreeSize ls url = Inr t" "ls_url ls url = Inr (h, q)" by blast
  then obtain l1 er where g: "cd_GetLogState cd h q d = Done ((l1, er), d')"
    using assms(1) by (auto simp: NewLogWorker_def outcome_bind_Done_iff Let_def split: option.splits sum.splits if_splits)
  have hq: "h @ q = u" using u c by simp
  have p: "unat (start_pos cfg (loaded d u)) = nat (MaxEntry (loaded d u))"
    using l assms(3) by (simp add: start_pos_def state_ok_def start_pos_nat)
  have e: "unat (end_pos cfg sp t) < 2 ^ 63" for sp
    using T c(2) by (auto simp: end_pos_def word_less_nat_alt)
  note L = Load_law [OF assms(2) g, unfolded hq]
  moreover have "lw_LogState lw = loaded d u \<and> lw_StartPos lw = start_pos cfg (loaded d u)
      \<and> lw_EndPos lw = end_pos cfg (start_pos cfg (loaded d u)) t" if "r = Inr lw" for lw
    using assms(1) g c L that
    by (auto simp: NewLogWorker_def outcome_bind_Done_iff Let_def split: option.splits sum.splits if_splits)
  ultimately show ?thesis using p e by auto
qed

text \<open>The steps of the process.\<close>

lemma begin_thread_ok:
  assumes "state_ok u (lw_LogState lw)" and "unat (lw_StartPos lw) = nat (MaxEntry (lw_LogState lw))"
    and "unat (lw_EndPos lw) < 2 ^ 63" and "a \<le> nat (MaxEntry (lw_LogState lw))"
    and "accounted env a (nat (MaxEntry (lw_LogState lw))) P"
  shows "thread_ok env u a P (SyncLog_begin cfg (Inr lw))"
proof (cases "lw_StartPos lw = lw_EndPos lw")
  case False
  have "dl_ok env lw (dl_start lw)"
    using False by (auto simp: dl_ok_def download_ok_def dl_start_def loop_head_def)
  moreover have "unat (lw_StartPos lw) < 2 ^ 63" using assms(1,2) by (auto simp: state_ok_def)
  ultimately show ?thesis
    using False assms by (simp add: SyncLog_begin_def thread_ok_def state_ok_def)
qed (simp add: SyncLog_begin_def after_sync_def thread_ok_def)

lemma fleet_begin:
  assumes I: "fleet_inv inv stored loaded fe site urls d0 R p" and ok: "fleet_ok fe site urls" and db: "fe_db fe = cd"
    and k: "k < length (pr_logs p)" "pr_logs p ! k = (url, BeforeSync)" and ls: "fe_services fe ls"
    and new: "NewLogWorker ls (fe_cfg fe) (fe_db fe) url (pr_db p) = Done (r, d')"
  shows "fleet_inv inv stored loaded fe site urls d0 R
    (p\<lparr>pr_logs := (pr_logs p)[k := (url, SyncLog_begin (fe_cfg fe) r)], pr_db := d'\<rparr>)"
proof -
  let ?a = "nat (MaxEntry (loaded d0 (site url)))" and ?l = "loaded (pr_db p) (site url)"
  have m: "(url, BeforeSync) \<in> set (pr_logs p)" using k by (metis nth_mem)
  note L = fleet_inv_log_inv(1) [OF I m, unfolded log_inv_def] and url = fleet_inv_log_inv(2) [OF I m]
  have u: "log_key (site url)" "\<forall>h q. ls_url ls url = Inr (h, q) \<longrightarrow> h @ q = site url"
      "\<forall>t. ls_TreeSize ls url = Inr t \<longrightarrow> unat t < 2 ^ 63" "cfg_Offset (fe_cfg fe) = 0"
    using ok url ls by (simp_all add: fleet_ok_def)
  have v: "inv (pr_db p)" using I by (simp add: fleet_inv_def)
  have N: "inv d' \<and> stored d' = stored (pr_db p) \<and> (\<forall>u. log_key u \<longrightarrow> loaded d' u = loaded (pr_db p) u)
    \<and> (\<forall>lw. r = Inr lw \<longrightarrow> lw_LogState lw = ?l \<and> unat (lw_StartPos lw) = nat (MaxEntry ?l) \<and> unat (lw_EndPos lw) < 2 ^ 63)"
    using NewLogWorker_position [OF new [unfolded db] v u(4,2,3)] L by blast
  have t: "thread_ok (log_env fe url) (site url) ?a (in_hand p \<union> fst ` R) (SyncLog_begin (fe_cfg fe) r)"
  proof (cases r)
    case (Inr lw)
    then have "lw_LogState lw = ?l" "unat (lw_StartPos lw) = nat (MaxEntry ?l)" "unat (lw_EndPos lw) < 2 ^ 63" using N by blast+
    then show ?thesis unfolding Inr using L by (intro begin_thread_ok) simp_all
  qed (simp add: SyncLog_begin_def after_sync_def thread_ok_def)
  show ?thesis
  proof (rule fleet_inv_log [OF I ok k])
    show "log_inv (log_env fe url) (site url) ?a (in_hand (p\<lparr>pr_logs := (pr_logs p)[k := (url, SyncLog_begin (fe_cfg fe) r)], pr_db := d'\<rparr>) \<union> fst ` R)
      (loaded (pr_db (p\<lparr>pr_logs := (pr_logs p)[k := (url, SyncLog_begin (fe_cfg fe) r)], pr_db := d'\<rparr>)) (site url))
      (SyncLog_begin (fe_cfg fe) r)"
      using t L N u(1) by (simp add: log_inv_def in_hand_def)
  qed (use N in \<open>simp_all add: in_hand_def\<close>)
qed

lemma in_hand_log_view: "in_hand p = set (sy_chan (log_view lw d p)) \<union> cle_LogEntry ` set_mset (held (pr_threads p))"
  by (simp add: in_hand_def log_view_def image_Un)

lemma in_hand_log_back:
  assumes "sy_chan v = map cle_LogEntry (pr_chan p) @ es"
  shows "in_hand (log_back cfg k url v p) = in_hand p \<union> set es"
  using assms by (auto simp: in_hand_def log_back_def image_Un image_image)

lemma fleet_download:
  assumes I: "fleet_inv inv stored loaded fe site urls d0 R p" and ok: "fleet_ok fe site urls" and db: "fe_db fe = cd"
    and k: "k < length (pr_logs p)" "pr_logs p ! k = (url, Downloading lw d)"
    and l: "download_label l" and st: "sync_step (log_env fe url) l (log_view lw d p) v"
  shows "fleet_inv inv stored loaded fe site urls d0 R (log_back (fe_cfg fe) k url v p)"
proof -
  let ?a = "nat (MaxEntry (loaded d0 (site url)))" and ?l = "loaded (pr_db p) (site url)" and ?env = "log_env fe url"
  let ?s = "log_view lw d p" and ?p' = "log_back (fe_cfg fe) k url v p"
  let ?t = "if sy_done v then after_sync (fe_cfg fe) else Downloading (sy_lw v) (sy_dl v)"
  have m: "(url, Downloading lw d) \<in> set (pr_logs p)" using k by (metis nth_mem)
  note L = fleet_inv_log_inv(1) [OF I m, unfolded log_inv_def thread_ok_def, simplified] and url = fleet_inv_log_inv(2) [OF I m]
  have u: "log_key (site url)" "log_ok ?env" using ok url by (simp_all add: fleet_ok_def)
  have v: "inv (pr_db p)" using I by (simp add: fleet_inv_def)
  have E: "unat (lw_EndPos lw) < 2 ^ 63" "unat (lw_StartPos lw) < 2 ^ 63" "dl_ok ?env lw d" using L by simp_all
  have s: "sy_lw ?s = lw" "sy_dl ?s = d" "sy_db ?s = pr_db p" "sy_chan ?s = map cle_LogEntry (pr_chan p)" "\<not> sy_done ?s"
    by (simp_all add: log_view_def)
  have env: "en_db ?env = cd" by (simp add: log_env_def db)
  show ?thesis
  proof (cases "l = Tick \<or> l = Finish")
    case True
    then obtain now lw' d' where sv: "saveState cd now (dl_index d) (dl_last d) (lw, pr_db p) = Done (lw', d')" "json_time now"
        and v': "sy_lw v = lw'" "sy_db v = d'" "sy_dl v = d" "sy_chan v = sy_chan ?s"
      using save_step [OF st True] unfolding env s by auto
    note i = dl_ok_index [OF E(3,2,1)]
    have "inv d' \<and> stored d' = stored (pr_db p)
      \<and> (\<exists>st. lw' = lw\<lparr>lw_LogState := st\<rparr> \<and> state_ok (site url) st \<and> MaxEntry st = int (unat (dl_index d))
          \<and> (\<forall>u. log_key u \<longrightarrow> loaded d' u = (if u = site url then st else loaded (pr_db p) u)))"
      using saveState_position [OF sv(1) v _ _ sv(2)] i L u(1) by simp
    then obtain st where d': "inv d'" "stored d' = stored (pr_db p)" "lw' = lw\<lparr>lw_LogState := st\<rparr>" "state_ok (site url) st"
        "MaxEntry st = int (unat (dl_index d))"
        "\<And>u. log_key u \<Longrightarrow> loaded d' u = (if u = site url then st else loaded (pr_db p) u)" by blast
    have hand: "in_hand ?p' = in_hand p" using in_hand_log_back [of v p "[]"] v'(4) s(4) by simp
    have "thread_ok ?env (site url) ?a (in_hand p \<union> fst ` R) ?t"
      using L d'(3,4) by (simp add: v' thread_ok_def after_sync_def state_ok_def)
    moreover have pd: "pr_db ?p' = d'" by (simp add: log_back_def v')
    ultimately have new: "log_inv ?env (site url) ?a (in_hand ?p' \<union> fst ` R) (loaded (pr_db ?p') (site url)) ?t"
      unfolding log_inv_def hand pd d'(6) [OF u(1), simplified] using L d'(4,5) by simp
    show ?thesis
      by (rule fleet_inv_log [OF I ok k _ _ _ _ _ _ new]) (use d' hand in \<open>simp_all add: log_back_def v'\<close>)
  next
    case False
    note A = download_advances [OF st l _ _ _ _ u(2), unfolded s, OF _ _ E(3,1)]
    have A: "advances ?env ?s v" "dl_ok ?env lw (sy_dl v)" "sy_lw v = lw" "sy_db v = pr_db p" "\<not> sy_done v"
      using A False s(5) by auto
    obtain es where es: "sy_chan v = map cle_LogEntry (pr_chan p) @ es" "\<And>e. e \<in> set es \<Longrightarrow> entry_at ?env (unat (dl_index d)) = Some e"
      using A(1) unfolding advances_def s by fastforce
    have hand: "in_hand ?p' = in_hand p \<union> set es" by (rule in_hand_log_back [OF es(1)])
    have le: "unat (dl_index d) \<le> unat (dl_index (sy_dl v))" using A(1) unfolding advances_def s by blast
    have "accounted ?env ?a (at ?s) (in_hand p \<union> fst ` R)" using L by (simp add: s)
    from advances_accounted [OF A(1) this]
    have "accounted ?env ?a (unat (dl_index (sy_dl v))) ((in_hand p \<union> fst ` R) \<union> set (sy_chan v))" .
    moreover have "(in_hand p \<union> fst ` R) \<union> set (sy_chan v) = in_hand ?p' \<union> fst ` R"
      unfolding hand es(1) by (auto simp: in_hand_def)
    ultimately have "thread_ok ?env (site url) ?a (in_hand ?p' \<union> fst ` R) ?t"
      using L A(2,3,5) le by (simp add: thread_ok_def)
    moreover have "accounted ?env ?a (nat (MaxEntry ?l)) (in_hand ?p' \<union> fst ` R)"
      using accounted_mono [of ?env ?a "nat (MaxEntry ?l)" "in_hand p \<union> fst ` R"] L hand by blast
    moreover have pd: "pr_db ?p' = pr_db p" by (simp add: log_back_def A(4))
    ultimately have new: "log_inv ?env (site url) ?a (in_hand ?p' \<union> fst ` R) (loaded (pr_db ?p') (site url)) ?t"
      unfolding log_inv_def pd using L by simp
    show ?thesis
      by (rule fleet_inv_log [OF I ok k _ _ _ _ _ _ new]) (use A v hand es(2) in \<open>auto simp: log_back_def\<close>)
  qed
qed

lemma insert_entry_loaded:
  assumes "inv d" and ok: "\<forall>cc. wanted env e = Some cc \<longrightarrow> storable cc"
    and "insert_entry (en_lib env) (en_cfg env) cd now health url e (d, upd) = Done (d', upd')" and "log_key u"
  shows "loaded d' u = loaded d u"
  using insert_entry_stores [OF assms(3)]
proof
  assume "\<exists>cert ca err. entry_certificate (en_lib env) e = Done (Inl (Some cert)) \<and> le_Chain e \<noteq> []
    \<and> \<not> certIsFilteredOut (en_cfg env) now cert
    \<and> x509_ParseCertificate (en_lib env) (le_Chain e ! 0) = Inr ca \<and> cd_Store cd cert ca url (le_Index e) d = Done (err, d')"
  then obtain cert ca err where c: "entry_certificate (en_lib env) e = Done (Inl (Some cert))" "le_Chain e \<noteq> []"
      "x509_ParseCertificate (en_lib env) (le_Chain e ! 0) = Inr ca" "cd_Store cd cert ca url (le_Index e) d = Done (err, d')" by blast
  then have "storable (cert, ca)" using ok by (simp add: wanted_def)
  from Store_loaded [OF assms(1) this c(4)] show ?thesis using assms(4) by blast
qed simp

lemma fleet_insert:
  assumes I: "fleet_inv inv stored loaded fe site urls d0 R p" and ok: "fleet_ok fe site urls" and db: "fe_db fe = cd"
    and i: "i < length (pr_threads p)" "pr_threads p ! i = Inserting e"
    and ins: "insert_entry (fe_lib fe) (fe_cfg fe) (fe_db fe) now health (cle_LogURL e) (cle_LogEntry e) (pr_db p, pr_lastUpdate p)
        = Done (d', upd)"
  shows "fleet_inv inv stored loaded fe site urls d0 (insert (cle_LogEntry e, now) R)
    (p\<lparr>pr_threads := (pr_threads p)[i := Ranging], pr_db := d', pr_lastUpdate := upd\<rparr>)"
proof -
  have h: "held (pr_threads p) = add_mset e (held ((pr_threads p)[i := Ranging]))"
    using held_update [OF i(1), of Ranging] i(2) by simp
  have "cle_LogEntry e \<in> in_hand p" by (simp add: in_hand_def h)
  then obtain url0 j where url0: "url0 \<in> set urls" "entry_at (log_env fe url0) j = Some (cle_LogEntry e)"
    using I unfolding fleet_inv_def by blast
  then have st: "\<forall>cc. wanted (log_env fe url0) (cle_LogEntry e) = Some cc \<longrightarrow> storable cc"
    using ok by (auto simp: fleet_ok_def log_ok_def)
  have v: "inv (pr_db p)" using I by (simp add: fleet_inv_def)
  have ins: "insert_entry (en_lib (log_env fe url0)) (en_cfg (log_env fe url0)) cd now health (cle_LogURL e) (cle_LogEntry e)
      (pr_db p, pr_lastUpdate p) = Done (d', upd)"
    using ins by (simp add: log_env_def db)
  note sp = insert_entry_spec [OF v st ins]
  have "kept (log_env fe url0) (insert (cle_LogEntry e, now) R) (stored d')"
    using kept_insertion [OF sp(3)] I unfolding fleet_inv_def by blast
  then have k: "kept (log_env fe url) (insert (cle_LogEntry e, now) R) (stored d')" for url by (rule kept_log_env)
  show ?thesis
    by (rule fleet_inv_rest [OF I ok])
      (use k sp(1) insert_entry_loaded [OF v st ins] in \<open>auto simp: in_hand_def h\<close>)
qed

lemma fleet_step:
  assumes I: "fleet_inv inv stored loaded fe site urls d0 R p" and ok: "fleet_ok fe site urls" and db: "fe_db fe = cd"
    and st: "fetch_step fe l p p'"
  shows "fleet_inv inv stored loaded fe site urls d0 (thread_insertion l \<union> R) p'"
proof -
  have v: "inv (pr_db p)" and kp: "kept (log_env fe url) R (stored (pr_db p))" for url using I by (simp_all add: fleet_inv_def)
  have quiet: "fleet_inv inv stored loaded fe site urls d0 R q"
    if "pr_logs q = pr_logs p" "pr_db q = pr_db p" "in_hand q = in_hand p" for q
    by (rule fleet_inv_rest [OF I ok]) (use that v kp in auto)
  have idle: "fleet_inv inv stored loaded fe site urls d0 R (p\<lparr>pr_logs := (pr_logs p)[k := (url, t)]\<rparr>)"
    if k: "k < length (pr_logs p)" "pr_logs p ! k = (url, Polling)" and t: "t = BeforeSync \<or> t = LeftLoop" for k url t
  proof (rule fleet_inv_log [OF I ok k, where t' = t])
    have m: "(url, Polling) \<in> set (pr_logs p)" using k by (metis nth_mem)
    show "log_inv (log_env fe url) (site url) (nat (MaxEntry (loaded d0 (site url)))) (in_hand (p\<lparr>pr_logs := (pr_logs p)[k := (url, t)]\<rparr>) \<union> fst ` R)
        (loaded (pr_db (p\<lparr>pr_logs := (pr_logs p)[k := (url, t)]\<rparr>)) (site url)) t"
      using fleet_inv_log_inv(1) [OF I m] t by (auto simp: log_inv_def thread_ok_def in_hand_def)
  qed (use v in \<open>simp_all add: in_hand_def\<close>)
  show ?thesis
    using st
  proof cases
    case (thread_starts i)
    show ?thesis unfolding thread_starts(1,2) thread_insertion.simps Un_empty_left
      by (rule quiet) (use held_update [OF thread_starts(4), of Ranging] thread_starts(5) in \<open>simp_all add: in_hand_def\<close>)
  next
    case (thread_takes i e q)
    show ?thesis unfolding thread_takes(1,2) thread_insertion.simps Un_empty_left
      by (rule quiet)
        (use held_update [OF thread_takes(4), of "Inserting e"] thread_takes(5,6) in \<open>simp_all add: in_hand_def image_Un\<close>)
  next
    case (thread_inserts i e now health d' upd)
    show ?thesis unfolding thread_inserts(1,2) thread_insertion.simps insert_is_Un [symmetric] by (rule fleet_insert [OF I ok db thread_inserts(4-6)])
  next
    case (thread_leaves i)
    show ?thesis unfolding thread_leaves(1,2) thread_insertion.simps Un_empty_left
      by (rule quiet) (use held_update [OF thread_leaves(4), of Finished] thread_leaves(5) in \<open>simp_all add: in_hand_def\<close>)
  next
    case (log_begins k url ls r d')
    show ?thesis unfolding log_begins(1,2) thread_insertion.simps Un_empty_left by (rule fleet_begin [OF I ok db log_begins(4-7)])
  next
    case (log_steps k url lw d lb v)
    show ?thesis unfolding log_steps(1,2) thread_insertion.simps Un_empty_left by (rule fleet_download [OF I ok db log_steps(4-7)])
  next
    case (log_wakes k url)
    show ?thesis unfolding log_wakes(1,2) thread_insertion.simps Un_empty_left by (rule idle [OF log_wakes(4,5)]) simp
  next
    case (log_signalled k url)
    show ?thesis unfolding log_signalled(1,2) thread_insertion.simps Un_empty_left by (rule idle [OF log_signalled(4,5)]) simp
  next
    case (main_stops p2)
    show ?thesis unfolding main_stops(1,2) thread_insertion.simps Un_empty_left
      by (rule quiet) (use main_stops(5) in \<open>auto simp: in_hand_def LogSyncEngine_Stop_def split: if_splits\<close>)
  next
    case main_displayed
    show ?thesis unfolding main_displayed(1,2) thread_insertion.simps Un_empty_left
      by (rule quiet) (simp_all add: in_hand_def)
  next
    case main_exits
    obtain er d' where c: "cd_Cleanup cd (pr_db p) = (er, d')" by fastforce
    show ?thesis unfolding main_exits(1,2) thread_insertion.simps Un_empty_left
      by (rule fleet_inv_rest [OF I ok]) (use Cleanup_law [OF v c] kp in \<open>auto simp: LogSyncEngine_Cleanup_def db c in_hand_def\<close>)
  qed
qed

lemma fleet_run:
  assumes run: "fetch_run fe p0 ls p" and st0: "fetch_start (fe_cfg fe) urls d0 = Done p0" and ok: "fleet_ok fe site urls"
    and db: "fe_db fe = cd" and d0: "inv d0" and l0: "\<forall>url \<in> set urls. state_ok (site url) (loaded d0 (site url))"
  shows "fleet_inv inv stored loaded fe site urls d0 (thread_insertions ls) p"
  using run
proof induction
  case start
  note s = fetch_start_simps [OF st0]
  have "\<not> threads_working (pr_threads p0)" using s by (auto simp: threads_working_def list_ex_iff)
  then have h: "in_hand p0 = {}" using s held_idle by (simp add: in_hand_def)
  have "map fst (pr_logs p0) = urls" by (simp add: s(1) comp_def)
  then show ?case
    using d0 l0 unfolding fleet_inv_def h s(1,5)
    by (auto simp: log_inv_def thread_ok_def accounted_def entry_in_def kept_def)
next
  case (step ls p l p')
  from fleet_step [OF step.IH ok db step.hyps(2)] show ?case by (simp add: Un_commute)
qed

end

end
