(* ===== verification/Fetch_Properties.thy ===== *)
theory Fetch_Properties
  imports Fetch_Simulation Fetch_Logs
begin

text \<open>
  What the process of \<^verbatim>\<open>ct-fetch\<close> achieves, and what its end guarantees and does not.
\<close>

section \<open>An example\<close>

text \<open>
  One insert thread and the log of two entries of \<open>Sync_Properties\<close>, where expired entries are
  filtered out, as they are by default.
\<close>

definition sample_config :: CTConfig where
  "sample_config = NewCTConfig\<lparr>RunForever := False, NumThreads := 1,
     SavePeriod := ''15m'', OutputRefreshPeriod := ''125ms''\<rparr>"

definition sample_services :: log_services where
  "sample_services =
     \<lparr>ls_client = (\<lambda>u. None), ls_TreeSize = (\<lambda>u. Inr 2), ls_url = (\<lambda>u. Inr (''ct.example'', ''/log''))\<rparr>"

definition sample_fetch_env :: "(unit, (string, nat) gomap mock_db) fetch_env" where
  "sample_fetch_env =
     \<lparr>fe_lib = sample_lib, fe_cfg = sample_config,
      fe_db = filesystem_certdb (mock_deps comma_json rev map_gcache sample_url), fe_zone = 0,
      fe_services = (\<lambda>ls. ls = sample_services), fe_log = (\<lambda>u i. ())\<rparr>"

definition sample_process :: "(unit, (string, nat) gomap mock_db) process" where
  "sample_process =
     \<lparr>pr_logs = [(''https://ct.example/log'', BeforeSync)], pr_threads = [Spawned], pr_chan = [], pr_closed = False,
      pr_cancelled = False, pr_db = fresh_db, pr_lastUpdate = zero_time, pr_main = AwaitDownloaders\<rparr>"

lemma sample_fetch_start: "fetch_start (fe_cfg sample_fetch_env) [''https://ct.example/log''] fresh_db = Done sample_process"
  by (simp add: fetch_start_def NewLogSyncEngine_def StartDatabaseThreads_def start_downloads_def sample_fetch_env_def
      sample_config_def sample_process_def ParseDuration_eval)

lemma sample_log_env: "log_env sample_fetch_env url = sample_sync_env\<lparr>en_cfg := sample_config\<rparr>"
  by (simp add: log_env_def sample_fetch_env_def sample_sync_env_def)

lemma sample_new_worker:
  "NewLogWorker sample_services (fe_cfg sample_fetch_env) (fe_db sample_fetch_env)
     ''https://ct.example/log'' fresh_db = Done (Inr sample_worker, fresh_db)"
  by (simp add: sample_fetch_env_def sample_services_def sample_config_def NewLogWorker_def filesystem_certdb_def GetLogState_def
      mock_cache_def untimed_def Mock_LoadLogState_def fresh_db_def NewFilesystemDatabase_def NewMockRemoteCache_def
      mock_backend_def MB_LoadLogState_def NewMockBackend_def start_pos_def end_pos_def NewCTConfig_def
      ParseDuration_eval sample_worker_def blank_log_def)

lemma sample_fetch_ready:
  "fetch_ready sample_fetch_env comma_json map_gcache (\<lambda>g. gm_get g) rev sample_url ''https://ct.example/log''
     fresh_db sample_worker fresh_db"
  using sample_new_worker sample_sync_ready
  by (simp add: fetch_ready_def sample_log_env sync_ready_cfg) (simp add: sample_fetch_env_def sample_config_def)

lemma sample_fetch_entries:
  "entry_at (log_env sample_fetch_env url) i = Some sample_entry"
  "wanted (log_env sample_fetch_env url) sample_entry = Some (sample_cert, sample_cert)"
  "to_store (log_env sample_fetch_env url) sample_entry (utc 0) (sample_cert, sample_cert)"
  "worker_safe (log_env sample_fetch_env url) sample_entry"
  using sample_sync_entries sample_in_time [of sample_config]
  by (simp_all add: sample_log_env other_cfg worker_safe_def to_store_def) (simp add: sample_config_def NewCTConfig_def)

lemma sample_started:
  "fetch_run sample_fetch_env sample_process [ThreadStarts 0] (sample_process\<lparr>pr_threads := [Ranging]\<rparr>)"
proof -
  have "fetch_step sample_fetch_env (ThreadStarts 0) sample_process
      (sample_process\<lparr>pr_threads := (pr_threads sample_process)[0 := Ranging]\<rparr>)"
    by (rule fetch_step.thread_starts) (simp_all add: sample_process_def)
  from fetch_run.step [OF fetch_run.start this] show ?thesis by (simp add: sample_process_def)
qed

lemma advancing_undisturbed: "advancing l \<Longrightarrow> undisturbed l"
  by (cases l) (auto simp: advancing_def dest: productive_uninterrupted)

lemma thread_insertions_at:
  "list_all (advancing_at t) ls \<Longrightarrow> (e, now) \<in> thread_insertions ls \<Longrightarrow> now = t"
proof (induction ls)
  case (Cons l ls)
  then show ?case by (cases l) (auto simp: advancing_at_def)
qed simp

lemma sample_exit:
  "\<exists>ls p. fetch_run sample_fetch_env sample_process ls p \<and> pr_main p = Exited \<and> ThreadStarts 0 \<in> set ls
    \<and> list_all undisturbed ls \<and> list_all (advancing_at (utc 0)) ls"
proof -
  have "0 < NumThreads (fe_cfg sample_fetch_env)" by (simp add: sample_fetch_env_def sample_config_def)
  then obtain ls p where r: "fetch_run sample_fetch_env (sample_process\<lparr>pr_threads := [Ranging]\<rparr>) ls p"
      "pr_main p = Exited" "list_all (advancing_at (utc 0)) ls"
    using fetch_ends [OF sample_fetch_ready _ sample_fetch_start _ sample_started, of "utc 0"] sample_fetch_entries by auto
  have "list_all undisturbed ([ThreadStarts 0] @ ls)" "list_all (advancing_at (utc 0)) ([ThreadStarts 0] @ ls)"
    using r(3) advancing_undisturbed advancing_at by (auto simp: list_all_iff advancing_at_def)
  then show ?thesis using fetch_run_append [OF r(1) sample_started] r(2) by fastforce
qed

section \<open>Properties\<close>

lemma fetch_completed:
  assumes "fetch_ready fe js gc gget ord url_Parse url db lw db1"
    and "fetch_start (fe_cfg fe) [url] db = Done p0" and "fetch_run fe p0 ls p"
    and "pr_main p = Exited" and "ThreadStarts i \<in> set ls"
  shows "\<exists>n. (\<forall>e. entry_in (log_env fe url) (unat (lw_StartPos lw)) n e
        \<longrightarrow> handled (log_env fe url) (thread_insertions ls) (stored_text (pr_db p)) e)
    \<and> (\<forall>(e, now) \<in> thread_insertions ls. entry_in (log_env fe url) (unat (lw_StartPos lw)) n e)
    \<and> genuine (log_env fe url) (thread_insertions ls) (stored_text db1) (stored_text (pr_db p))
    \<and> (lw_StartPos lw \<noteq> lw_EndPos lw \<longrightarrow> (\<exists>l. saved_log js (pr_db p) (url_of lw) = Some l \<and> MaxEntry l = int n))
    \<and> (list_all undisturbed ls \<longrightarrow> n = unat (lw_EndPos lw))"
proof -
  note I = shutdown_ok_run [OF assms(3,2), unfolded shutdown_ok_def]
  have closed: "pr_closed p" using I assms(4) by simp
  note e = exit_empty [OF assms(2-5)]
  have "\<not> waiting url db p" using I closed by (auto simp: waiting_def)
  then obtain ls' s where s: "sync_run (log_env fe url) (sync_start lw db1) ls' s" "matches url p s"
    "list_all undisturbed ls \<longrightarrow> list_all uninterrupted ls'" and ins: "insertions ls' = thread_insertions ls"
    using fetch_simulated [OF assms(1-3)] by blast
  have "sy_done s" using I closed s(2) by (auto simp: matches_def split: if_splits)
  moreover have "sy_chan s = []" "sy_busy s = []" and db: "sy_db s = pr_db p"
    using s(2) e by (simp_all add: matches_def)
  moreover have "sync_ready (log_env fe url) js gc gget ord url_Parse lw db1"
    using assms(1) by (simp add: fetch_ready_def)
  ultimately show ?thesis
    using sync_completed [OF _ s(1)] s(3) by (intro exI [of _ "at s"]) (auto simp flip: db ins)
qed

text \<open>
  C2. The process as a whole, for one log: when \<^verbatim>\<open>main\<close> exits after an insert thread has started,
  every readable entry from the start position up to some index has been inserted, and its
  certificate is stored unless the filter dropped it at the time that the thread read from the clock
  or it has no readable issuer; only entries of that range were inserted; each text that is new in the
  database is the PEM of such a certificate, and no other text has changed; and that index is saved
  for the next run. It is the end position if no signal and no error other than a 429 came.
\<close>

theorem Fetch_complete:
  assumes "fetch_ready fe js gc gget ord url_Parse url db lw db1"
    and "fetch_start (fe_cfg fe) [url] db = Done p0" and "fetch_run fe p0 ls p"
    and "pr_main p = Exited" and "ThreadStarts i \<in> set ls"
  shows "\<exists>n. (\<forall>e. entry_in (log_env fe url) (unat (lw_StartPos lw)) n e
        \<longrightarrow> handled (log_env fe url) (thread_insertions ls) (stored_text (pr_db p)) e)
    \<and> (\<forall>(e, now) \<in> thread_insertions ls. entry_in (log_env fe url) (unat (lw_StartPos lw)) n e)
    \<and> genuine (log_env fe url) (thread_insertions ls) (stored_text db1) (stored_text (pr_db p))
    \<and> (lw_StartPos lw \<noteq> lw_EndPos lw \<longrightarrow> (\<exists>l. saved_log js (pr_db p) (url_of lw) = Some l \<and> MaxEntry l = int n))
    \<and> (list_all undisturbed ls \<longrightarrow> n = unat (lw_EndPos lw))"
  using fetch_completed [OF assms] .

theorem Fetch_complete_witness:
  "\<exists>ls p. fetch_run sample_fetch_env sample_process ls p \<and> pr_main p = Exited
    \<and> \<not> LogExpiredEntries (fe_cfg sample_fetch_env)
    \<and> stored_text (pr_db p) (stored_key (sample_cert, sample_cert)) = Some (pem_EncodeToMemory ''CERTIFICATE'' (Raw sample_cert))"
proof -
  let ?env = "log_env sample_fetch_env ''https://ct.example/log''"
  obtain ls p where r: "fetch_run sample_fetch_env sample_process ls p" "pr_main p = Exited" "ThreadStarts 0 \<in> set ls"
      "list_all undisturbed ls" "list_all (advancing_at (utc 0)) ls"
    using sample_exit by blast
  obtain n where h: "\<forall>e. entry_in ?env (unat (lw_StartPos sample_worker)) n e
        \<longrightarrow> handled ?env (thread_insertions ls) (stored_text (pr_db p)) e"
      "\<forall>(e, now) \<in> thread_insertions ls. entry_in ?env (unat (lw_StartPos sample_worker)) n e"
      "genuine ?env (thread_insertions ls) (stored_text fresh_db) (stored_text (pr_db p))"
      "n = unat (lw_EndPos sample_worker)"
    using Fetch_complete [OF sample_fetch_ready sample_fetch_start r(1-3)] r(4) by blast
  have "entry_in ?env (unat (lw_StartPos sample_worker)) n sample_entry"
    using sample_fetch_entries(1) by (auto simp: entry_in_def h(4) sample_worker_def intro!: exI [of _ 0])
  then have "handled ?env (thread_insertions ls) (stored_text (pr_db p)) sample_entry" using h(1) by blast
  moreover have "cc = (sample_cert, sample_cert)" if "(e, now) \<in> thread_insertions ls" "to_store ?env e now cc" for e now cc
    using h(2) that sample_fetch_entries(1,2) by (fastforce simp: entry_in_def to_store_def)
  ultimately have "stored_text (pr_db p) (stored_key (sample_cert, sample_cert))
      = Some (pem_EncodeToMemory ''CERTIFICATE'' (Raw (fst (sample_cert, sample_cert))))"
    using h(3) thread_insertions_at [OF r(5)] sample_fetch_entries(3) fresh_db_text
    by (intro handled_text [of ?env "thread_insertions ls" _ sample_entry "stored_text fresh_db" "utc 0"]) blast+
  moreover have "\<not> LogExpiredEntries (fe_cfg sample_fetch_env)"
    by (simp add: sample_fetch_env_def sample_config_def NewCTConfig_def)
  ultimately show ?thesis using r(1,2) by auto
qed

text \<open>A saved state is the one loaded.\<close>

lemma saved_loaded: "saved_log js db u = Some l \<Longrightarrow> loaded_log js db u = l"
  by (auto simp: saved_log_def loaded_log_def Mock_LoadLogState_list split: if_splits list.splits sum.splits)

definition fleet_ready ::
    "('raw, 'g mock_db) fetch_env \<Rightarrow> log_json \<Rightarrow> 'g gcache \<Rightarrow> ('g \<Rightarrow> string \<Rightarrow> nat option)
      \<Rightarrow> (string list \<Rightarrow> string list) \<Rightarrow> url_parser \<Rightarrow> (string \<Rightarrow> string) \<Rightarrow> string list \<Rightarrow> 'g mock_db \<Rightarrow> bool" where
  "fleet_ready fe js gc gget ord url_Parse site urls db \<longleftrightarrow>
     fleet_ok fe site urls \<and> fe_db fe = filesystem_certdb (mock_deps js ord gc url_Parse) \<and> mock_inv js gc gget db
     \<and> (\<forall>url \<in> set urls. state_ok (site url) (loaded_log js db (site url)))"

text \<open>
  C1. No gap, for any number of logs, with or without polling, whatever servers, tickers, signals
  and the scheduling of threads do: each readable entry of a log between its position at the start of
  the process and the position that the next run would load is in the channel, in the hands of an
  insert thread, or dealt with: a thread has inserted it, and its certificate is stored, unless the
  filter dropped it at the time that the thread read from the clock or it has no readable issuer; and
  when \<^verbatim>\<open>main\<close> has exited after an insert thread has started, it is not pending any more.
\<close>

theorem Fetch_no_gap:
  assumes "fleet_ready fe js gc gget ord url_Parse site urls db"
    and "fetch_start (fe_cfg fe) urls db = Done p0" and "fetch_run fe p0 ls p"
    and "url \<in> set urls" and "entry_at (log_env fe url) j = Some e"
    and "MaxEntry (loaded_log js db (site url)) \<le> int j" and "int j < MaxEntry (loaded_log js (pr_db p) (site url))"
  shows "(e \<in> in_hand p \<or> handled (log_env fe url) (thread_insertions ls) (stored_text (pr_db p)) e)
    \<and> (pr_main p = Exited \<longrightarrow> (\<exists>i. ThreadStarts i \<in> set ls) \<longrightarrow> handled (log_env fe url) (thread_insertions ls) (stored_text (pr_db p)) e)"
proof -
  let ?a = "nat (MaxEntry (loaded_log js db (site url)))" and ?l = "loaded_log js (pr_db p) (site url)"
  have I: "fleet_inv (mock_inv js gc gget) stored_text (loaded_log js) fe site urls db (thread_insertions ls) p"
    using mock_logdb.fleet_run [OF assms(3,2), of site js ord gc url_Parse gget] assms(1) by (simp add: fleet_ready_def)
  then have "map fst (pr_logs p) = urls" by (simp add: fleet_inv_def)
  then obtain t where "(url, t) \<in> set (pr_logs p)" using assms(4) by force
  from fleet_inv_log_inv(1) [OF I this]
  have "accounted (log_env fe url) ?a (nat (MaxEntry ?l)) (in_hand p \<union> fst ` thread_insertions ls)" by (simp add: log_inv_def)
  moreover have "?a \<le> j" "j < nat (MaxEntry ?l)" using assms(6,7) by linarith+
  then have "entry_in (log_env fe url) ?a (nat (MaxEntry ?l)) e" using assms(5) by (auto simp: entry_in_def)
  moreover have "kept (log_env fe url) (thread_insertions ls) (stored_text (pr_db p))" using I by (simp add: fleet_inv_def)
  ultimately have "e \<in> in_hand p \<or> handled (log_env fe url) (thread_insertions ls) (stored_text (pr_db p)) e"
    using kept_handled unfolding accounted_def by blast
  moreover have "in_hand p = {}" if "pr_main p = Exited" "ThreadStarts i \<in> set ls" for i
    using exit_empty [OF assms(2,3) that] by (simp add: in_hand_def)
  ultimately show ?thesis by blast
qed

lemma sample_fleet_ready:
  "fleet_ready sample_fetch_env comma_json map_gcache (\<lambda>g. gm_get g) rev sample_url (\<lambda>u. ''ct.example/log'')
     [''https://ct.example/log''] fresh_db"
proof -
  have "loaded_log comma_json fresh_db u = blank_log u" for u
    by (simp add: loaded_log_def Mock_LoadLogState_def MB_LoadLogState_def fresh_db_def NewFilesystemDatabase_def
        NewMockRemoteCache_def NewMockBackend_def)
  then have "state_ok u (loaded_log comma_json fresh_db u)" for u
    using sample_sync_time(2) by (simp add: state_ok_def blank_log_def)
  moreover have "log_ok (log_env sample_fetch_env u)" for u
    using sample_sync_ready by (simp add: sync_ready_def log_ok_def sample_log_env other_cfg)
  moreover have "log_key ''ct.example/log''" "mock_inv comma_json map_gcache (\<lambda>g. gm_get g) fresh_db"
    using sample_sync_ready by (simp_all add: sync_ready_def) (simp add: sample_worker_def blank_log_def)
  ultimately show ?thesis
    by (simp add: fleet_ready_def fleet_ok_def)
      (simp add: sample_fetch_env_def sample_services_def sample_config_def NewCTConfig_def)
qed

theorem Fetch_no_gap_witness:
  "\<exists>ls p. fetch_run sample_fetch_env sample_process ls p \<and> pr_main p = Exited
    \<and> \<not> LogExpiredEntries (fe_cfg sample_fetch_env)
    \<and> stored_text (pr_db p) (stored_key (sample_cert, sample_cert)) \<noteq> None"
proof -
  let ?env = "log_env sample_fetch_env ''https://ct.example/log''"
  obtain ls p where r: "fetch_run sample_fetch_env sample_process ls p" "pr_main p = Exited" "ThreadStarts 0 \<in> set ls"
      "list_all undisturbed ls" "list_all (advancing_at (utc 0)) ls"
    using sample_exit by blast
  obtain l where "saved_log comma_json (pr_db p) (url_of sample_worker) = Some l" "MaxEntry l = 2"
    using fetch_completed [OF sample_fetch_ready sample_fetch_start r(1-3)] r(4) by (auto simp: sample_worker_def)
  then have m: "int 0 < MaxEntry (loaded_log comma_json (pr_db p) ''ct.example/log'')"
    using saved_loaded by (fastforce simp: sample_worker_def blank_log_def)
  have "MaxEntry (loaded_log comma_json fresh_db ''ct.example/log'') \<le> int 0"
    by (simp add: loaded_log_def Mock_LoadLogState_def MB_LoadLogState_def fresh_db_def NewFilesystemDatabase_def
        NewMockRemoteCache_def NewMockBackend_def blank_log_def)
  then have h: "handled ?env (thread_insertions ls) (stored_text (pr_db p)) sample_entry"
    using Fetch_no_gap [OF sample_fleet_ready sample_fetch_start r(1) _ sample_fetch_entries(1) _ m] r(2,3) by auto
  then obtain now where "(sample_entry, now) \<in> thread_insertions ls" unfolding handled_def by blast
  then have "(sample_entry, utc 0) \<in> thread_insertions ls" using thread_insertions_at [OF r(5)] by metis
  then have "stored_text (pr_db p) (stored_key (sample_cert, sample_cert)) \<noteq> None"
    using h sample_fetch_entries(3) unfolding handled_def by blast
  moreover have "\<not> LogExpiredEntries (fe_cfg sample_fetch_env)"
    by (simp add: sample_fetch_env_def sample_config_def NewCTConfig_def)
  ultimately show ?thesis using r(1,2) by blast
qed

text \<open>
  C6. Liveness: with an insert thread, one log and no \<^verbatim>\<open>-runForever\<close>, wherever a run has come
  to, \<^verbatim>\<open>main\<close> can still get to its exit by steps that are neither retries nor interruptions; no
  thread waits for ever for the channel, for another thread or for the database.
\<close>

theorem Fetch_ends:
  assumes "fetch_ready fe js gc gget ord url_Parse url db lw db1"
    and "\<forall>j e. entry_at (log_env fe url) j = Some e \<longrightarrow> worker_safe (log_env fe url) e"
    and "fetch_start (fe_cfg fe) [url] db = Done p0" and "0 < NumThreads (fe_cfg fe)" and "fetch_run fe p0 ls p"
  shows "\<exists>ls' p'. fetch_run fe p ls' p' \<and> pr_main p' = Exited \<and> list_all advancing ls'"
  using fetch_ends [OF assms] advancing_at by (metis list.pred_mono_strong)

theorem Fetch_ends_witness:
  "\<exists>ls p. fetch_run sample_fetch_env (sample_process\<lparr>pr_threads := [Ranging]\<rparr>) ls p \<and> pr_main p = Exited"
proof -
  have "0 < NumThreads (fe_cfg sample_fetch_env)" by (simp add: sample_fetch_env_def sample_config_def)
  then show ?thesis
    using Fetch_ends [OF sample_fetch_ready _ sample_fetch_start _ sample_started] sample_fetch_entries by auto
qed

text \<open>
  C7. A clean end: whatever the logs, the servers and the signals do, no download is running once
  the channel is closed, so that nothing is sent on a closed channel and it is closed once only; and
  when \<^verbatim>\<open>main\<close> exits after any insert thread has started, the channel is empty and as many
  inserts have finished as entries were submitted.
\<close>

theorem Exit_drains_channel:
  assumes "fetch_start cfg urls db = Done p0" and "fetch_run fe p0 ls p"
  shows "(pr_closed p \<longrightarrow> (\<forall>k < length (pr_logs p). snd (pr_logs p ! k) = LeftLoop))
    \<and> (pr_main p = AwaitDownloaders \<longrightarrow> LogSyncEngine_Stop p \<noteq> Panic m)
    \<and> (pr_main p = Exited \<longrightarrow> (\<exists>i. ThreadStarts i \<in> set ls) \<longrightarrow>
        pr_chan p = [] \<and> length (filter submits ls) = length (filter inserts ls))"
proof -
  note I = shutdown_ok_run [OF assms(2,1), unfolded shutdown_ok_def]
  have "\<forall>k < length (pr_logs p). snd (pr_logs p ! k) = LeftLoop" if "pr_closed p"
    using I that by simp
  moreover have "LogSyncEngine_Stop p \<noteq> Panic m" if "pr_main p = AwaitDownloaders"
    using I that by (simp add: LogSyncEngine_Stop_def)
  moreover have "pr_chan p = [] \<and> length (filter submits ls) = length (filter inserts ls)"
    if e: "pr_main p = Exited" and s: "ThreadStarts i \<in> set ls" for i
    using balance_run [OF assms(2,1)] exit_empty [OF assms e s] by simp
  ultimately show ?thesis by blast
qed

theorem Exit_drains_channel_witness:
  "\<exists>ls p. fetch_run sample_fetch_env sample_process ls p \<and> pr_main p = Exited
    \<and> pr_chan p = [] \<and> length (filter submits ls) = length (filter inserts ls)"
proof -
  obtain ls p where r: "fetch_run sample_fetch_env sample_process ls p" "pr_main p = Exited" "ThreadStarts 0 \<in> set ls"
    using sample_exit by blast
  then show ?thesis using Exit_drains_channel [OF sample_fetch_start r(1)] by blast
qed

text \<open>The download of both entries of the sample log, with no insert thread at work.\<close>

lemma sample_downloaded:
  defines "env \<equiv> sample_sync_env\<lparr>en_cfg := sample_config\<rparr>"
  shows "\<exists>s. sync_run env (sync_start sample_worker fresh_db) [Respond 2, Accept, Accept, Finish] s
    \<and> sy_chan s = [sample_entry, sample_entry] \<and> sy_done s \<and> at s = 2 \<and> stored_text (sy_db s) = stored_text fresh_db"
proof -
  let ?s0 = "sync_start sample_worker fresh_db :: (unit, (string, nat) gomap mock_db) sync"
  let ?t = "Some (uint64ToTimestamp 0 1000)"
  let ?s1 = "?s0\<lparr>sy_dl := \<lparr>dl_index = 0, dl_last = None, dl_pc = Submitting sample_entry [()]\<rparr>\<rparr>"
  let ?s2 = "?s0\<lparr>sy_dl := \<lparr>dl_index = 1, dl_last = ?t, dl_pc = Submitting sample_entry []\<rparr>, sy_chan := [sample_entry]\<rparr>"
  let ?s3 = "?s0\<lparr>sy_dl := \<lparr>dl_index = 2, dl_last = ?t, dl_pc = Returned None\<rparr>,
      sy_chan := [sample_entry, sample_entry]\<rparr>"
  have 0: "sy_dl ?s0 = \<lparr>dl_index = 0, dl_last = None, dl_pc = Fetching\<rparr>" "sy_lw ?s0 = sample_worker" "\<not> sy_done ?s0"
    by (simp_all add: sync_start_def dl_start_def loop_head_def sample_worker_def)
  have e: "en_lib env = sample_lib" "en_log env = (\<lambda>i. ())" "en_zone env = 0"
    "en_db env = filesystem_certdb (mock_deps comma_json rev map_gcache sample_url)"
    by (simp_all add: env_def sample_sync_env_def)
  have "served (\<lambda>i. ()) sample_worker 0 2 [(), ()]"
    by (simp add: served_def request_max_def sample_worker_def upt_rec)
  then have "sync_step env (Respond 2) ?s0 (?s0\<lparr>sy_dl := dl_entries (en_lib env) (sy_lw ?s0) [(), ()] (sy_dl ?s0)\<rparr>)"
    by (intro sync_step.respond) (simp_all add: 0 e)
  then have 1: "sync_step env (Respond 2) ?s0 ?s1" by (simp add: 0 e dl_entries_def sample_lib_def)
  have "sync_step env Accept ?s1 (?s1\<lparr>sy_chan := sy_chan ?s1 @ [sample_entry],
      sy_dl := dl_accepted (en_lib env) (en_zone env) (sy_lw ?s1) sample_entry [()] (sy_dl ?s1)\<rparr>)"
    by (rule sync_step.accept) (simp_all add: sync_start_def chan_room_def)
  then have 2: "sync_step env Accept ?s1 ?s2"
    by (simp add: 0 e dl_accepted_def dl_entries_def sample_lib_def sample_entry_def sync_start_def)
  have "sync_step env Accept ?s2 (?s2\<lparr>sy_chan := sy_chan ?s2 @ [sample_entry],
      sy_dl := dl_accepted (en_lib env) (en_zone env) (sy_lw ?s2) sample_entry [] (sy_dl ?s2)\<rparr>)"
    by (rule sync_step.accept) (simp_all add: sync_start_def chan_room_def)
  then have 3: "sync_step env Accept ?s2 ?s3"
    by (simp add: 0 e dl_accepted_def dl_entries_def loop_head_def sample_worker_def sample_entry_def sync_start_def)
  have k: "log_key (url_of sample_worker)" "json_time (LastEntryTime (lw_LogState sample_worker))"
      "mock_inv comma_json map_gcache (\<lambda>g. gm_get g) fresh_db"
    using sample_sync_ready by (simp_all add: sync_ready_def)
  have t: "\<forall>t. ?t = Some t \<longrightarrow> json_time t" using sample_sync_time by simp
  have "unat (2 :: 64 word) < 2 ^ 63" by simp
  from mock_certdb.saveState_spec [OF k(3,1,2) sample_sync_time(3) t this]
  obtain st db where sv: "saveState (filesystem_certdb (mock_deps comma_json rev map_gcache sample_url)) (utc 0) 2 ?t
        (sample_worker, fresh_db) = Done (sample_worker\<lparr>lw_LogState := st\<rparr>, db)"
      and "stored_text db = stored_text fresh_db" by metis
  moreover have "sync_step env Finish ?s3
      (?s3\<lparr>sy_lw := sample_worker\<lparr>lw_LogState := st\<rparr>, sy_db := db, sy_done := True\<rparr>)"
    by (rule sync_step.finish [OF _ _ sample_sync_time(3)]) (use sv 0(3) in \<open>simp_all add: sync_start_def e\<close>)
  moreover have "sync_run env ?s0 [Respond 2, Accept, Accept] ?s3"
    using sync_run.step [OF sync_run.step [OF sync_run.step [OF sync_run.start 1] 2] 3] by simp
  ultimately show ?thesis
    using sync_run.step [of env ?s0 "[Respond 2, Accept, Accept]" ?s3 Finish]
    by (intro exI [of _ "?s3\<lparr>sy_lw := sample_worker\<lparr>lw_LogState := st\<rparr>, sy_db := db, sy_done := True\<rparr>"]) simp
qed

lemma sample_unserved:
  "\<exists>ls p. fetch_run sample_fetch_env sample_process ls p \<and> list_all advancing ls \<and> filter inserts ls = []
    \<and> pr_main p = AwaitDownloaders \<and> pr_logs p = [(''https://ct.example/log'', LeftLoop)] \<and> pr_threads p = [Spawned]
    \<and> length (pr_chan p) = 2 \<and> (\<forall>k. \<not> stored_cert (pr_db p) k)
    \<and> (\<exists>l. saved_log comma_json (pr_db p) ''ct.example/log'' = Some l \<and> MaxEntry l = 2)"
proof -
  let ?u = "''https://ct.example/log''"
  let ?p1 = "sample_process\<lparr>pr_logs := [(?u, Downloading sample_worker (dl_start sample_worker))]\<rparr>"
  have ne: "lw_StartPos sample_worker \<noteq> lw_EndPos sample_worker" by (simp add: sample_worker_def)
  have "fetch_step sample_fetch_env (LogBegins 0) sample_process (sample_process\<lparr>
      pr_logs := (pr_logs sample_process)[0 := (?u, SyncLog_begin (fe_cfg sample_fetch_env) (Inr sample_worker))], pr_db := fresh_db\<rparr>)"
    by (rule fetch_step.log_begins [where ls = sample_services])
      (use sample_new_worker in \<open>simp_all add: sample_process_def\<close>, simp add: sample_fetch_env_def)
  then have b: "fetch_step sample_fetch_env (LogBegins 0) sample_process ?p1"
    using ne by (simp add: SyncLog_begin_def sample_process_def)
  have m1: "matches ?u ?p1 (sync_start sample_worker fresh_db :: (unit, (string, nat) gomap mock_db) sync)"
    using ne by (simp add: matches_def sync_start_def sample_process_def held_def)
  obtain s where s: "sync_run (log_env sample_fetch_env ?u) (sync_start sample_worker fresh_db) [Respond 2, Accept, Accept, Finish] s"
      "sy_chan s = [sample_entry, sample_entry]" "sy_done s" "stored_text (sy_db s) = stored_text fresh_db"
      "at s = 2"
    using sample_downloaded unfolding sample_log_env by blast
  obtain p2 where p2: "fetch_run sample_fetch_env ?p1 (map (LogSteps 0) [Respond 2, Accept, Accept, Finish]) p2" "matches ?u p2 s"
      "sy_busy s = []" "pr_threads p2 = [Spawned]" "pr_main p2 = AwaitDownloaders"
    using download_run_lifts [OF sample_fetch_ready m1 _ s(1)] by (auto simp: sample_process_def)
  have r2: "fetch_run sample_fetch_env sample_process (LogBegins 0 # map (LogSteps 0) [Respond 2, Accept, Accept, Finish]) p2"
    by (rule fetch_run_Cons [OF p2(1) b])
  have ready: "sync_ready (log_env sample_fetch_env ?u) comma_json map_gcache (\<lambda>g. gm_get g) rev sample_url sample_worker fresh_db"
    using sample_fetch_ready by (simp add: fetch_ready_def)
  have u: "url_of sample_worker = ''ct.example/log''" by (simp add: sample_worker_def blank_log_def)
  let ?ls = "LogBegins 0 # map (LogSteps 0) [Respond 2, Accept, Accept, Finish]"
  have "list_all advancing ?ls" "filter inserts ?ls = []" by (simp_all add: advancing_def)
  moreover have "mock_inv comma_json map_gcache (\<lambda>g. gm_get g) (pr_db p2)" "stored_text (pr_db p2) = stored_text fresh_db"
    using ready_inv [OF ready s(1)] s(4) p2(2) by (simp_all add: sync_inv_def matches_def)
  then have "\<forall>k. \<not> stored_cert (pr_db p2) k" using stored_text_cert fresh_db_text by metis
  moreover have "pr_logs p2 = [(?u, LeftLoop)]" "length (pr_chan p2) = 2"
    using p2(2) s(3) arg_cong [OF s(2), of length] by (simp_all add: matches_def)
  moreover have "\<exists>l. saved_log comma_json (pr_db p2) ''ct.example/log'' = Some l \<and> MaxEntry l = 2"
    using ready_inv [OF ready s(1)] s(3,5) ne p2(2) by (simp add: sync_inv_def matches_def u)
  ultimately show ?thesis using r2 p2(4,5) by blast
qed

text \<open>
  C21. An insert thread enters the wait group only when it first runs, so \<^verbatim>\<open>main\<close> can find the
  group empty, in the wait for the display and again after it: it then exits with downloaded entries in the channel that nobody inserts, while their
  position has been saved, so that no later run fetches them.
\<close>

theorem Exit_before_any_thread:
  "\<exists>ls p l. fetch_run sample_fetch_env sample_process ls p \<and> list_all advancing ls \<and> pr_main p = Exited
    \<and> length (pr_chan p) = 2 \<and> filter inserts ls = []
    \<and> saved_log comma_json (pr_db p) ''ct.example/log'' = Some l \<and> MaxEntry l = 2
    \<and> \<not> stored_cert (pr_db p) (stored_key (sample_cert, sample_cert))"
proof -
  obtain ls p where p: "fetch_run sample_fetch_env sample_process ls p" "list_all advancing ls" "filter inserts ls = []"
      "pr_main p = AwaitDownloaders" "pr_logs p = [(''https://ct.example/log'', LeftLoop)]" "pr_threads p = [Spawned]"
      "length (pr_chan p) = 2" "\<forall>k. \<not> stored_cert (pr_db p) k"
      "\<exists>l. saved_log comma_json (pr_db p) ''ct.example/log'' = Some l \<and> MaxEntry l = 2"
    using sample_unserved by blast
  let ?p0 = "p\<lparr>pr_closed := True, pr_cancelled := True, pr_main := AwaitDisplay\<rparr>"
  let ?p1 = "?p0\<lparr>pr_main := AwaitThreads\<rparr>" and ?p2 = "?p0\<lparr>pr_main := Exited\<rparr>"
  let ?ls = "((ls @ [MainStops]) @ [MainDisplayed]) @ [MainExits]"
  have "\<not> pr_closed p" using shutdown_ok_run [OF p(1) sample_fetch_start] p(4) by (simp add: shutdown_ok_def)
  then have 0: "fetch_step sample_fetch_env MainStops p ?p0"
    using p(4,5) by (simp add: MainStops_simps process_effects)
  have 1: "fetch_step sample_fetch_env MainDisplayed ?p0 ?p1"
    using p(6) by (simp add: MainDisplayed_simps threads_working_def)
  have 2: "fetch_step sample_fetch_env MainExits ?p1 ?p2"
    using p(6) by (simp add: MainExits_simps process_effects threads_working_def sample_fetch_env_def
        filesystem_certdb_def fs_Cleanup_def)
  have "fetch_run sample_fetch_env sample_process ?ls ?p2"
    by (rule fetch_run.step [OF fetch_run.step [OF fetch_run.step [OF p(1) 0] 1] 2])
  moreover have "list_all advancing ?ls" "filter inserts ?ls = []"
    using p(2,3) by (simp_all add: advancing_def)
  moreover have "pr_main ?p2 = Exited" "length (pr_chan ?p2) = 2" using p(7) by simp_all
  moreover have "\<not> stored_cert (pr_db ?p2) (stored_key (sample_cert, sample_cert))"
    using p(8) [rule_format, of "stored_key (sample_cert, sample_cert)"] by (simp add: stored_cert_def)
  moreover have "\<exists>l. saved_log comma_json (pr_db ?p2) ''ct.example/log'' = Some l \<and> MaxEntry l = 2" using p(9) by simp
  ultimately show ?thesis by blast
qed

end
