(* ===== verification/Storage_Statistics.thy ===== *)
theory Storage_Statistics
  imports Engine Database_Properties
begin

text \<open>
  \<^verbatim>\<open>cmd/storage-statistics/storage-statistics.go\<close>: the report of what the database knows. The
  report is the list of what is logged or written, in order, without the fixed words of a line.
\<close>

section \<open>The report\<close>

datatype report_line =
    IssuerLine string "string list"
  | DateLine string "64 word"
  | KnownLine "Serial list"
  | SerialLine string string string
  | ErrorLine go_error
  | PemOut string
  | IssuerTotals nat "64 word" nat nat
  | Totals nat "64 word" "64 word"
  | LogLine string

text \<open>
  What is not in the database: the verbosity of \<^verbatim>\<open>glog\<close>, the order in which \<^verbatim>\<open>Known\<close>
  and the issuer map are visited, \<^verbatim>\<open>url.Parse\<close> (host and path) and how a time is printed.
\<close>

record report_env =
  verbosity :: nat
  re_known_order :: "string list \<Rightarrow> string list"
  re_issuer_order :: "issuer_dates \<Rightarrow> issuer_dates"
  re_url :: "string \<Rightarrow> (string \<times> string) res"
  re_time :: "gotime \<Rightarrow> string"

fun dump_serials :: "'b StorageBackend \<Rightarrow> ExpDate \<Rightarrow> Issuer \<Rightarrow> Serial list \<Rightarrow> 'b \<Rightarrow> report_line list \<times> 'b" where
  "dump_serials sb expDate issuer [] b = ([], b)"
| "dump_serials sb expDate issuer (s # knownList) b =
     (case sb_LoadCertificatePEM sb s expDate issuer b of
        ((pemBytes, err), b) \<Rightarrow>
          (case dump_serials sb expDate issuer knownList b of
             (out, b) \<Rightarrow>
               (SerialLine (HexString s) (Serial_ID s) (BinaryString s)
                  # (case err of None \<Rightarrow> [] | Some e \<Rightarrow> [ErrorLine e]) @ PemOut pemBytes # out, b)))"

text \<open>The serials of one bucket are listed and dumped at verbosity 2 and 3.\<close>

definition date_details ::
    "('b, 'c, 'g) fs_deps \<Rightarrow> report_env \<Rightarrow> ExpDate \<Rightarrow> Issuer \<Rightarrow> KnownCertificates \<Rightarrow> ('b, 'c, 'g) FilesystemDatabase
      \<Rightarrow> (report_line list \<times> ('b, 'c, 'g) FilesystemDatabase) outcome" where
  "date_details deps env expDate issuer kc db =
     (if verbosity env < 2 then Done ([], db)
      else outcome_bind (Known (dep_cache deps) (re_known_order env) kc (extCache db)) (\<lambda>(knownList, c).
             let db = db\<lparr>extCache := c\<rparr>
             in if verbosity env < 3 then Done ([KnownLine knownList], db)
                else case dump_serials (dep_backend deps) expDate issuer knownList (fs_backend db) of
                       (out, b) \<Rightarrow> Done (KnownLine knownList # out, db\<lparr>fs_backend := b\<rparr>)))"

text \<open>The loop over the dates of an issuer, with the counts so far of the issuer and in total.\<close>

fun report_dates ::
    "('b, 'c, 'g) fs_deps \<Rightarrow> report_env \<Rightarrow> Issuer \<Rightarrow> ExpDate list \<Rightarrow> 64 word \<Rightarrow> 64 word \<Rightarrow> ('b, 'c, 'g) FilesystemDatabase
      \<Rightarrow> (report_line list \<times> 64 word \<times> 64 word \<times> ('b, 'c, 'g) FilesystemDatabase) outcome" where
  "report_dates deps env issuer [] countIssuerSerials totalSerials db = Done ([], countIssuerSerials, totalSerials, db)"
| "report_dates deps env issuer (expDate # expDates) countIssuerSerials totalSerials db =
     outcome_bind (GetKnownCertificates (dep_known deps) expDate issuer db) (\<lambda>(p, db).
     outcome_bind (kc_Count (dep_cache deps) (kc_heap db ! p) (extCache db)) (\<lambda>(n, c).
       let db = db\<lparr>extCache := c\<rparr>;
           countSerials = word_of_int n
       in outcome_bind (date_details deps env expDate issuer (kc_heap db ! p) db) (\<lambda>(out, db).
          outcome_bind (report_dates deps env issuer expDates (countIssuerSerials + countSerials) (totalSerials + countSerials) db)
            (\<lambda>(out', r). Done ((if verbosity env < 1 then [] else [DateLine (ExpDate_ID expDate) countSerials]) @ out @ out', r)))))"

text \<open>The loop over the issuers, with the totals so far.\<close>

fun report_issuers ::
    "('b, 'c, 'g) fs_deps \<Rightarrow> report_env \<Rightarrow> IssuerDate list \<Rightarrow> 64 word \<Rightarrow> 64 word \<Rightarrow> ('b, 'c, 'g) FilesystemDatabase
      \<Rightarrow> (report_line list \<times> 64 word \<times> 64 word \<times> ('b, 'c, 'g) FilesystemDatabase) outcome" where
  "report_issuers deps env [] totalSerials totalCRLs db = Done ([], totalSerials, totalCRLs, db)"
| "report_issuers deps env (issuerObj # issuerList) totalSerials totalCRLs db =
     (case GetIssuerMetadata (idt_Issuer issuerObj) db of (p, db) \<Rightarrow>
      outcome_bind (im_CRLs (dep_cache deps) (im_heap db ! p) (extCache db)) (\<lambda>(crlList, c).
      outcome_bind (im_Issuers (dep_cache deps) (im_heap db ! p) c) (\<lambda>(issuerDNList, c).
      outcome_bind (report_dates deps env (idt_Issuer issuerObj) (idt_ExpDates issuerObj) 0 totalSerials (db\<lparr>extCache := c\<rparr>))
        (\<lambda>(out, countIssuerSerials, totalSerials, db).
      outcome_bind (report_issuers deps env issuerList totalSerials (totalCRLs + of_nat (length crlList)) db)
        (\<lambda>(out', r).
          Done (IssuerLine (iss_id (idt_Issuer issuerObj)) issuerDNList # out
                @ IssuerTotals (length (idt_ExpDates issuerObj)) countIssuerSerials (length crlList) (length issuerDNList) # out', r))))))"

fun report_logs ::
    "('b, 'c, 'g) fs_deps \<Rightarrow> report_env \<Rightarrow> string list \<Rightarrow> ('b, 'c, 'g) FilesystemDatabase
      \<Rightarrow> (report_line list \<times> ('b, 'c, 'g) FilesystemDatabase) outcome" where
  "report_logs deps env [] db = Done ([], db)"
| "report_logs deps env (part # parts) db =
     (case re_url env (trim_space part) of
        Inl err \<Rightarrow> Panic ''unable to set Certificate Log''
      | Inr (host, path) \<Rightarrow>
          outcome_bind (GetLogState deps host path db) (\<lambda>((state, err), db).
            case err of
              Some e \<Rightarrow> Panic ''unable to GetLogState''
            | None \<Rightarrow>
                outcome_bind (report_logs deps env parts db)
                  (\<lambda>(out, db). Done (LogLine (CertificateLog_String (re_time env) state) # out, db))))"

text \<open>What \<^verbatim>\<open>main\<close> does once the storage and the telemetry are set up.\<close>

definition storage_statistics ::
    "('b, 'c, 'g) fs_deps \<Rightarrow> report_env \<Rightarrow> CTConfig \<Rightarrow> ('b, 'c, 'g) FilesystemDatabase
      \<Rightarrow> (report_line list \<times> ('b, 'c, 'g) FilesystemDatabase) outcome" where
  "storage_statistics deps env ctconfig db =
     outcome_bind (GetIssuerAndDatesFromCache (dep_cache deps) (re_issuer_order env) db) (\<lambda>((issuerList, err), db).
       case err of
         Some e \<Rightarrow> Panic ''GetIssuerAndDatesFromCache''
       | None \<Rightarrow>
           outcome_bind (report_issuers deps env issuerList 0 0 db) (\<lambda>(out, totalSerials, totalCRLs, db).
           outcome_bind (if 5 < length (LogUrlList ctconfig)
                         then report_logs deps env (strings_split '','' (LogUrlList ctconfig)) db else Done ([], db))
             (\<lambda>(out', db). Done (out @ Totals (length issuerList) totalSerials totalCRLs # out', db))))"

definition statistics_main ::
    "(string \<Rightarrow> duration \<Rightarrow> 's redis_client) \<Rightarrow> log_json \<Rightarrow> 'g gcache \<Rightarrow> url_parser \<Rightarrow> 'g \<Rightarrow> 'k metrics_library \<Rightarrow> report_env
      \<Rightarrow> CTConfig \<Rightarrow> disk \<Rightarrow> 's \<Rightarrow> (report_line list \<times> (disk, 's, 'g) FilesystemDatabase) outcome" where
  "statistics_main dial js gc url_Parse emptyCache lib env ctconfig d s =
     outcome_bind (GetConfiguredStorage dial js gc url_Parse emptyCache ctconfig d s) (\<lambda>(deps, storageDB).
     outcome_bind (PrepareTelemetry lib ''storage-statistics'' ctconfig) (\<lambda>_.
       storage_statistics deps env ctconfig storageDB))"

section \<open>What the report relies on\<close>

text \<open>
  A cache whose sets do not change while they are read: the contents are \<open>C\<close> as long as it is
  \<open>ok\<close>, and reading succeeds and leaves it so.
\<close>

locale steady_cache =
  fixes rc :: "'c RemoteCache"
    and C :: "string \<Rightarrow> string set"
    and ok :: "'c \<Rightarrow> bool"
  assumes List_steady: "ok c \<Longrightarrow> \<exists>l c'. rc_SetList rc k c = Done ((l, None), c') \<and> ok c' \<and> distinct l \<and> set l = C k"
    and Chan_steady: "ok c \<Longrightarrow> \<exists>l c'. rc_SetToChan rc k c = Done ((l, None), c') \<and> ok c'"
    and Card_steady: "ok c \<Longrightarrow> \<exists>c'. rc_SetCardinality rc k c = Done ((int (card (C k)), None), c') \<and> ok c'"
begin

abbreviation known_count :: "string \<Rightarrow> string \<Rightarrow> nat" where
  "known_count e i \<equiv> card (C (serials_key e i))"

lemma im_lists:
  assumes "ok c"
  shows "\<exists>l c'. im_CRLs rc im c = Done (l, c') \<and> ok c' \<and> length l = card (C (crlId im))"
    and "\<exists>l c'. im_Issuers rc im c = Done (l, c') \<and> ok c'"
proof -
  obtain l c' where l: "rc_SetList rc (crlId im) c = Done ((l, None), c')" "ok c'" "distinct l" "set l = C (crlId im)"
    using List_steady [OF assms] by blast
  then have "length l = card (C (crlId im))" using distinct_card [of l] by simp
  then show "\<exists>l c'. im_CRLs rc im c = Done (l, c') \<and> ok c' \<and> length l = card (C (crlId im))"
    using l by (simp add: im_CRLs_def)
  show "\<exists>l c'. im_Issuers rc im c = Done (l, c') \<and> ok c'"
    using List_steady [OF assms, of "issuersId im"] by (auto simp: im_Issuers_def)
qed

lemma Count_steady:
  assumes "ok c"
  shows "\<exists>c'. kc_Count rc kc c = Done (int (card (C (serialId kc []))), c') \<and> ok c'"
  using Card_steady [OF assms, of "serialId kc []"] by (auto simp: kc_Count_def)

lemma date_details_steady:
  assumes "dep_cache deps = rc" and "ok (extCache db)"
  shows "\<exists>out c b. date_details deps env e i kc db = Done (out, db\<lparr>extCache := c, fs_backend := b\<rparr>) \<and> ok c"
proof -
  obtain l c where k: "Known rc (re_known_order env) kc (extCache db) = Done (l, c)" "ok c"
    using Chan_steady [OF assms(2), of "serialId kc []"] by (auto simp: Known_def Let_def)
  have s: "db = db\<lparr>extCache := extCache db, fs_backend := fs_backend db\<rparr>" by simp
  obtain out b where d: "dump_serials (dep_backend deps) e i l (fs_backend db) = (out, b)" by fastforce
  consider "verbosity env < 2" | "\<not> verbosity env < 2" "verbosity env < 3" | "\<not> verbosity env < 3" by linarith
  then show ?thesis
  proof cases
    case 1
    then have "date_details deps env e i kc db = Done ([], db\<lparr>extCache := extCache db, fs_backend := fs_backend db\<rparr>)"
      by (simp add: date_details_def)
    then show ?thesis using assms(2) by blast
  next
    case 2
    then have "date_details deps env e i kc db = Done ([KnownLine l], db\<lparr>extCache := c, fs_backend := fs_backend db\<rparr>)"
      using k assms(1) by (simp add: date_details_def Let_def)
    then show ?thesis using k(2) by blast
  next
    case 3
    then have "date_details deps env e i kc db = Done (KnownLine l # out, db\<lparr>extCache := c, fs_backend := b\<rparr>)"
      using k assms(1) d by (simp add: date_details_def Let_def)
    then show ?thesis using k(2) by blast
  qed
qed

lemma report_dates_counts:
  assumes "gcache_laws (dep_known deps) held" and "dep_cache deps = rc"
  shows "\<lbrakk>fs_ok held db; ok (extCache db); \<forall>e \<in> set es. length (ExpDate_ID e) = 13\<rbrakk> \<Longrightarrow>
    \<exists>out db'. report_dates deps env i es a t db
        = Done (out, a + of_nat (\<Sum>e\<leftarrow>es. known_count (ExpDate_ID e) (iss_id i)),
                     t + of_nat (\<Sum>e\<leftarrow>es. known_count (ExpDate_ID e) (iss_id i)), db')
      \<and> fs_ok held db' \<and> ok (extCache db')"
proof (induction es arbitrary: a t db)
  case (Cons e es)
  have len: "length (ExpDate_ID e) = 13" using Cons(4) by simp
  obtain p g h where g: "GetKnownCertificates (dep_known deps) e i db = Done (p, db\<lparr>knownCertsCache := g, kc_heap := h\<rparr>)"
    and p: "serialId (h ! p) [] = serialId (NewKnownCertificates e i) []"
    and f: "fs_ok held (db\<lparr>knownCertsCache := g, kc_heap := h\<rparr>)"
    by (rule GetKnownCertificates_spec [OF assms(1) Cons(2) len])
  let ?n = "known_count (ExpDate_ID e) (iss_id i)"
  have key: "serialId (h ! p) [] = serials_key (ExpDate_ID e) (iss_id i)"
    using p by (simp add: serialId_key NewKnownCertificates_def)
  obtain c where c: "kc_Count rc (h ! p) (extCache db) = Done (int ?n, c)" "ok c"
    using Count_steady [OF Cons(3), of "h ! p"] by (auto simp: key)
  let ?db = "db\<lparr>knownCertsCache := g, kc_heap := h, extCache := c\<rparr>"
  obtain out c' b where d: "date_details deps env e i (h ! p) ?db = Done (out, ?db\<lparr>extCache := c', fs_backend := b\<rparr>)" "ok c'"
    using date_details_steady [OF assms(2), of ?db env e i "h ! p"] c(2) by auto
  have f': "fs_ok held (?db\<lparr>extCache := c', fs_backend := b\<rparr>)" using f by (simp add: fs_ok_def)
  show ?case
    using Cons(1) [OF f', of "a + of_nat ?n" "t + of_nat ?n"] d(2) Cons(4)
    by (auto simp: g assms(2) c d(1) Let_def algebra_simps)
qed simp

lemma report_issuers_counts:
  assumes "gcache_laws (dep_known deps) held" and "dep_cache deps = rc"
  shows "\<lbrakk>fs_ok held db; ok (extCache db); \<forall>x \<in> set l. \<forall>e \<in> set (idt_ExpDates x). length (ExpDate_ID e) = 13\<rbrakk> \<Longrightarrow>
    \<exists>out db'. report_issuers deps env l t r db
        = Done (out, t + of_nat (\<Sum>x\<leftarrow>l. \<Sum>e\<leftarrow>idt_ExpDates x. known_count (ExpDate_ID e) (iss_id (idt_Issuer x))),
                     r + of_nat (\<Sum>x\<leftarrow>l. card (C (crlId (NewIssuerMetadata (idt_Issuer x))))), db')"
proof (induction l arbitrary: t r db)
  case (Cons x l)
  let ?i = "idt_Issuer x" and ?es = "idt_ExpDates x"
  let ?n = "\<Sum>e\<leftarrow>?es. known_count (ExpDate_ID e) (iss_id ?i)"
  obtain p m h where g: "GetIssuerMetadata ?i db = (p, db\<lparr>meta := m, im_heap := h\<rparr>)"
    and p: "im_id (h ! p) = iss_id ?i" and f: "fs_ok held (db\<lparr>meta := m, im_heap := h\<rparr>)"
    by (rule GetIssuerMetadata_spec [OF Cons(2)])
  obtain crls c where c: "im_CRLs rc (h ! p) (extCache db) = Done (crls, c)" "ok c"
      "length crls = card (C (crlId (NewIssuerMetadata ?i)))"
    using im_lists(1) [OF Cons(3), of "h ! p"] p by (auto simp: crlId_def im_id_def NewIssuerMetadata_def)
  obtain dns c' where c': "im_Issuers rc (h ! p) c = Done (dns, c')" "ok c'"
    using im_lists(2) [OF c(2)] by blast
  let ?db = "db\<lparr>meta := m, im_heap := h, extCache := c'\<rparr>"
  have f': "fs_ok held ?db" using f by (simp add: fs_ok_def)
  have len: "\<forall>e \<in> set ?es. length (ExpDate_ID e) = 13" using Cons(4) by simp
  have o: "ok (extCache ?db)" using c'(2) by simp
  obtain out db' where d: "report_dates deps env ?i ?es 0 t ?db = Done (out, of_nat ?n, t + of_nat ?n, db')"
    and db': "fs_ok held db'" "ok (extCache db')"
    using report_dates_counts [OF assms f' o len, of env ?i 0 t] by auto
  have len': "\<forall>x \<in> set l. \<forall>e \<in> set (idt_ExpDates x). length (ExpDate_ID e) = 13" using Cons(4) by simp
  obtain out' db'' where r: "report_issuers deps env l (t + of_nat ?n) (r + of_nat (length crls)) db'
      = Done (out', t + of_nat ?n + of_nat (\<Sum>x\<leftarrow>l. \<Sum>e\<leftarrow>idt_ExpDates x. known_count (ExpDate_ID e) (iss_id (idt_Issuer x))),
           r + of_nat (length crls) + of_nat (\<Sum>x\<leftarrow>l. card (C (crlId (NewIssuerMetadata (idt_Issuer x))))), db'')"
    using Cons(1) [OF db' len'] by blast
  show ?case by (simp add: g assms(2) c c'(1) d r [unfolded c(3)] add.assoc)
qed simp

end

section \<open>The in-memory cache is steady while nothing expires\<close>

definition quiet :: "(string \<Rightarrow> string set) \<Rightarrow> mock_world \<Rightarrow> bool" where
  "quiet C w \<longleftrightarrow> world_ok w \<and> mock_contents (snd w) = C \<and> (\<forall>n k. \<not> gone (clock (fst w) n) (snd w) k)"

lemma quiet_cleanup:
  assumes "quiet C w"
  shows "quiet C (tick (fst w), CleanupExpiry (order (fst w) 0) (clock (fst w) 0) (snd w))"
proof -
  let ?ec = "CleanupExpiry (order (fst w) 0) (clock (fst w) 0) (snd w)"
  have w: "mock_ok (snd w)" "rearranges (order (fst w) 0)" using assms by (auto simp: quiet_def world_ok_def env_ok_def)
  have g: "\<not> gone (clock (fst w) n) (snd w) k" for n k using assms by (simp add: quiet_def)
  have e: "gm_get (Expirations ?ec) k = gm_get (Expirations (snd w)) k" for k
    using CleanupExpiry_simps(2) [OF w] g [of 0 k] by simp
  have "mock_contents ?ec = C"
    using CleanupExpiry_list [OF w] g [of 0] assms by (auto simp: mock_contents_def quiet_def fun_eq_iff)
  moreover have "\<not> gone (clock (tick (fst w)) n) ?ec k" for n k
    using g [of "Suc n" k] by (simp add: gone_def e tick_def)
  moreover have "world_ok (tick (fst w), ?ec)" using world_lapse(1) assms by (simp add: quiet_def)
  ultimately show ?thesis by (simp add: quiet_def)
qed

lemma quiet_tick: "quiet C w \<Longrightarrow> quiet C (tick (fst w), snd w)"
  by (auto simp: quiet_def world_ok_def tick_def env_ok_def)

interpretation mock_steady: steady_cache "mock_cache js" C "quiet C"
proof (unfold_locales, goal_cases)
  case (1 c k)
  let ?ec = "CleanupExpiry (order (fst c) 0) (clock (fst c) 0) (snd c)"
  note q = quiet_cleanup [OF 1]
  then have "sorted_wrt (<) (gm_list (Data ?ec) k)" "mock_contents ?ec = C"
    by (auto simp: quiet_def world_ok_def dest: mock_ok_sorted)
  then have "distinct (gm_list (Data ?ec) k)" "set (gm_list (Data ?ec) k) = C k"
    by (auto simp: strict_sorted_iff mock_contents_def)
  then show ?case using q by (auto simp: mock_ops)
next
  case (2 c k)
  then show ?case using quiet_cleanup [OF 2] by (auto simp: mock_ops)
next
  case (3 c k)
  then have "card (C k) = length (gm_list (Data (snd c)) k)"
    using mock_contents_card [of "snd c" k] by (auto simp: quiet_def world_ok_def)
  then show ?case using 3 by (simp add: mock_ops)
qed

section \<open>The totals\<close>

text \<open>Counting per issuer and date counts each key of a serial set once.\<close>

definition hour_keys :: "(string \<times> string) list \<Rightarrow> bool" where
  "hour_keys ps \<longleftrightarrow> (\<forall>(d, i) \<in> set ps. colon_free d \<and> colon_free i \<and> length d = 13
     \<and> (\<exists>e. NewExpDate d = Inr e \<and> ExpDate_ID e = d))"

lemma dates_of_Cons:
  "NewExpDate d = Inr e \<Longrightarrow> dates_of ((d, i) # ps) j = (if i = j then [e] else []) @ dates_of ps j"
  by (simp add: dates_of_def)

lemma hour_keys_dates:
  assumes "hour_keys ps"
  shows "(\<forall>e \<in> set (dates_of ps i). length (ExpDate_ID e) = 13) \<and> (dates_of ps i \<noteq> [] \<longleftrightarrow> i \<in> snd ` set ps)"
  using assms
proof (induction ps)
  case (Cons p ps)
  obtain d j where p: "p = (d, j)" by fastforce
  then obtain e where e: "NewExpDate d = Inr e" "ExpDate_ID e = d" "length d = 13" and ps: "hour_keys ps"
    using Cons(2) by (auto simp: hour_keys_def)
  then show ?case using Cons(1) [OF ps] dates_of_Cons [OF e(1), of j ps i] by (auto simp: p)
qed (simp add: dates_of_def)

lemma sum_dates_of:
  assumes "hour_keys ps" and "finite I" and "snd ` set ps \<subseteq> I"
  shows "(\<Sum>i\<in>I. \<Sum>e\<leftarrow>dates_of ps i. f (ExpDate_ID e) i) = (\<Sum>(d, i)\<leftarrow>ps. f d i :: nat)"
  using assms(1,3)
proof (induction ps)
  case (Cons p ps)
  obtain d j where p: "p = (d, j)" by fastforce
  then obtain e where e: "NewExpDate d = Inr e" "ExpDate_ID e = d" and ps: "hour_keys ps"
    using Cons(2) by (auto simp: hour_keys_def)
  have j: "j \<in> I" "snd ` set ps \<subseteq> I" using Cons(3) by (auto simp: p)
  have "(\<Sum>i\<in>I. \<Sum>x\<leftarrow>dates_of (p # ps) i. f (ExpDate_ID x) i)
      = (\<Sum>i\<in>I. (if j = i then f d i else 0) + (\<Sum>x\<leftarrow>dates_of ps i. f (ExpDate_ID x) i))"
    by (rule sum.cong) (simp_all add: p dates_of_Cons [OF e(1)] e(2))
  also have "\<dots> = f d j + (\<Sum>(d, i)\<leftarrow>ps. f d i)"
    using Cons(1) [OF ps j(2)] j(1) assms(2) by (simp add: sum.distrib)
  finally show ?case by (simp add: p)
qed (simp add: dates_of_def)

definition serial_keys :: "MockRemoteCache \<Rightarrow> string set" where
  "serial_keys ec = {k \<in> fst ` set (Data ec). prefix ''serials::'' k}"

text \<open>The keys of the serial sets are those that the database makes, for hour buckets.\<close>

definition serial_keys_ok :: "MockRemoteCache \<Rightarrow> bool" where
  "serial_keys_ok ec \<longleftrightarrow> (\<forall>k \<in> serial_keys ec. \<exists>e i. k = serials_key (ExpDate_ID e) i
     \<and> parsed_exp e \<and> length (ExpDate_ID e) = 13 \<and> colon_free i \<and> CHR ''/'' \<notin> set i)"

lemma KeysToChan_serials:
  assumes "world_ok w" and "serial_keys_ok (snd w)"
  shows "\<exists>ps. rc_KeysToChan (mock_cache js) ''serials::*'' w
      = Done ((map (\<lambda>(d, i). serials_key d i) ps, None), tick (fst w), snd w)
    \<and> hour_keys ps \<and> distinct (map (\<lambda>(d, i). serials_key d i) ps)
    \<and> set (map (\<lambda>(d, i). serials_key d i) ps) = serial_keys (snd w)"
proof -
  define ks where "ks = korder (fst w) 0 (map fst (Data (snd w)))"
  define S where "S = filter (prefix ''serials::'') ks"
  have r: "rearranges (korder (fst w) 0)" and d: "distinct (map fst (Data (snd w)))"
    using assms(1) by (auto simp: world_ok_def env_ok_def mock_ok_def gm_ok_def)
  then have S: "distinct S" "set S = serial_keys (snd w)"
    using rearranges_distinct [OF r] rearranges_set [OF r] by (auto simp: S_def ks_def serial_keys_def)
  obtain f where f: "\<forall>k \<in> serial_keys (snd w). k = serials_key (ExpDate_ID (fst (f k))) (snd (f k))
     \<and> parsed_exp (fst (f k)) \<and> length (ExpDate_ID (fst (f k))) = 13 \<and> colon_free (snd (f k)) \<and> CHR ''/'' \<notin> set (snd (f k))"
    using bchoice [of "serial_keys (snd w)" "\<lambda>k x. k = serials_key (ExpDate_ID (fst x)) (snd x) \<and> parsed_exp (fst x)
      \<and> length (ExpDate_ID (fst x)) = 13 \<and> colon_free (snd x) \<and> CHR ''/'' \<notin> set (snd x)"] assms(2)
    by (auto simp: serial_keys_ok_def)
  define ps where "ps = map (\<lambda>k. (ExpDate_ID (fst (f k)), snd (f k))) S"
  have m: "map (\<lambda>(d, i). serials_key d i) ps = S"
    unfolding ps_def map_map o_def by (rule map_idI) (use f S(2) in auto)
  have free: "colon_free (ExpDate_ID e) \<and> CHR ''/'' \<notin> set (ExpDate_ID e)" if "parsed_exp e" for e
    using ExpDate_ID_no_colon ExpDate_ID_no_slash parsed_exp_year that by simp
  have h: "hour_keys ps"
    using f S(2) free NewExpDate_ExpDate_ID by (auto simp: hour_keys_def ps_def)
  have slash: "CHR ''/'' \<notin> set (drop 9 k)" if "k \<in> set S" for k
  proof -
    have "k = serials_key (ExpDate_ID (fst (f k))) (snd (f k))" and "parsed_exp (fst (f k))" and "CHR ''/'' \<notin> set (snd (f k))"
      using f S(2) that by auto
    moreover have "drop 9 (serials_key d i) = d @ ''::'' @ i" for d i by (simp add: serials_key_def)
    ultimately have "drop 9 k = ExpDate_ID (fst (f k)) @ ''::'' @ snd (f k)" by metis
    then show ?thesis using free [of "fst (f k)"] \<open>parsed_exp (fst (f k))\<close> \<open>CHR ''/'' \<notin> set (snd (f k))\<close> by simp
  qed
  have n: "length ''serials::'' = 9" by simp
  have "send_matching (''serials::'' @ ''*'') ks = (filter (\<lambda>k. prefix ''serials::'' k \<and> CHR ''/'' \<notin> set (drop (length ''serials::'') k)) ks, None)"
    by (rule send_matching_prefix) (simp_all add: plain_char_def)
  moreover have "filter (\<lambda>k. prefix ''serials::'' k \<and> CHR ''/'' \<notin> set (drop (length ''serials::'') k)) ks = S"
    unfolding S_def n using slash by (auto simp: S_def intro!: filter_cong)
  ultimately have "rc_KeysToChan (mock_cache js) ''serials::*'' w = Done ((S, None), tick (fst w), snd w)"
    by (simp add: mock_cache_def Mock_KeysToChan_def ks_def)
  then show ?thesis using m h S by metis
qed

definition issuers_of_keys :: "string set \<Rightarrow> string set" where
  "issuers_of_keys K = {i. colon_free i \<and> (\<exists>d. colon_free d \<and> serials_key d i \<in> K)}"

lemma issuers_of_keys_eq:
  assumes "hour_keys ps"
  shows "issuers_of_keys (set (map (\<lambda>(d, i). serials_key d i) ps)) = snd ` set ps"
proof -
  have cf: "colon_free d \<and> colon_free i" if "(d, i) \<in> set ps" for d i
    using assms that by (auto simp: hour_keys_def)
  have eq: "i = i'" if "colon_free d" "colon_free i" "(d', i') \<in> set ps" "serials_key d i = serials_key d' i'" for d i d' i'
  proof -
    have "[''serials'', d, i] = [''serials'', d', i']"
      using split_serials_key [OF that(1,2)] split_serials_key [of d' i'] cf [OF that(3)] that(4) by metis
    then show ?thesis by simp
  qed
  show ?thesis
  proof (intro set_eqI iffI)
    fix i assume "i \<in> issuers_of_keys (set (map (\<lambda>(d, i). serials_key d i) ps))"
    then obtain d where "colon_free d" "colon_free i" and k: "serials_key d i \<in> (\<lambda>(d, i). serials_key d i) ` set ps"
      unfolding issuers_of_keys_def set_map by blast
    moreover obtain d' i' where "(d', i') \<in> set ps" "serials_key d i = serials_key d' i'" using k by auto
    ultimately show "i \<in> snd ` set ps" using eq by (metis image_eqI snd_conv)
  next
    fix i assume "i \<in> snd ` set ps"
    then obtain d where "(d, i) \<in> set ps" by auto
    then show "i \<in> issuers_of_keys (set (map (\<lambda>(d, i). serials_key d i) ps))"
      using cf unfolding issuers_of_keys_def set_map by force
  qed
qed

text \<open>
  C28. The totals of the report: as long as nothing expires meanwhile, it lists every issuer of a
  serial set once, and its number of serials is the sum of the sizes of all serial sets of the
  cache, that is the number of certificates recorded (modulo \<open>2 ^ 64\<close>), whatever the verbosity; its
  number of distribution points is the sum over these issuers.
\<close>

theorem Statistics_totals:
  fixes db :: "('b, mock_world, 'g) FilesystemDatabase"
  assumes laws: "gcache_laws (dep_known deps) held" and cache: "dep_cache deps = mock_cache js"
    and ord: "rearranges (re_issuer_order env)" and fs: "fs_ok held db"
    and q: "quiet C (extCache db)" and keys: "serial_keys_ok (snd (extCache db))"
  shows "\<exists>out db1. storage_statistics deps env cfg db =
      outcome_bind (if 5 < length (LogUrlList cfg)
                    then report_logs deps env (strings_split '','' (LogUrlList cfg)) db1 else Done ([], db1))
        (\<lambda>(out', db2). Done (out @ Totals (card (issuers_of_keys (serial_keys (snd (extCache db)))))
             (of_nat (\<Sum>k\<in>serial_keys (snd (extCache db)). card (C k)))
             (of_nat (\<Sum>i\<in>issuers_of_keys (serial_keys (snd (extCache db))). card (C (crlId (NewIssuerMetadata (NewIssuerFromString i)))))) # out', db2))"
proof -
  let ?w = "extCache db" and ?key = "\<lambda>(d, i). serials_key d i" and ?id = "\<lambda>x. iss_id (idt_Issuer x)"
  let ?crls = "\<lambda>i. card (C (crlId (NewIssuerMetadata (NewIssuerFromString i))))"
  have "world_ok ?w" using q by (simp add: quiet_def)
  then obtain ps where k: "rc_KeysToChan (mock_cache js) ''serials::*'' ?w = Done ((map ?key ps, None), tick (fst ?w), snd ?w)"
    and h: "hour_keys ps" and d: "distinct (map ?key ps)" and K: "set (map ?key ps) = serial_keys (snd ?w)"
    using KeysToChan_serials [OF _ keys] by blast
  have cf: "\<forall>(d, i) \<in> set ps. colon_free d \<and> colon_free i" using h by (auto simp: hour_keys_def)
  let ?db = "db\<lparr>extCache := (tick (fst ?w), snd ?w)\<rparr>" and ?I = "snd ` set ps"
  obtain l where l: "GetIssuerAndDatesFromCache (mock_cache js) (re_issuer_order env) db = Done ((l, None), ?db)" "distinct l"
    "set l = {\<lparr>idt_Issuer = NewIssuerFromString i, idt_ExpDates = dates_of ps i\<rparr> | i. dates_of ps i \<noteq> []}"
    using GetIssuerAndDates_list [OF ord cf k] by blast
  have set_l: "set l = (\<lambda>i. \<lparr>idt_Issuer = NewIssuerFromString i, idt_ExpDates = dates_of ps i\<rparr>) ` ?I"
    using hour_keys_dates [OF h] unfolding l(3) by blast
  have inj: "inj_on (\<lambda>i. \<lparr>idt_Issuer = NewIssuerFromString i, idt_ExpDates = dates_of ps i\<rparr>) A" for A
    by (rule inj_on_inverseI [where g = ?id]) simp
  have sums: "(\<Sum>x\<leftarrow>l. f x) = (\<Sum>i\<in>?I. f \<lparr>idt_Issuer = NewIssuerFromString i, idt_ExpDates = dates_of ps i\<rparr>)" for f :: "IssuerDate \<Rightarrow> nat"
    by (simp add: sum_list_distinct_conv_sum_set [OF l(2)] set_l sum.reindex [OF inj])
  have len: "\<forall>x \<in> set l. \<forall>e \<in> set (idt_ExpDates x). length (ExpDate_ID e) = 13"
    using hour_keys_dates [OF h] by (auto simp: set_l)
  have I: "issuers_of_keys (serial_keys (snd ?w)) = ?I" using issuers_of_keys_eq [OF h] K by simp
  have n: "length l = card ?I" using distinct_card [OF l(2)] set_l card_image [OF inj] by metis
  have "(\<Sum>i\<in>?I. \<Sum>e\<leftarrow>dates_of ps i. card (C (serials_key (ExpDate_ID e) i))) = (\<Sum>(d, i)\<leftarrow>ps. card (C (serials_key d i)))"
    by (rule sum_dates_of [OF h]) simp_all
  also have "\<dots> = (\<Sum>k\<leftarrow>map ?key ps. card (C k))" by (simp add: o_def case_prod_unfold)
  also have "\<dots> = (\<Sum>k\<in>serial_keys (snd ?w). card (C k))" unfolding sum_list_distinct_conv_sum_set [OF d] K ..
  finally have total: "(\<Sum>i\<in>?I. \<Sum>e\<leftarrow>dates_of ps i. card (C (serials_key (ExpDate_ID e) i))) = (\<Sum>k\<in>serial_keys (snd ?w). card (C k))" .
  have f: "fs_ok held ?db" and q': "quiet C (extCache ?db)" using fs quiet_tick [OF q] by simp_all
  obtain out db1 where r: "report_issuers deps env l 0 0 ?db
      = Done (out, of_nat (\<Sum>k\<in>serial_keys (snd ?w). card (C k)), of_nat (\<Sum>i\<in>?I. ?crls i), db1)"
    using mock_steady.report_issuers_counts [OF laws cache f q' len, of env 0 0]
    unfolding sums IssuerDate.select_convs iss_id_FromString total by auto
  show ?thesis
    unfolding storage_statistics_def cache l(1) by (auto simp: r n I)
qed

definition sample_counts :: MockRemoteCache where
  "sample_counts = NewMockRemoteCache\<lparr>Data := [(serials_key ''2029-01-30-04'' ''i'', [''a'', ''b'']), (''crl::i'', [''c''])]\<rparr>"

definition sample_report_env :: report_env where
  "sample_report_env = \<lparr>verbosity = 3, re_known_order = rev, re_issuer_order = rev, re_url = (\<lambda>u. Inr (u, [])),
     re_time = (\<lambda>t. [])\<rparr>"

theorem Statistics_totals_witness:
  "\<exists>out db1. storage_statistics (mock_deps sample_json rev map_gcache sample_url) sample_report_env NewCTConfig
      (fresh_db\<lparr>extCache := (steady_env (utc 0), sample_counts)\<rparr>)
    = Done (out @ [Totals 1 2 1], db1)"
proof -
  let ?db = "fresh_db\<lparr>extCache := (steady_env (utc 0), sample_counts)\<rparr>" and ?C = "mock_contents sample_counts"
  let ?d = "''2029-01-30-04''"
  have e: "ExpDate_ID sample_bucket = ?d" by code_simp
  have pe: "parsed_exp sample_bucket" by (rule parsed_exp_NewExpDate [OF NewExpDate_sample])
  have keys: "serial_keys sample_counts = {serials_key ?d ''i''}"
    by (auto simp: serial_keys_def sample_counts_def NewMockRemoteCache_def serials_key_def)
  have "NewExpDate ?d = Inr sample_bucket" using NewExpDate_ExpDate_ID [OF pe] by (simp add: e)
  then have h: "hour_keys [(?d, ''i'')]" using e by (simp add: hour_keys_def)
  have I: "issuers_of_keys {serials_key ?d ''i''} = {''i''}"
    using issuers_of_keys_eq [OF h] by simp
  have C: "?C (serials_key ?d ''i'') = {''a'', ''b''}" "?C (crlId (NewIssuerMetadata (NewIssuerFromString ''i''))) = {''c''}"
    by (simp_all add: mock_contents_def sample_counts_def gm_list_def serials_key_def crlId_def im_id_def
        NewIssuerMetadata_def)
  have "mock_ok sample_counts"
    by (simp add: mock_ok_def sample_counts_def NewMockRemoteCache_def gm_ok_def serials_key_def)
  then have q: "quiet ?C (extCache ?db)"
    by (simp add: quiet_def world_ok_def gone_def) (simp add: sample_counts_def NewMockRemoteCache_def)
  have f: "fs_ok (\<lambda>g. gm_get g) ?db" using fresh_db_inv by (simp add: db_inv_def)
  have k: "serial_keys_ok (snd (extCache ?db))"
    using e pe by (auto simp: serial_keys_ok_def keys intro!: exI [of _ sample_bucket] exI [of _ "''i''"])
  have deps: "gcache_laws (dep_known (mock_deps sample_json rev map_gcache sample_url)) (\<lambda>g. gm_get g)"
      "dep_cache (mock_deps sample_json rev map_gcache sample_url) = mock_cache sample_json"
    using map_gcache_laws by simp_all
  have r: "rearranges (re_issuer_order sample_report_env)" by (simp add: sample_report_env_def)
  have s: "snd (extCache ?db) = sample_counts" by simp
  have c: "card (?C (serials_key ?d ''i'')) = 2" "card (?C (crlId (NewIssuerMetadata (NewIssuerFromString ''i'')))) = 1"
    unfolding C by simp_all
  from Statistics_totals [OF deps r f q k, of NewCTConfig] show ?thesis
    unfolding s keys I by (auto simp: c NewCTConfig_def)
qed

end
