(* ===== verification/Get_Cert.thy ===== *)
theory Get_Cert
  imports CT_Fetch
begin

text \<open>
  The tool of \<^verbatim>\<open>cmd/ct-getcert/ct-getcert.go\<close>: it asks a log for one entry and prints its
  certificate as PEM. The client of the log is a parameter; so is standard output, as a state and
  what writing to it does.
\<close>

section \<open>The program\<close>

text \<open>
  \<open>gl_RawLogEntryFromLeaf\<close> gives the bytes of the certificate of the raw entry, and \<open>None\<close> for the
  nil pointer, next to the error.
\<close>

record 'raw getcert_library =
  gl_New :: "string \<Rightarrow> go_error option"
  gl_GetRawEntries :: "string \<Rightarrow> int \<Rightarrow> int \<Rightarrow> 'raw list res"
  gl_RawLogEntryFromLeaf :: "int \<Rightarrow> 'raw \<Rightarrow> bytes option \<times> leaf_error option"

text \<open>An erroneous entry is skipped; an error of the output is logged.\<close>

fun getcert_entries ::
    "'raw getcert_library \<Rightarrow> (string \<Rightarrow> 'o \<Rightarrow> go_error option \<times> 'o) \<Rightarrow> 64 word \<Rightarrow> 'raw list \<Rightarrow> 'o \<Rightarrow> 'o outcome" where
  "getcert_entries lib write index [] out = Done out"
| "getcert_entries lib write index (entry # entries) out =
     (case gl_RawLogEntryFromLeaf lib (sint index) entry of
        (rawEntry, Some (FatalError err)) \<Rightarrow> getcert_entries lib write index entries out
      | (None, _) \<Rightarrow> Panic nil_deref
      | (Some certData, _) \<Rightarrow>
          (case write (pem_EncodeToMemory ''CERTIFICATE'' certData) out of
             (err, out) \<Rightarrow> getcert_entries lib write index entries out))"

text \<open>The arguments \<open>logURL\<close> and \<open>index\<close> are the values of the two flags.\<close>

definition getcert_main ::
    "'raw getcert_library \<Rightarrow> (string \<Rightarrow> 'o \<Rightarrow> go_error option \<times> 'o) \<Rightarrow> string \<Rightarrow> 64 word \<Rightarrow> 'o \<Rightarrow> 'o outcome" where
  "getcert_main lib write logURL index out =
     (case gl_New lib logURL of
        Some err \<Rightarrow> Panic ''Unable to construct CT log client''
      | None \<Rightarrow>
          (case gl_GetRawEntries lib logURL (sint index) (sint index) of
             Inl err \<Rightarrow> Panic ''GetRawEntries''
           | Inr entries \<Rightarrow> getcert_entries lib write index entries out))"

section \<open>What is printed\<close>

text \<open>The certificates of a response, erroneous entries left out.\<close>

definition leaf_certs :: "'raw getcert_library \<Rightarrow> 64 word \<Rightarrow> 'raw list \<Rightarrow> bytes list" where
  "leaf_certs lib index entries =
     concat (map (\<lambda>entry. case gl_RawLogEntryFromLeaf lib (sint index) entry of
         (rawEntry, Some (FatalError err)) \<Rightarrow> []
       | (rawEntry, _) \<Rightarrow> (case rawEntry of Some b \<Rightarrow> [b] | None \<Rightarrow> [])) entries)"

lemma getcert_entries_prints:
  assumes "\<forall>entry \<in> set entries. fst (gl_RawLogEntryFromLeaf lib (sint index) entry) = None
      \<longrightarrow> (\<exists>err. snd (gl_RawLogEntryFromLeaf lib (sint index) entry) = Some (FatalError err))"
  shows "getcert_entries lib (\<lambda>s out. (None, out @ [s])) index entries out
    = Done (out @ map (pem_EncodeToMemory ''CERTIFICATE'') (leaf_certs lib index entries))"
  using assms
  by (induction entries arbitrary: out)
    (auto simp: leaf_certs_def split: prod.splits option.splits leaf_error.splits)

text \<open>
  When no raw entry is nil without an error that is fatal, the program prints one block for each
  entry that is not erroneous, in order, from which the bytes of its certificate can be read back.
\<close>

theorem getcert_prints_certificates:
  assumes "gl_New lib logURL = None" and "gl_GetRawEntries lib logURL (sint index) (sint index) = Inr entries"
    and "\<forall>entry \<in> set entries. fst (gl_RawLogEntryFromLeaf lib (sint index) entry) = None
      \<longrightarrow> (\<exists>err. snd (gl_RawLogEntryFromLeaf lib (sint index) entry) = Some (FatalError err))"
  shows "\<exists>blocks. getcert_main lib (\<lambda>s out. (None, out @ [s])) logURL index [] = Done blocks
    \<and> map (pem_bytes ''CERTIFICATE'') blocks = map Inr (leaf_certs lib index entries)"
  using getcert_entries_prints [OF assms(3), of "[]"] assms(1,2) by (simp add: getcert_main_def)

end
