(* ===== verification/Disk_Writes.thy ===== *)
theory Disk_Writes
  imports Local_Disk
begin

text \<open>
  When the calls of the local disk succeed: on a disk without faults, where nothing is in the way
  of what they make.
\<close>

section \<open>Writing to a healthy disk\<close>

text \<open>Where directories appear, and that the directories of a path can be made.\<close>

lemma ft_put_is_dir:
  "is_dir (ft_lookup (ft_put p v t) q) \<Longrightarrow> is_dir (ft_lookup t q) \<or> (\<exists>r. q = p @ r \<and> is_dir (ft_lookup v r))"
proof (induction p v t arbitrary: q rule: ft_put.induct)
  case (3 n ns v es)
  show ?case
  proof (cases q)
    case Nil
    then show ?thesis by (simp add: is_dir_def)
  next
    case (Cons m ms)
    then show ?thesis using 3
      by (cases "m = n"; cases "map_of es n") (auto simp: update_conv split: if_splits)
  qed
qed simp_all

lemma ft_put_root: "is_dir (Some t) \<Longrightarrow> p \<noteq> [] \<Longrightarrow> is_dir (Some (ft_put p v t))"
  by (cases p; cases t) (auto simp: is_dir_def split: option.splits)

lemma mkdir_elems_dirs:
  "\<lbrakk>mkdir_elems made es d = (er, d'); is_dir (ft_lookup (disk_tree d') q)\<rbrakk>
    \<Longrightarrow> is_dir (ft_lookup (disk_tree d) q) \<or> (\<exists>k \<le> length es. q = made @ take k es)"
proof (induction made es d rule: mkdir_elems.induct)
  case (2 made e es d)
  have up: "\<exists>k \<le> length (e # es). q = made @ take k (e # es)" if "\<exists>k \<le> length es. q = (made @ [e]) @ take k es"
    using that by (metis append.assoc append_Cons append_Nil length_Cons not_less_eq_eq take_Suc_Cons)
  show ?case
  proof (cases "ft_lookup (disk_tree d) (made @ [e])")
    case None
    show ?thesis
    proof (cases "io_mkdir (disk_faults d) (made @ [e])")
      case n: None
      let ?d = "d\<lparr>disk_tree := ft_put (made @ [e]) (FDir []) (disk_tree d)\<rparr>"
      have "is_dir (ft_lookup (disk_tree ?d) q) \<or> (\<exists>k \<le> length es. q = (made @ [e]) @ take k es)"
        using 2(1) [OF refl None n] 2(3,4) None n by (simp add: Let_def)
      moreover have "is_dir (ft_lookup (disk_tree d) q) \<or> (\<exists>k \<le> length es. q = (made @ [e]) @ take k es)"
        if "is_dir (ft_lookup (disk_tree ?d) q)"
      proof -
        have "is_dir (ft_lookup (disk_tree d) q) \<or> (\<exists>r. q = (made @ [e]) @ r \<and> is_dir (ft_lookup (FDir []) r))"
          using ft_put_is_dir [of "made @ [e]" "FDir []" "disk_tree d" q] that by simp
        moreover have "r = []" if "is_dir (ft_lookup (FDir []) r)" for r
          using that by (cases r) (simp_all add: is_dir_def)
        ultimately show ?thesis by (metis append_Nil2 le0 take0)
      qed
      ultimately show ?thesis using up by blast
    qed (use 2 None in \<open>simp add: Let_def\<close>)
  next
    case (Some t)
    show ?thesis
    proof (cases t)
      case (FDir x)
      have "is_dir (ft_lookup (disk_tree d) q) \<or> (\<exists>k \<le> length es. q = (made @ [e]) @ take k es)"
        using 2(2) [OF refl Some FDir] 2(3,4) Some FDir by (simp add: Let_def)
      then show ?thesis using up by blast
    qed (use 2 Some in \<open>simp add: Let_def\<close>)
  qed
qed simp

lemma mkdir_elems_root:
  "\<lbrakk>mkdir_elems made es d = (er, d'); is_dir (Some (disk_tree d))\<rbrakk> \<Longrightarrow> is_dir (Some (disk_tree d'))"
proof (induction made es d rule: mkdir_elems.induct)
  case (2 made e es d)
  show ?case
    using 2 ft_put_root [of "disk_tree d" "made @ [e]" "FDir []"]
    by (auto simp: Let_def split: option.splits file_tree.splits)
qed simp

lemma mkdir_elems_ok:
  "\<lbrakk>disk_faults d = no_faults; \<And>k. k \<le> length es \<Longrightarrow> text_at d (made @ take k es) = None\<rbrakk>
    \<Longrightarrow> fst (mkdir_elems made es d) = None"
proof (induction made es d rule: mkdir_elems.induct)
  case (2 made e es d)
  have s: "text_at d ((made @ [e]) @ take k es) = None" if "k \<le> length es" for k
    using 2(4) [of "Suc k"] that by simp
  show ?case
  proof (cases "ft_lookup (disk_tree d) (made @ [e])")
    case None
    have n: "io_mkdir (disk_faults d) (made @ [e]) = None" by (simp add: 2(3) no_faults_def)
    show ?thesis
      using 2(1) [OF refl None n] 2(3) s ft_put_dir_text [OF None] None n by (simp add: Let_def)
  next
    case (Some t)
    then obtain x where t: "t = FDir x" using s [of 0] by (cases t) (auto simp: file_text_def)
    show ?thesis using 2(2) [OF refl Some t] 2(3) s Some t by (simp add: Let_def)
  qed
qed simp

text \<open>
  The directories of a path can be made where no file is in their way, and a file can be written
  there where no directory has its name. Both add directories on the path only.
\<close>

lemma makeDirectory_ok:
  assumes sp: "fst (filepath_Split p) \<noteq> []" "resolve d (fst (filepath_Split p)) = cs"
    and ok: "disk_faults d = no_faults" and root: "is_dir (Some (disk_tree d))"
    and way: "\<And>k. k \<le> length cs \<Longrightarrow> text_at d (take k cs) = None"
  obtains d1 where "makeDirectoryIfNotExist p d = (None, d1)" and "is_dir (Some (disk_tree d1))"
    and "is_dir (ft_lookup (disk_tree d1) cs)"
    and "\<And>q. is_dir (ft_lookup (disk_tree d1) q) \<Longrightarrow> is_dir (ft_lookup (disk_tree d) q) \<or> (\<exists>k \<le> length cs. q = take k cs)"
proof (cases "is_dir (ft_lookup (disk_tree d) cs)")
  case True
  then have "isDirectory (fst (filepath_Split p)) d"
    using sp by (auto simp: isDirectory_def os_Stat_def is_dir_def split: option.splits)
  then show ?thesis using that [of d] True root by (simp add: makeDirectoryIfNotExist_def Let_def)
next
  case False
  then have n: "\<not> isDirectory (fst (filepath_Split p)) d"
    using sp by (auto simp: isDirectory_def os_Stat_def is_dir_def split: option.splits)
  obtain d1 where m: "mkdir_elems [] cs d = (None, d1)"
    using mkdir_elems_ok [of d cs "[]"] ok way by (cases "mkdir_elems [] cs d") auto
  show ?thesis
  proof (rule that)
    show "makeDirectoryIfNotExist p d = (None, d1)"
      using n m sp by (simp add: makeDirectoryIfNotExist_def Let_def os_MkdirAll_def)
    show "is_dir (Some (disk_tree d1))" by (rule mkdir_elems_root [OF m root])
    show "is_dir (ft_lookup (disk_tree d1) cs)" using mkdir_elems_makes [OF m] root by simp
    show "is_dir (ft_lookup (disk_tree d) q) \<or> (\<exists>k \<le> length cs. q = take k cs)"
      if "is_dir (ft_lookup (disk_tree d1) q)" for q
      using mkdir_elems_dirs [OF m that] by simp
  qed
qed

lemma LDB_store_ok:
  assumes p: "p \<noteq> []" "resolve d p = cs @ [e]"
    and sp: "fst (filepath_Split p) \<noteq> []" "resolve d (fst (filepath_Split p)) = cs"
    and ok: "disk_faults d = no_faults" and root: "is_dir (Some (disk_tree d))"
    and way: "\<And>k. k \<le> length cs \<Longrightarrow> text_at d (take k cs) = None"
    and free: "\<not> is_dir (ft_lookup (disk_tree d) (cs @ [e]))"
  obtains d' where "LDB_store p data d = (None, d')" and "is_dir (Some (disk_tree d'))"
    and "\<And>q. is_dir (ft_lookup (disk_tree d') q) \<Longrightarrow> is_dir (ft_lookup (disk_tree d) q) \<or> (\<exists>k \<le> length cs. q = take k cs)"
proof -
  obtain d1 where d1: "makeDirectoryIfNotExist p d = (None, d1)" "is_dir (Some (disk_tree d1))"
      "is_dir (ft_lookup (disk_tree d1) cs)"
      "\<And>q. is_dir (ft_lookup (disk_tree d1) q) \<Longrightarrow> is_dir (ft_lookup (disk_tree d) q) \<or> (\<exists>k \<le> length cs. q = take k cs)"
    using makeDirectory_ok [OF sp ok root way] by blast
  have env: "disk_faults d1 = no_faults"
    using makeDirectoryIfNotExist_frame [OF d1(1)] ok by (simp add: same_env_def)
  have nd: "\<not> is_dir (ft_lookup (disk_tree d1) (cs @ [e]))"
  proof
    assume "is_dir (ft_lookup (disk_tree d1) (cs @ [e]))"
    then obtain k where "k \<le> length cs" "cs @ [e] = take k cs" using d1(4) free by blast
    then have "length (cs @ [e]) = length (take k cs)" by (simp only:)
    then show False by simp
  qed
  have r: "resolve d1 p = cs @ [e]"
    using p(2) makeDirectoryIfNotExist_frame [OF d1(1)] same_env_resolve by metis
  define d2 where "d2 = d1\<lparr>disk_tree := ft_put (cs @ [e]) (FFile []) (disk_tree d1)\<rparr>"
  define d3 where "d3 = d2\<lparr>disk_tree := ft_put (cs @ [e]) (FFile data) (disk_tree d2)\<rparr>"
  have o: "os_OpenFile p d1 = (Inr (cs @ [e]), d2)"
    using nd d1(3) env by (simp add: os_OpenFile_def p(1) r d2_def no_faults_def Let_def)
  have "ft_lookup (disk_tree d2) (cs @ [e]) = Some (FFile [])"
    using d1(3) ft_lookup_put_same [of "cs @ [e]" "disk_tree d1" "FFile []"] by (simp add: d2_def)
  then have "fd_Write (cs @ [e]) data d2 = ((length data, None), d3)"
    using env by (simp add: fd_Write_def d2_def d3_def no_faults_def file_text_def)
  moreover have "fd_Close (cs @ [e]) d3 = None"
    using env by (simp add: fd_Close_def d3_def d2_def no_faults_def)
  ultimately have "LDB_store p data d = (None, d3)" by (simp add: LDB_store_def d1(1) o)
  moreover have "is_dir (Some (disk_tree d3))"
    using d1(2) by (simp add: d3_def d2_def ft_put_root)
  moreover have "is_dir (ft_lookup (disk_tree d1) q)" if "is_dir (ft_lookup (disk_tree d3) q)" for q
  proof -
    have f: "\<not> is_dir (ft_lookup (FFile c) u)" for c u by (cases u) (simp_all add: is_dir_def)
    then have "is_dir (ft_lookup (disk_tree d2) q)"
      using ft_put_is_dir [of "cs @ [e]" "FFile data" "disk_tree d2" q] that by (simp add: d3_def)
    then show ?thesis using ft_put_is_dir [of "cs @ [e]" "FFile []" "disk_tree d1" q] f by (simp add: d2_def)
  qed
  ultimately show ?thesis using d1(4) by (intro that) blast+
qed

lemma LDB_store_abs:
  assumes plain: "list_all plain_elem (cs @ [e])" and ok: "disk_faults d = no_faults" and root: "is_dir (Some (disk_tree d))"
    and way: "\<And>k. k \<le> length cs \<Longrightarrow> text_at d (take k cs) = None"
    and free: "\<not> is_dir (ft_lookup (disk_tree d) (cs @ [e]))"
  obtains d' where "LDB_store (abs_path (cs @ [e])) data d = (None, d')" and "is_dir (Some (disk_tree d'))"
    and "\<And>q. is_dir (ft_lookup (disk_tree d') q) \<Longrightarrow> is_dir (ft_lookup (disk_tree d) q) \<or> (\<exists>k \<le> length cs. q = take k cs)"
proof -
  have "abs_path (cs @ [e]) \<noteq> []" "resolve d (abs_path (cs @ [e])) = cs @ [e]"
    using resolve_abs [OF plain] by simp_all
  from LDB_store_ok [OF this filepath_Split_abs [OF plain] ok root way free, of data] show ?thesis
    using that by blast
qed

end
