(* ===== verification/Backend_Tests.thy ===== *)
theory Backend_Tests
  imports Disk_Writes Log_Json
begin

text \<open>
  \<^verbatim>\<open>storage/storagebackend_tests.go\<close>: the tests that every \<^verbatim>\<open>StorageBackend\<close> is
  meant to pass, as functions of a backend, and which of the backends pass which.
\<close>

section \<open>Verdicts\<close>

text \<open>
  What a test reports: the messages of \<^verbatim>\<open>t.Errorf\<close>, after which it goes on, and the one of
  \<^verbatim>\<open>t.Fatalf\<close>, which ends it. A message is given by its format.
\<close>

type_synonym verdict = "string list \<times> string option"

abbreviation passed :: verdict where "passed \<equiv> ([], None)"

definition expect :: "bool \<Rightarrow> string \<Rightarrow> string list" where
  "expect c m = (if c then [] else [m])"

lemma expect_simps [simp]: "expect True m = []" "expect False m = [m]"
  by (simp_all add: expect_def)

definition mkExpDate :: "string \<Rightarrow> ExpDate outcome" where
  "mkExpDate s = (case NewExpDate s of Inl err \<Rightarrow> Panic ''err'' | Inr expDate \<Rightarrow> Done expDate)"

section \<open>Storing and loading texts\<close>

definition storeAndLoad :: "Serial \<Rightarrow> ExpDate \<Rightarrow> Issuer \<Rightarrow> 'b StorageBackend \<Rightarrow> string \<Rightarrow> 'b \<Rightarrow> string option \<times> 'b" where
  "storeAndLoad sn expDate issuer db data b =
     (case sb_StoreCertificatePEM db sn expDate issuer data b of
        (Some err, b) \<Rightarrow> (Some ''Should have stored %d bytes: %+v'', b)
      | (None, b) \<Rightarrow>
          (case sb_LoadCertificatePEM db sn expDate issuer b of
             ((loaded, Some err), b) \<Rightarrow> (Some ''Should have loaded: %+v'', b)
           | ((loaded, None), b) \<Rightarrow>
               (if data \<noteq> loaded then (Some ''Data should match exactly - expected=[%+v] loaded=[%+v]'', b)
                else (None, b))))"

text \<open>The calls, one after the other, until one of them ends the test.\<close>

fun storeAndLoad_all ::
    "ExpDate \<Rightarrow> Issuer \<Rightarrow> 'b StorageBackend \<Rightarrow> (string \<times> string) list \<Rightarrow> 'b \<Rightarrow> (string option \<times> 'b) outcome" where
  "storeAndLoad_all expDate issuer db [] b = Done (None, b)"
| "storeAndLoad_all expDate issuer db ((hex, data) # rest) b =
     outcome_bind (NewSerialFromHex hex) (\<lambda>sn.
       case storeAndLoad sn expDate issuer db data b of
         (Some m, b) \<Rightarrow> Done (Some m, b)
       | (None, b) \<Rightarrow> storeAndLoad_all expDate issuer db rest b)"

definition large_text :: string where
  "large_text = replicate (1 * 1024 * 1024 - 128) (CHR 0x00)"

definition BackendTestStoreLoad :: "'b StorageBackend \<Rightarrow> 'b \<Rightarrow> (verdict \<times> 'b) outcome" where
  "BackendTestStoreLoad db b =
     outcome_bind (mkExpDate ''2050-05-20'') (\<lambda>expDate.
       let issuer = NewIssuerFromString ''test_file''
       in outcome_bind
            (storeAndLoad_all expDate issuer db
               [(''01'', []), (''02'', [CHR 0x01]), (''03'', [CHR 0x00, CHR 0x01, CHR 0x02]), (''04'', large_text)] b)
            (\<lambda>r. case r of
               (Some m, b) \<Rightarrow> Done (([], Some m), b)
             | (None, b) \<Rightarrow>
                 outcome_bind (NewSerialFromHex ''FF'') (\<lambda>sn.
                   case sb_LoadCertificatePEM db sn expDate issuer b of
                     ((_, None), b) \<Rightarrow> Done (([], Some ''Should not have loaded a missing file''), b)
                   | ((_, Some err), b) \<Rightarrow> Done (passed, b))))"

section \<open>Listing\<close>

text \<open>The result of \<^verbatim>\<open>sort.Sort\<close>, for the few dates the test has.\<close>

abbreviation sort_dates :: "ExpDateList \<Rightarrow> ExpDateList" where
  "sort_dates \<equiv> sort_key (\<lambda>e. t_ns (date e))"

fun check_folders :: "string list \<Rightarrow> ExpDateList \<Rightarrow> string list outcome" where
  "check_folders [] dates = Done []"
| "check_folders (val # vals) [] = Panic ''index out of range''"
| "check_folders (val # vals) (e # es) =
     outcome_bind (check_folders vals es) (\<lambda>ms.
       Done (expect (ExpDate_ID e = val) ''Mismatch at idx=%d: expected %s got %s'' @ ms))"

definition BackendTestListFiles :: "'b StorageBackend \<Rightarrow> 'b \<Rightarrow> (verdict \<times> 'b) outcome" where
  "BackendTestListFiles db b =
     (let expectedFolders = [''2019-11-28'']; issuerObj = NewIssuerFromString ''aki''
      in outcome_bind (mkExpDate ''2019-11-28'') (\<lambda>expDate.
         outcome_bind (NewSerialFromHex ''01'') (\<lambda>sn.
         case sb_StoreCertificatePEM db sn expDate issuerObj [CHR 0xDA, CHR 0xDA] b of
           (Some err, b) \<Rightarrow> Done (([], Some ''%s''), b)
         | (None, b) \<Rightarrow>
         (case sb_AllocateExpDateAndIssuer db expDate issuerObj b of
            (Some err, b) \<Rightarrow> Done (([], Some ''err''), b)
          | (None, b) \<Rightarrow>
          (let refTime = Add (time_Date 2016 11 29 15) (4 * Minute + 5 * Second)
           in case sb_ListExpirationDates db refTime b of
                ((_, Some err), b) \<Rightarrow> Done (([], Some ''%s''), b)
              | ((expDates, None), b) \<Rightarrow>
              (let expDates = sort_dates expDates;
                   es = expect (length expectedFolders = length expDates) ''Expected %s result %s''
               in outcome_bind (check_folders expectedFolders expDates) (\<lambda>ms.
                  case sb_ListIssuersForExpirationDate db expDate b of
                    ((_, Some err), b) \<Rightarrow> Done ((es @ ms, Some ''%s''), b)
                  | ((issuers, None), b) \<Rightarrow>
                      (if [NewIssuerFromString ''aki''] \<noteq> issuers
                       then Done ((es @ ms, Some ''Failed ListIssuersForExpirationDate expected: %+v result: %+v''), b)
                       else Done ((es @ ms, None), b)))))))))"

section \<open>Log states\<close>

text \<open>\<^verbatim>\<open>Time.Unix\<close>, in seconds.\<close>

definition Unix_seconds :: "gotime \<Rightarrow> int" where
  "Unix_seconds t = (t_ns t - unix_epoch_ns) div Second"

text \<open>
  Saving a state and looking at it again. The messages of the two blocks print the state, which
  panics where there is none.
\<close>

definition save_and_check ::
    "'b StorageBackend \<Rightarrow> string \<Rightarrow> CertificateLog \<Rightarrow> (CertificateLog \<Rightarrow> string list) \<Rightarrow> 'b \<Rightarrow> (string list \<times> 'b) outcome" where
  "save_and_check db testLogURL log checks b =
     (case sb_StoreLogState db log b of
        (err, b) \<Rightarrow>
          (case sb_LoadLogState db testLogURL b of
             ((None, _), b) \<Rightarrow> Panic ''nil pointer dereference''
           | ((Some updatedLog, err2), b) \<Rightarrow>
               Done (expect (err = None) ''Shouldn't have errored saving %v''
                 @ expect (err2 = None) ''Unexpected error %s: %v''
                 @ expect (ShortURL updatedLog = testLogURL) ''Unexpected URL %s''
                 @ checks updatedLog, b)))"

text \<open>\<open>zone\<close> is the offset of the local zone.\<close>

definition test_log_state :: "int \<Rightarrow> string \<Rightarrow> 'b StorageBackend \<Rightarrow> 'b \<Rightarrow> (verdict \<times> 'b) outcome" where
  "test_log_state zone testLogURL db b =
     (case sb_LoadLogState db ''not a real log'' b of
        ((log, err), b) \<Rightarrow>
        (let es = expect (err = None) ''Unknown logs should be OK''
         in case log of
              None \<Rightarrow> Done ((es, Some ''Log shouldn't be nil''), b)
            | Some _ \<Rightarrow>
            (case sb_LoadLogState db testLogURL b of
               ((None, err), b) \<Rightarrow> Panic ''nil pointer dereference''
             | ((Some log, err), b) \<Rightarrow>
             (let es = es @ expect (err = None) ''Should not error %v''
                    @ expect (ShortURL log = testLogURL) ''Unexpected URL %s''
                    @ expect (MaxEntry log = 0 \<and> IsZero (LastEntryTime log)) ''Expected a blank log  %s'';
                  log = log\<lparr>MaxEntry := 9\<rparr>
              in outcome_bind
                   (save_and_check db testLogURL log
                      (\<lambda>l. expect (MaxEntry l = 9 \<and> IsZero (LastEntryTime l))
                             ''Expected the MaxEntry to be 9 and the time to be unset %s'') b)
                   (\<lambda>(es1, b).
                      (let log = log\<lparr>MaxEntry := 0xDEADBEEF, LastEntryTime := time_Unix zone 1567016306 0\<rparr>
                       in outcome_bind
                            (save_and_check db testLogURL log
                               (\<lambda>l. expect (MaxEntry l = 0xDEADBEEF) ''Expected the MaxEntry to be 0xDEADBEEF %s''
                                  @ expect (\<not> IsZero (LastEntryTime l)) ''Expected the MaxEntry to be non-zero %s''
                                  @ expect (Unix_seconds (LastEntryTime l) = 1567016306)
                                      ''Expected the LastEntryTime to be 1567016306. %s'') b)
                            (\<lambda>(es2, b). Done ((es @ es1 @ es2, None), b))))))))"

text \<open>\<open>now\<close> is the Unix time of the run.\<close>

definition BackendTestLogState :: "int \<Rightarrow> int \<Rightarrow> 'b StorageBackend \<Rightarrow> 'b \<Rightarrow> (verdict \<times> 'b) outcome" where
  "BackendTestLogState now zone db b = test_log_state zone (''log.ct/'' @ dec_of_int now) db b"

section \<open>Listing certificates\<close>

fun store_serials ::
    "'b StorageBackend \<Rightarrow> Issuer \<Rightarrow> string \<Rightarrow> Serial list \<Rightarrow> 'b \<Rightarrow> (string option \<times> 'b) outcome" where
  "store_serials db issuer d [] b = Done (None, b)"
| "store_serials db issuer d (sn # sns) b =
     outcome_bind (mkExpDate d) (\<lambda>expDate.
       case sb_StoreCertificatePEM db sn expDate issuer [CHR 0xDA, CHR 0xDA] b of
         (Some err, b) \<Rightarrow> Done (Some ''%s'', b)
       | (None, b) \<Rightarrow> store_serials db issuer d sns b)"

fun store_dates ::
    "'b StorageBackend \<Rightarrow> Issuer \<Rightarrow> (string \<times> Serial list) list \<Rightarrow> 'b \<Rightarrow> (string option \<times> 'b) outcome" where
  "store_dates db issuer [] b = Done (None, b)"
| "store_dates db issuer ((d, sns) # rest) b =
     outcome_bind (store_serials db issuer d sns b) (\<lambda>r.
       case r of
         (Some m, b) \<Rightarrow> Done (Some m, b)
       | (None, b) \<Rightarrow>
           outcome_bind (mkExpDate d) (\<lambda>expDate.
             case sb_AllocateExpDateAndIssuer db expDate issuer b of
               (Some err, b) \<Rightarrow> Done (Some ''err'', b)
             | (None, b) \<Rightarrow> store_dates db issuer rest b))"

text \<open>A nil slice, of a date that is not expected, counts as an empty one.\<close>

fun check_serials ::
    "'b StorageBackend \<Rightarrow> Issuer \<Rightarrow> (string \<times> Serial list) list \<Rightarrow> ExpDateList \<Rightarrow> 'b \<Rightarrow> string list \<times> 'b" where
  "check_serials db issuer expected [] b = ([], b)"
| "check_serials db issuer expected (expDate # es) b =
     (case sb_ListSerialsForExpirationDateAndIssuer db expDate issuer b of
        ((resultList, err), b) \<Rightarrow>
          (case check_serials db issuer expected es b of
             (ms, b) \<Rightarrow>
               (expect (err = None) ''err''
                @ expect (gm_list expected (ExpDate_ID expDate) = resultList) ''Expected equality %+v & %+v for date %s''
                @ ms, b)))"

text \<open>The map of what is expected is visited in the unspecified order \<open>ord\<close>.\<close>

definition BackendTestListingCertificates ::
    "((string \<times> Serial list) list \<Rightarrow> (string \<times> Serial list) list) \<Rightarrow> 'b StorageBackend \<Rightarrow> 'b \<Rightarrow> (verdict \<times> 'b) outcome" where
  "BackendTestListingCertificates ord db b =
     (let issuer = NewIssuerFromString ''issuerAKI''
      in outcome_bind (NewSerialFromHex ''01'') (\<lambda>s1.
         outcome_bind (NewSerialFromHex ''02'') (\<lambda>s2.
         outcome_bind (NewSerialFromHex ''03'') (\<lambda>s3.
         let expectedSerials = [(''2019-11-28'', [s1]), (''2019-11-28-04'', [s2]), (''2019-11-28-23'', [s3])]
         in outcome_bind (store_dates db issuer (ord expectedSerials) b) (\<lambda>r.
            case r of
              (Some m, b) \<Rightarrow> Done (([], Some m), b)
            | (None, b) \<Rightarrow>
                (case sb_ListExpirationDates db (time_Date 2010 1 1 12) b of
                   ((lst, err), b) \<Rightarrow>
                     (case check_serials db issuer expectedSerials lst b of
                        (ms, b) \<Rightarrow>
                          Done ((expect (err = None) ''err'' @ ms
                            @ expect (length lst = length expectedSerials) ''Found %d entries, expected %d'', None), b))))))))"

section \<open>Backends that keep log states\<close>

lemma json_time_zero: "json_time zero_time"
  unfolding json_time_def zero_time_def by code_simp

lemma json_time_tested:
  assumes "zone mod 60 = 0" and "\<bar>zone\<bar> \<le> 64800"
  shows "json_time (time_Unix zone 1567016306 0)"
proof -
  define t where "t = time_Unix zone 1567016306 0"
  have "local_ns t = 737298 * Day_ns + (65906 + zone) * Second"
    by (simp add: t_def local_ns_def time_Unix_def unix_epoch_ns_def algebra_simps)
  then have "local_ns t div Day_ns = 737298 + (65906 + zone) * Second div Day_ns" by simp
  moreover have "(65906 + zone) * Second div Day_ns = 0 \<or> (65906 + zone) * Second div Day_ns = 1"
    using assms(2) by (auto simp: abs_le_iff)
  ultimately have "local_ns t div Day_ns = 737298 \<or> local_ns t div Day_ns = 737299" by auto
  moreover have "civil_of_days 737298 = (2019, 8, 28)" "civil_of_days 737299 = (2019, 8, 29)" by code_simp+
  ultimately have "year_4_digits t" by (auto simp: year_4_digits_def local_date_def)
  then show ?thesis using assms(1) by (simp add: json_time_def t_def time_Unix_def)
qed

text \<open>
  \<open>saved\<close> is the state on record for a short URL; within the invariant every save of a state
  that can be encoded succeeds, and a log without a record loads as a blank one.
\<close>

locale log_state_backend =
  fixes sb :: "'b StorageBackend"
    and saved :: "'b \<Rightarrow> string \<Rightarrow> CertificateLog option"
    and inv :: "'b \<Rightarrow> bool"
  assumes Load_state: "inv b \<Longrightarrow> url \<noteq> [] \<Longrightarrow>
      sb_LoadLogState sb url b = ((Some (case saved b url of None \<Rightarrow> blank_log url | Some l \<Rightarrow> l), None), b)"
  and Store_state: "inv b \<Longrightarrow> ShortURL l \<noteq> [] \<Longrightarrow> json_state l \<Longrightarrow>
      \<exists>b'. sb_StoreLogState sb l b = (None, b') \<and> inv b' \<and> (\<forall>u. u \<noteq> [] \<longrightarrow> saved b' u = (if u = ShortURL l then Some l else saved b u))"
begin

lemma save_and_check_ok:
  assumes "inv b" and "ShortURL l \<noteq> []" and "json_state l" and "checks l = []"
  obtains b' where "save_and_check sb (ShortURL l) l checks b = Done ([], b')" and "inv b'"
    and "\<And>u. u \<noteq> [] \<Longrightarrow> saved b' u = (if u = ShortURL l then Some l else saved b u)"
proof -
  obtain b' where b': "sb_StoreLogState sb l b = (None, b')" "inv b'"
      "\<forall>u. u \<noteq> [] \<longrightarrow> saved b' u = (if u = ShortURL l then Some l else saved b u)"
    using Store_state [OF assms(1-3)] by blast
  have "sb_LoadLogState sb (ShortURL l) b' = ((Some l, None), b')"
    using Load_state [OF b'(2) assms(2)] b'(3) assms(2) by simp
  then have "save_and_check sb (ShortURL l) l checks b = Done ([], b')"
    by (simp add: save_and_check_def b'(1) assms(4))
  then show ?thesis by (rule that) (use b'(2,3) in simp_all)
qed

lemma test_log_state_passes:
  assumes "inv b" and zone: "zone mod 60 = 0" "\<bar>zone\<bar> \<le> 64800" and u: "u \<noteq> []" "saved b u = None"
  shows "\<exists>b'. test_log_state zone u sb b = Done (passed, b')"
proof -
  define l1 where "l1 = (blank_log u)\<lparr>MaxEntry := 9\<rparr>"
  define l2 where "l2 = l1\<lparr>MaxEntry := 0xDEADBEEF, LastEntryTime := time_Unix zone 1567016306 0\<rparr>"
  have url: "ShortURL l1 = u" "ShortURL l2 = u" by (simp_all add: l1_def l2_def blank_log_def)
  have js: "json_state l1" "json_state l2"
    using json_time_zero json_time_tested [OF zone] by (simp_all add: json_state_def l1_def l2_def blank_log_def)
  have t: "\<not> IsZero (time_Unix zone 1567016306 0)" "Unix_seconds (time_Unix zone 1567016306 0) = 1567016306"
    by (simp_all add: IsZero_def time_Unix_def Unix_seconds_def unix_epoch_ns_def)
  let ?c1 = "\<lambda>l. expect (MaxEntry l = 9 \<and> IsZero (LastEntryTime l)) ''Expected the MaxEntry to be 9 and the time to be unset %s''"
  let ?c2 = "\<lambda>l. expect (MaxEntry l = 0xDEADBEEF) ''Expected the MaxEntry to be 0xDEADBEEF %s''
      @ expect (\<not> IsZero (LastEntryTime l)) ''Expected the MaxEntry to be non-zero %s''
      @ expect (Unix_seconds (LastEntryTime l) = 1567016306) ''Expected the LastEntryTime to be 1567016306. %s''"
  have c: "?c1 l1 = []" "?c2 l2 = []"
    using t by (simp_all add: l1_def l2_def blank_log_def IsZero_def zero_time_def)
  obtain b1 where b1: "save_and_check sb u l1 ?c1 b = Done ([], b1)" "inv b1"
    by (rule save_and_check_ok [where checks = ?c1, OF assms(1) _ js(1) c(1), unfolded url]) (simp_all add: u)
  obtain b2 where b2: "save_and_check sb u l2 ?c2 b1 = Done ([], b2)"
    by (rule save_and_check_ok [where checks = ?c2, OF b1(2) _ js(2) c(2), unfolded url]) (simp_all add: u)
  have "sb_LoadLogState sb u b = ((Some (blank_log u), None), b)"
    using Load_state [OF assms(1) u(1)] u(2) by simp
  moreover have "\<exists>l. sb_LoadLogState sb ''not a real log'' b = ((Some l, None), b)"
    using Load_state [OF assms(1), of "''not a real log''"] by blast
  moreover have "ShortURL (blank_log u) = u" "MaxEntry (blank_log u) = 0" "IsZero (LastEntryTime (blank_log u))"
    by (simp_all add: blank_log_def IsZero_def zero_time_def)
  ultimately show ?thesis
    using b1(1) b2 by (auto simp: test_log_state_def Let_def l1_def l2_def)
qed

lemma LogState_passes:
  assumes "inv b" and "zone mod 60 = 0" "\<bar>zone\<bar> \<le> 64800" and "saved b (''log.ct/'' @ dec_of_int now) = None"
  shows "\<exists>b'. BackendTestLogState now zone sb b = Done (passed, b')"
  unfolding BackendTestLogState_def by (rule test_log_state_passes) (use assms in simp_all)

end

section \<open>The in-memory backend keeps log states\<close>

definition mock_saved :: "log_json \<Rightarrow> MockBackend \<Rightarrow> string \<Rightarrow> CertificateLog option" where
  "mock_saved js st url =
     (case gm_get (mb_store st) (''logstate'' @ url) of None \<Rightarrow> None | Some s \<Rightarrow> fst (json_Unmarshal js s))"

definition mock_states_ok :: "log_json \<Rightarrow> MockBackend \<Rightarrow> bool" where
  "mock_states_ok js st \<longleftrightarrow> codec_laws js \<and>
     (\<forall>url s. gm_get (mb_store st) (''logstate'' @ url) = Some s \<longrightarrow> (\<exists>l. json_Unmarshal js s = (Some l, None)))"

lemma codec_pointer:
  assumes "codec_laws js" and "json_state l" and "ShortURL l \<noteq> []"
  obtains s where "json_Marshal js l = Inr s" and "json_Unmarshal js s = (Some l, None)"
proof -
  obtain s where s: "json_Marshal js l = Inr s" "json_Unmarshal_value js s = Inr l"
    using assms(1,2) by (auto simp: codec_laws_def)
  have "json_Unmarshal js s = (Some l, None)"
    using s(2) assms(3) by (auto simp: json_Unmarshal_value_def blank_log_def split: prod.splits option.splits)
  then show ?thesis using s(1) by (rule that [rotated])
qed

interpretation mock_states: log_state_backend "mock_backend js ord" "mock_saved js" "mock_states_ok js"
proof (unfold_locales, goal_cases)
  case (1 b url)
  show ?case
  proof (cases "gm_get (mb_store b) (''logstate'' @ url)")
    case None
    then show ?thesis by (simp add: mock_backend_def MB_LoadLogState_def mock_saved_def)
  next
    case (Some s)
    then obtain l where "json_Unmarshal js s = (Some l, None)" using 1 unfolding mock_states_ok_def by blast
    then show ?thesis using Some by (simp add: mock_backend_def MB_LoadLogState_def mock_saved_def)
  qed
next
  case (2 b l)
  have "codec_laws js" using 2(1) by (simp add: mock_states_ok_def)
  then obtain s where s: "json_Marshal js l = Inr s" "json_Unmarshal js s = (Some l, None)"
    using 2(3,2) by (rule codec_pointer)
  show ?case
    using 2(1) s
    by (auto simp: mock_backend_def MB_StoreLogState_def mock_states_ok_def mock_saved_def
        intro!: exI [of _ "b\<lparr>mb_store := gm_set (''logstate'' @ ShortURL l) s (mb_store b)\<rparr>"])
qed

section \<open>The local disk keeps log states\<close>

abbreviation state_file :: "string list \<Rightarrow> string \<Rightarrow> string list" where
  "state_file comps url \<equiv> comps @ [kStateDirName, CertificateLogIDFromShortURL url]"

definition disk_saved :: "log_json \<Rightarrow> string list \<Rightarrow> disk \<Rightarrow> string \<Rightarrow> CertificateLog option" where
  "disk_saved js comps d url =
     (case text_at d (state_file comps url) of
        None \<Rightarrow> None
      | Some s \<Rightarrow> (case json_Unmarshal_value js s of Inl err \<Rightarrow> None | Inr l \<Rightarrow> Some l))"

definition disk_states_ok :: "log_json \<Rightarrow> string list \<Rightarrow> disk \<Rightarrow> bool" where
  "disk_states_ok js comps d \<longleftrightarrow>
     codec_laws js \<and> list_all plain_elem comps \<and> disk_faults d = no_faults \<and> is_dir (Some (disk_tree d))
     \<and> (\<forall>k \<le> length (comps @ [kStateDirName]). text_at d (take k (comps @ [kStateDirName])) = None)
     \<and> (\<forall>n. \<not> is_dir (ft_lookup (disk_tree d) (comps @ [kStateDirName, n])))
     \<and> (\<forall>url s. url \<noteq> [] \<longrightarrow> text_at d (state_file comps url) = Some s \<longrightarrow> (\<exists>l. json_Unmarshal_value js s = Inr l))"

lemma state_file_plain:
  assumes "list_all plain_elem comps" and "url \<noteq> []"
  shows "list_all plain_elem ((comps @ [kStateDirName]) @ [CertificateLogIDFromShortURL url])"
    and "filepath_Join [abs_path comps, kStateDirName, CertificateLogIDFromShortURL url]
      = abs_path ((comps @ [kStateDirName]) @ [CertificateLogIDFromShortURL url])"
proof -
  have "bytes_of_string url \<noteq> []" using assms(2) by (simp add: bytes_of_string_def)
  then have p: "list_all plain_elem [kStateDirName, CertificateLogIDFromShortURL url]"
    by (simp add: CertificateLogIDFromShortURL_def plain_b64) (simp add: plain_elem_def)
  show "list_all plain_elem ((comps @ [kStateDirName]) @ [CertificateLogIDFromShortURL url])"
    using assms(1) p by simp
  show "filepath_Join [abs_path comps, kStateDirName, CertificateLogIDFromShortURL url]
      = abs_path ((comps @ [kStateDirName]) @ [CertificateLogIDFromShortURL url])"
    using filepath_Join_abs [OF assms(1) p] by simp
qed

lemma disk_states_load:
  assumes "disk_states_ok js comps d" and "url \<noteq> []"
  shows "LDB_LoadLogState js (abs_path comps) url d
    = ((Some (case disk_saved js comps d url of None \<Rightarrow> blank_log url | Some l \<Rightarrow> l), None), d)"
proof -
  have ok: "list_all plain_elem comps" "disk_faults d = no_faults" using assms(1) by (simp_all add: disk_states_ok_def)
  let ?p = "filepath_Join [abs_path comps, kStateDirName, CertificateLogIDFromShortURL url]"
  have p: "?p \<noteq> []" "resolve d ?p = state_file comps url"
    using state_file_plain [OF ok(1) assms(2)] log_path [OF ok(1) assms(2)] by simp_all
  show ?thesis
  proof (cases "text_at d (state_file comps url)")
    case None
    have "\<exists>data err. LDB_load ?p d = (data, Some err)"
      using None p ok(2) by (auto simp: LDB_load_def os_Open_def ReadAll_def no_faults_def Let_def split: option.splits)
    then show ?thesis using None by (auto simp: LDB_LoadLogState_def Let_def disk_saved_def)
  next
    case (Some s)
    have "LDB_load ?p d = (s, None)"
      using Some p ok(2) by (intro LDB_load_text) (simp_all add: no_faults_def)
    moreover obtain l where "json_Unmarshal_value js s = Inr l"
      using Some assms unfolding disk_states_ok_def by blast
    ultimately show ?thesis using Some by (simp add: LDB_LoadLogState_def Let_def disk_saved_def)
  qed
qed

lemma disk_states_store:
  assumes inv: "disk_states_ok js comps d" and u: "ShortURL l \<noteq> []" and j: "json_state l"
  shows "\<exists>d'. LDB_StoreLogState js (abs_path comps) l d = (None, d') \<and> disk_states_ok js comps d'
    \<and> (\<forall>u. u \<noteq> [] \<longrightarrow> disk_saved js comps d' u = (if u = ShortURL l then Some l else disk_saved js comps d u))"
proof -
  have ok: "codec_laws js" "list_all plain_elem comps" "disk_faults d = no_faults" "is_dir (Some (disk_tree d))"
    and way: "\<And>k. k \<le> length (comps @ [kStateDirName]) \<Longrightarrow> text_at d (take k (comps @ [kStateDirName])) = None"
    and free: "\<And>n. \<not> is_dir (ft_lookup (disk_tree d) (comps @ [kStateDirName, n]))"
    and enc: "\<And>url s. \<lbrakk>url \<noteq> []; text_at d (state_file comps url) = Some s\<rbrakk> \<Longrightarrow> \<exists>l. json_Unmarshal_value js s = Inr l"
    using inv unfolding disk_states_ok_def by blast+
  note p = state_file_plain [OF ok(2) u]
  obtain s where s: "json_Marshal js l = Inr s" "json_Unmarshal_value js s = Inr l"
    using ok(1) j by (auto simp: codec_laws_def)
  let ?cs = "comps @ [kStateDirName]" and ?e = "CertificateLogIDFromShortURL (ShortURL l)"
  have "\<not> is_dir (ft_lookup (disk_tree d) (?cs @ [?e]))" using free [of ?e] by simp
  then obtain d' where d': "LDB_store (abs_path (?cs @ [?e])) s d = (None, d')" "is_dir (Some (disk_tree d'))"
      "\<And>q. is_dir (ft_lookup (disk_tree d') q) \<Longrightarrow> is_dir (ft_lookup (disk_tree d) q) \<or> (\<exists>k \<le> length ?cs. q = take k ?cs)"
    using LDB_store_abs [OF p(1) ok(3,4) way, of s] by blast
  have f: "same_env d d'" "text_at d' (state_file comps (ShortURL l)) = Some s"
    "\<And>q. q \<noteq> state_file comps (ShortURL l) \<Longrightarrow> text_at d' q = text_at d q"
    using LDB_store_frame [OF d'(1)] resolve_abs [OF p(1), of d] by simp_all
  have short: "take k ?cs \<noteq> comps @ kStateDirName # n # r" for k n r
  proof
    assume "take k ?cs = comps @ kStateDirName # n # r"
    then have "length (take k ?cs) = length (comps @ kStateDirName # n # r)" by (simp only:)
    then show False by simp
  qed
  have inj: "bytes_of_string u = bytes_of_string v \<longleftrightarrow> u = v" for u v
    by (metis string_of_bytes_of_string)
  have files: "text_at d' (state_file comps u) = (if u = ShortURL l then Some s else text_at d (state_file comps u))" for u
    using f(2) f(3) [of "state_file comps u"] by (auto simp: CertificateLogIDFromShortURL_def inj)
  have "disk_states_ok js comps d'"
    unfolding disk_states_ok_def
  proof (intro conjI allI impI notI)
    show "disk_faults d' = no_faults" using f(1) ok(3) by (simp add: same_env_def)
    show "text_at d' (take k ?cs) = None" if "k \<le> length ?cs" for k
      using f(3) [OF short] way [OF that] by simp
    show False if "is_dir (ft_lookup (disk_tree d') (comps @ [kStateDirName, n]))" for n
      using d'(3) [OF that] free [of n] short by metis
    show "\<exists>l. json_Unmarshal_value js t = Inr l" if "u \<noteq> []" "text_at d' (state_file comps u) = Some t" for u t
      using that enc [of u t] s(2) files [of u] by (auto split: if_splits)
  qed (use ok d'(2) in simp_all)
  moreover have "LDB_StoreLogState js (abs_path comps) l d = (None, d')"
    using d'(1) by (simp add: LDB_StoreLogState_def Let_def CertificateLog_ID_def p(2) s(1))
  moreover have "disk_saved js comps d' u = (if u = ShortURL l then Some l else disk_saved js comps d u)" for u
    using s(2) by (simp add: disk_saved_def files)
  ultimately show ?thesis by blast
qed

interpretation disk_states: log_state_backend "local_disk_backend js (abs_path comps)" "disk_saved js comps" "disk_states_ok js comps"
  by unfold_locales (simp_all add: local_disk_backend_def disk_states_load disk_states_store)

section \<open>Which backend passes which test\<close>

theorem LogState_test_mock:
  assumes "mock_states_ok js st" and "mock_saved js st (''log.ct/'' @ dec_of_int now) = None"
    and "zone mod 60 = 0" and "\<bar>zone\<bar> \<le> 64800"
  shows "\<exists>st'. BackendTestLogState now zone (mock_backend js ord) st = Done (passed, st')"
  using assms(1,3,4,2) by (rule mock_states.LogState_passes)

text \<open>
  On a disk without faults, where no file is in the way of the \<^verbatim>\<open>state\<close> directory and
  every state on it can be decoded, the local disk passes the test of log states: a log without
  a file loads as a blank state, and each state saved is the one loaded next. The test runs at any
  time, in any zone of whole minutes.
\<close>

theorem LogState_test_disk:
  assumes "disk_states_ok js comps d" and "disk_saved js comps d (''log.ct/'' @ dec_of_int now) = None"
    and "zone mod 60 = 0" and "\<bar>zone\<bar> \<le> 64800"
  shows "\<exists>d'. BackendTestLogState now zone (local_disk_backend js (abs_path comps)) d = Done (passed, d')"
  using assms(1,3,4,2) by (rule disk_states.LogState_passes)

lemma empty_disk_ready: "disk_states_ok comma_json [''ct''] empty_disk"
  by (auto simp: disk_states_ok_def comma_json_laws empty_disk_def plain_elem_def is_dir_def file_text_def take_Cons'
      split: option.splits)

theorem LogState_test_disk_witness:
  "\<exists>d'. BackendTestLogState 1575039845 7200 (local_disk_backend comma_json ''/ct'') empty_disk = Done (passed, d')"
proof -
  have "disk_saved comma_json [''ct''] empty_disk (''log.ct/'' @ dec_of_int 1575039845) = None"
    by (simp add: disk_saved_def empty_disk_def file_text_def)
  from LogState_test_disk [OF empty_disk_ready this, of 7200] show ?thesis by simp
qed

lemma serials_of_literals:
  "NewSerialFromHex ''01'' = Done (Serial [1])" "NewSerialFromHex ''02'' = Done (Serial [2])"
  "NewSerialFromHex ''03'' = Done (Serial [3])" "NewSerialFromHex ''04'' = Done (Serial [4])"
  "NewSerialFromHex ''FF'' = Done (Serial [255])"
  by code_simp+

lemma ids_of_literals:
  "Serial_ID (Serial [1]) = ''AQ==''" "Serial_ID (Serial [2]) = ''Ag==''" "Serial_ID (Serial [3]) = ''Aw==''"
  "Serial_ID (Serial [4]) = ''BA==''" "Serial_ID (Serial [255]) = ''_w==''"
  by code_simp+

definition names_bucket :: "string \<Rightarrow> bool" where
  "names_bucket s \<longleftrightarrow> (case mkExpDate s of Done e \<Rightarrow> ExpDate_ID e = s | Panic m \<Rightarrow> False)"

lemma names_bucketE:
  assumes "names_bucket s"
  obtains e where "mkExpDate s = Done e" and "ExpDate_ID e = s"
  using assms by (auto simp: names_bucket_def split: outcome.splits)

lemma dates_of_literals:
  "names_bucket ''2050-05-20''" "names_bucket ''2019-11-28''" "names_bucket ''2019-11-28-04''" "names_bucket ''2019-11-28-23''"
  by code_simp+

theorem StoreLoad_test_disk:
  "\<exists>m d'. BackendTestStoreLoad (local_disk_backend js root) d = Done (([], Some m), d')"
proof -
  obtain e where e: "mkExpDate ''2050-05-20'' = Done e" by (rule names_bucketE [OF dates_of_literals(1)])
  have "\<exists>m d'. storeAndLoad sn e i (local_disk_backend js root) data d = (Some m, d')" for sn i data
    by (auto simp: storeAndLoad_def local_disk_backend_def LDB_LoadCertificatePEM_def split: prod.splits option.splits)
  then show ?thesis
    by (simp add: BackendTestStoreLoad_def e serials_of_literals Let_def split: prod.splits option.splits) (metis option.distinct(1) prod.inject)
qed

theorem StoreLoad_test_mock:
  "\<exists>st'. BackendTestStoreLoad (mock_backend js ord) NewMockBackend = Done (passed, st')"
proof -
  obtain e where e: "mkExpDate ''2050-05-20'' = Done e" by (rule names_bucketE [OF dates_of_literals(1)])
  show ?thesis
    by (simp add: BackendTestStoreLoad_def e serials_of_literals ids_of_literals storeAndLoad_def Let_def mock_backend_def
        MB_StoreCertificatePEM_def MB_LoadCertificatePEM_def pem_key_def NewMockBackend_def)
qed

text \<open>
  The dates are found on disk, but an issuer only where a file ends in \<^verbatim>\<open>.pem\<close>, which no
  stored certificate does.
\<close>

theorem ListFiles_test_disk:
  "\<exists>m d'. BackendTestListFiles (local_disk_backend js ''/ct'') empty_disk = Done (([], Some m), d')"
proof -
  have "case BackendTestListFiles (local_disk_backend js ''/ct'') empty_disk of
      Done (([], Some m), d') \<Rightarrow> True | _ \<Rightarrow> False"
    by code_simp
  then show ?thesis by (auto split: outcome.splits prod.splits list.splits option.splits)
qed

lemma mock_backend_ops:
  "sb_StoreCertificatePEM (mock_backend js ord) = MB_StoreCertificatePEM"
  "sb_AllocateExpDateAndIssuer (mock_backend js ord) = MB_AllocateExpDateAndIssuer"
  "sb_ListExpirationDates (mock_backend js ord) = MB_ListExpirationDates ord"
  "sb_ListIssuersForExpirationDate (mock_backend js ord) = MB_ListIssuersForExpirationDate"
  by (simp_all add: mock_backend_def)

lemma MB_Allocate_keys:
  obtains st' where "MB_AllocateExpDateAndIssuer e i st = (None, st')"
    and "fst ` set (expDateToIssuer st') = insert (ExpDate_ID e) (fst ` set (expDateToIssuer st))"
proof -
  have "ExpDate_ID e \<in> fst ` set (expDateToIssuer st)" if "k < length (gm_list (expDateToIssuer st) (ExpDate_ID e))" for k
    using that by (force simp: gm_list_def dest: map_of_SomeD split: option.splits)
  then have "\<exists>st'. MB_AllocateExpDateAndIssuer e i st = (None, st')
      \<and> fst ` set (expDateToIssuer st') = insert (ExpDate_ID e) (fst ` set (expDateToIssuer st))"
    by (auto simp: MB_AllocateExpDateAndIssuer_def Let_def insert_absorb)
  then show ?thesis using that by blast
qed

lemma MB_Allocate_first:
  assumes "gm_list (expDateToIssuer st) (ExpDate_ID e) = []"
  shows "MB_AllocateExpDateAndIssuer e i st = (None, st\<lparr>expDateToIssuer := gm_set (ExpDate_ID e) [i] (expDateToIssuer st)\<rparr>)"
proof -
  have "sort_Search 0 f = 0" for f by (simp add: sort_Search_def search_loop_stop)
  then show ?thesis
    using assms copy_within_insert [of 0 "[]" "\<lparr>issuer_id = None, issuer_spki = SPKI []\<rparr>" i]
    by (simp add: MB_AllocateExpDateAndIssuer_def Let_def)
qed

theorem ListFiles_test_mock:
  assumes "rearranges ord"
  shows "\<exists>st'. BackendTestListFiles (mock_backend js ord) NewMockBackend = Done (passed, st')"
proof -
  obtain e where e: "mkExpDate ''2019-11-28'' = Done e" "ExpDate_ID e = ''2019-11-28''"
    by (rule names_bucketE [OF dates_of_literals(2)])
  have o: "ord [x] = [x]" for x
    using assms by (metis mset_single_iff_right rearranges_def mset.simps)
  have "case mb_dates (day_start (Add (time_Date 2016 11 29 15) 245000000000)) [''2019-11-28''] [] of
      ([e'], None) \<Rightarrow> ExpDate_ID e' = ''2019-11-28'' | _ \<Rightarrow> False"
    by code_simp
  then obtain e' where e': "mb_dates (day_start (Add (time_Date 2016 11 29 15) 245000000000)) [''2019-11-28''] [] = ([e'], None)"
      "ExpDate_ID e' = ''2019-11-28''"
    by (auto split: prod.splits list.splits option.splits)
  have l: "MB_ListExpirationDates ord (Add (time_Date 2016 11 29 15) 245000000000) st = (([e'], None), st)"
    if "expDateToIssuer st = [(''2019-11-28'', x)]" for st x
    using that by (simp only: MB_ListExpirationDates_def list.map fst_conv o e'(1))
  show ?thesis
    by (simp add: BackendTestListFiles_def e serials_of_literals mock_backend_ops MB_StoreCertificatePEM_def
        MB_Allocate_first l e'(2) MB_ListIssuersForExpirationDate_def NewMockBackend_def gm_list_def Let_def)
qed

lemma store_serials_mock:
  assumes "mkExpDate d = Done e"
  obtains st' where "store_serials (mock_backend js ord) issuer d sns st = Done (None, st')" and "expDateToIssuer st' = expDateToIssuer st"
proof -
  have "\<exists>st'. store_serials (mock_backend js ord) issuer d sns st = Done (None, st') \<and> expDateToIssuer st' = expDateToIssuer st"
  proof (induction sns arbitrary: st)
    case (Cons sn sns)
    obtain st1 where st1: "MB_StoreCertificatePEM sn e issuer [CHR 0xDA, CHR 0xDA] st = (None, st1)"
        "expDateToIssuer st1 = expDateToIssuer st"
      by (simp add: MB_StoreCertificatePEM_def Let_def)
    then show ?case using Cons [of st1] by (simp add: assms mock_backend_ops)
  qed simp
  then show ?thesis using that by blast
qed

lemma store_dates_mock:
  assumes "list_all (\<lambda>(d, sns). names_bucket d) ds"
  obtains st' where "store_dates (mock_backend js ord) issuer ds st = Done (None, st')"
    and "fst ` set ds \<subseteq> fst ` set (expDateToIssuer st')"
proof -
  have "\<exists>st'. store_dates (mock_backend js ord) issuer ds st = Done (None, st')
      \<and> fst ` set ds \<union> fst ` set (expDateToIssuer st) \<subseteq> fst ` set (expDateToIssuer st')"
    using assms
  proof (induction ds arbitrary: st)
    case (Cons p ds)
    obtain d sns where p: "p = (d, sns)" by (cases p)
    obtain e where e: "mkExpDate d = Done e" "ExpDate_ID e = d" using Cons.prems p by (auto elim: names_bucketE)
    obtain st1 where st1: "store_serials (mock_backend js ord) issuer d sns st = Done (None, st1)"
        "expDateToIssuer st1 = expDateToIssuer st"
      by (rule store_serials_mock [OF e(1)])
    obtain st2 where st2: "MB_AllocateExpDateAndIssuer e issuer st1 = (None, st2)"
        "fst ` set (expDateToIssuer st2) = insert d (fst ` set (expDateToIssuer st1))"
      using MB_Allocate_keys [of e issuer st1] e(2) by metis
    obtain st' where "store_dates (mock_backend js ord) issuer ds st2 = Done (None, st')"
        "fst ` set ds \<union> fst ` set (expDateToIssuer st2) \<subseteq> fst ` set (expDateToIssuer st')"
      using Cons.IH [of st2] Cons.prems by (simp add: p) blast
    then show ?case using st1 st2 by (auto simp: p e(1) mock_backend_ops)
  qed simp
  then show ?thesis using that by blast
qed

theorem ListingCertificates_test_mock:
  assumes "rearranges ord" and "rearranges ord'"
  shows "\<exists>ms st'. BackendTestListingCertificates ord (mock_backend js ord') NewMockBackend = Done ((''err'' # ms, None), st')"
proof -
  let ?ds = "[(''2019-11-28'', [Serial [1]]), (''2019-11-28-04'', [Serial [2]]), (''2019-11-28-23'', [Serial [3]])]"
  have "list_all (\<lambda>(d, sns). names_bucket d) (ord ?ds)"
    using dates_of_literals rearranges_set [OF assms(1), of ?ds] by (simp add: list_all_iff)
  then obtain st where st: "store_dates (mock_backend js ord') (NewIssuerFromString ''issuerAKI'') (ord ?ds) NewMockBackend = Done (None, st)"
      "fst ` set (ord ?ds) \<subseteq> fst ` set (expDateToIssuer st)"
    by (rule store_dates_mock)
  have "''2019-11-28-04'' \<in> fst ` set (expDateToIssuer st)"
    using st(2) rearranges_set [OF assms(1), of ?ds] by auto
  then have "''2019-11-28-04'' \<in> set (ord' (map fst (expDateToIssuer st)))"
    using assms(2) by (simp add: rearranges_set)
  then have "snd (mb_dates nb (ord' (map fst (expDateToIssuer st))) []) \<noteq> None" for nb
    by (rule mb_dates_hour_fails) simp
  then obtain dates err where "MB_ListExpirationDates ord' (time_Date 2010 1 1 12) st = ((dates, Some err), st)"
    by (metis MB_ListExpirationDates_def not_None_eq prod.collapse)
  then show ?thesis
    using st(1) by (simp add: BackendTestListingCertificates_def serials_of_literals mock_backend_ops Let_def split: prod.splits)
qed

end
