(* ===== verification/Lawful_Database.thy ===== *)
theory Lawful_Database
  imports Database_Properties Redis_Model Backend_Tests
begin

text \<open>
  The filesystem database over any cache and backend that keep their contracts: whatever expires
  and whatever fails, a certificate that the cache knows has its text in the backend as long as
  the calls report success. The instance is the one of a deployment, Redis and the local disk.
\<close>

section \<open>What the cache is left with\<close>

text \<open>A call that touches no key outside \<open>S\<close>, except that keys may lapse there.\<close>

context remote_cache
begin

definition touches :: "(string \<Rightarrow> bool) \<Rightarrow> 'c \<Rightarrow> 'c \<Rightarrow> bool" where
  "touches S c c' \<longleftrightarrow> inv c' \<and> (\<forall>k. \<not> S k \<longrightarrow> contents c' k \<subseteq> contents c k)"

lemma touches_refl: "inv c \<Longrightarrow> touches S c c"
  by (simp add: touches_def)

lemma touches_trans: "touches S c c1 \<Longrightarrow> touches S c1 c2 \<Longrightarrow> touches S c c2"
  unfolding touches_def by (meson subset_trans)

lemma touches_keys: "touches issuer_key c c' \<Longrightarrow> contents c' (serials_key e i) \<subseteq> contents c (serials_key e i)"
  unfolding touches_def by (metis issuer_key_simps(3))

lemma SetInsert_touches:
  assumes "inv c" and "rc_SetInsert rc k e c = Done ((b, er), c')" and "S k"
  shows "touches S c c'"
proof -
  obtain C where "inv c'" "lapse (expiring c) (contents c) C"
      "contents c' = C \<or> contents c' = C(k := insert e (C k))"
    using SetInsert_law [OF assms(1), of k e b c'] SetInsert_error [OF assms(1), of k e b _ c'] assms(2)
    by (cases er) auto
  then show ?thesis using assms(3) lapse_subset unfolding touches_def by (metis fun_upd_other)
qed

lemma addCRL_touches:
  assumes "inv c" and "addCRL url_Parse rc im dp c = Done (er, c')"
  shows "touches issuer_key c c'"
  using assms SetInsert_touches [OF assms(1)] touches_refl [OF assms(1)]
  by (auto simp: addCRL_eq outcome_bind_Done_iff split: option.splits)

lemma accumulate_dps_touches:
  "\<lbrakk>accumulate_dps url_Parse rc im dps c = Done (er, im', c'); inv c\<rbrakk>
    \<Longrightarrow> touches issuer_key c c' \<and> im_issuer im' = im_issuer im"
proof (induction dps arbitrary: im c)
  case Nil
  then show ?case by (simp add: touches_refl)
next
  case (Cons dp dps)
  show ?case
  proof (cases "dp \<in> knownCrlDPs im")
    case True
    then show ?thesis using Cons by simp
  next
    case False
    let ?im = "im\<lparr>knownCrlDPs := insert dp (knownCrlDPs im)\<rparr>"
    obtain er1 c1 where a: "addCRL url_Parse rc ?im dp c = Done (er1, c1)"
      and r: "case er1 of Some e \<Rightarrow> im' = ?im \<and> c' = c1
        | None \<Rightarrow> accumulate_dps url_Parse rc ?im dps c1 = Done (er, im', c')"
      using Cons.prems(1) False by (auto simp: outcome_bind_Done_iff Let_def split: option.splits)
    note t = addCRL_touches [OF Cons.prems(2) a]
    show ?thesis
    proof (cases er1)
      case None
      then have "accumulate_dps url_Parse rc ?im dps c1 = Done (er, im', c')" "inv c1"
        using r t by (simp_all add: touches_def)
      from Cons.IH [OF this] show ?thesis using t touches_trans by auto
    qed (use r t in auto)
  qed
qed

lemma Accumulate_touches:
  assumes "Accumulate url_Parse rc im aCert c = Done ((seen, er), im', c')" and "inv c"
  shows "touches issuer_key c c' \<and> im_issuer im' = im_issuer im"
proof -
  let ?e = "ExpDate_ID (NewExpDateFromTime (NotAfter aCert))" and ?dn = "Issuer_String aCert"
  define im0 where "im0 = (if ?e \<notin> knownExpDates im then im\<lparr>knownExpDates := insert ?e (knownExpDates im)\<rparr> else im)"
  have i0: "im_issuer im0 = im_issuer im" by (simp add: im0_def)
  obtain er1 im1 c1 where a: "accumulate_dps url_Parse rc im0 (CRLDistributionPoints aCert) c = Done (er1, im1, c1)"
    and r: "case er1 of Some e \<Rightarrow> im' = im1 \<and> c' = c1
      | None \<Rightarrow> if ?dn \<notin> knownIssuerDNs im
          then (let im2 = im1\<lparr>knownIssuerDNs := insert ?dn (knownIssuerDNs im1)\<rparr>
                in \<exists>er2. im' = im2 \<and> addIssuerDN rc im2 ?dn c1 = Done (er2, c'))
          else im' = im1 \<and> c' = c1"
    using assms(1) unfolding Accumulate_def Let_def im0_def [symmetric]
    by (auto simp: outcome_bind_Done_iff split: option.splits if_splits)
  have t: "touches issuer_key c c1" "im_issuer im1 = im_issuer im"
    using accumulate_dps_touches [OF a assms(2)] i0 by simp_all
  have d: "touches issuer_key c1 c'" if ad: "addIssuerDN rc im2 ?dn c1 = Done (er2, c')" for im2 er2
  proof -
    obtain b where "rc_SetInsert rc (issuersId im2) ?dn c1 = Done ((b, er2), c')"
      using ad by (auto simp: addIssuerDN_def outcome_bind_Done_iff)
    then show ?thesis using SetInsert_touches t(1) issuer_key_simps(2) unfolding touches_def by blast
  qed
  show ?thesis
    using r t d touches_trans [OF t(1)] by (cases er1) (auto simp: Let_def split: if_splits)
qed

lemma WasUnknown_contents:
  assumes "inv c" and "WasUnknown rc kc s c = Done ((b, None), kc', c')"
  shows "inv c' \<and> kc' = kc\<lparr>kc_expirySet := True\<rparr>
    \<and> (\<not> b \<longrightarrow> BinaryString s \<in> contents c (serialId kc []))
    \<and> (\<forall>k. contents c' k \<subseteq> (if k = serialId kc [] then insert (BinaryString s) (contents c k) else contents c k))"
proof -
  let ?k = "serialId kc []"
  obtain C where C: "inv c'" "kc' = kc\<lparr>kc_expirySet := True\<rparr>" "lapse (expiring c) (contents c) C"
      "b = (BinaryString s \<notin> C ?k)"
      "lapse ((expiring c)(?k := True)) (C(?k := insert (BinaryString s) (C ?k))) (contents c')"
    using WasUnknown_step [OF assms] by blast
  have "contents c' k \<subseteq> (if k = ?k then insert (BinaryString s) (contents c k) else contents c k)" for k
    using lapse_subset [OF C(5), of k] lapse_subset [OF C(3), of k] by (cases "k = ?k") (simp_all, blast+)
  then show ?thesis using C(1,2,4) lapse_subset [OF C(3), of ?k] by auto
qed

end

section \<open>The database\<close>

text \<open>
  The keys that both the cache and the backend keep apart, and the certificates that a database
  records and whose texts are at hand.
\<close>

definition recorded_in :: "('c \<Rightarrow> string \<Rightarrow> string set) \<Rightarrow> 'c \<Rightarrow> cert_key \<Rightarrow> bool" where
  "recorded_in contents c k \<longleftrightarrow> (case k of (e, i, n) \<Rightarrow> BinaryString n \<in> contents c (serials_key e i))"

lemma stored_key_hour: "storable cc \<Longrightarrow> mb_key_ok (stored_key cc)"
  by (simp add: storable_def stored_key_def store_key_ok)

text \<open>A text is the PEM of a certificate of \<open>C\<close> with the key.\<close>

definition text_of :: "(Certificate \<times> Certificate) set \<Rightarrow> cert_key \<Rightarrow> string option \<Rightarrow> bool" where
  "text_of C k t \<longleftrightarrow> (\<exists>cc \<in> C. k = stored_key cc \<and> t = Some (pem_EncodeToMemory ''CERTIFICATE'' (Raw (fst cc))))"

lemma text_of_mono: "text_of C k t \<Longrightarrow> C \<subseteq> C' \<Longrightarrow> text_of C' k t"
  unfolding text_of_def by blast

locale lawful_stores = remote_cache rc inv contents expiring + pem_store sb pem_of pem_ok
  for rc :: "'c RemoteCache" and inv contents expiring
    and sb :: "'b StorageBackend" and pem_of :: "'b \<Rightarrow> cert_key \<Rightarrow> string option" and pem_ok
begin

text \<open>What the cache records has the text of a certificate of \<open>C\<close> with its key.\<close>

definition consistent ::
    "('g \<Rightarrow> string \<Rightarrow> nat option) \<Rightarrow> (Certificate \<times> Certificate) set \<Rightarrow> ('b, 'c, 'g) FilesystemDatabase \<Rightarrow> bool" where
  "consistent held C db \<longleftrightarrow> inv (extCache db) \<and> fs_ok held db \<and>
     (\<forall>k. mb_key_ok k \<longrightarrow> pem_ok k \<longrightarrow> recorded_in contents (extCache db) k \<longrightarrow> text_of C k (pem_of (fs_backend db) k))"

lemma store_unknown_lawful:
  assumes "store_unknown deps c e i n db = Done (None, db')"
    and "dep_cache deps = rc" and "dep_backend deps = sb"
    and "fs_ok held db" and "inv (extCache db)" and "pem_ok (cert_key e i n)"
  shows "fs_ok held db' \<and> touches issuer_key (extCache db) (extCache db')
    \<and> (\<forall>k. pem_ok k \<longrightarrow> pem_of (fs_backend db') k =
        (if k = cert_key e i n then Some (pem_EncodeToMemory ''CERTIFICATE'' (Raw c)) else pem_of (fs_backend db) k))"
proof -
  obtain p m h where gi: "GetIssuerMetadata i db = (p, db\<lparr>meta := m, im_heap := h\<rparr>)"
    and f1: "fs_ok held (db\<lparr>meta := m, im_heap := h\<rparr>)"
    using GetIssuerMetadata_spec [OF assms(4)] by metis
  obtain seen er im' c1 where a: "Accumulate (dep_url deps) rc (h ! p) c (extCache db) = Done ((seen, er), im', c1)"
    and r1: "er = None"
    using assms(1,2) by (auto simp: store_unknown_def gi outcome_bind_Done_iff Let_def split: option.splits)
  note t = Accumulate_touches [OF a assms(5)]
  define db1 where "db1 = db\<lparr>meta := m, im_heap := h[p := im'], extCache := c1\<rparr>"
  have f: "fs_ok held db1"
    using fs_ok_im [OF f1, of im' p] t by (simp add: db1_def fs_ok_def)
  obtain b1 where al: "(if \<not> seen then sb_AllocateExpDateAndIssuer sb e i (fs_backend db) else (None, fs_backend db)) = (None, b1)"
    and r2: "(case sb_StoreCertificatePEM sb n e i (pem_EncodeToMemory ''CERTIFICATE'' (Raw c)) b1 of
        (errStore, b) \<Rightarrow> (case errStore of Some e \<Rightarrow> Done (Some e, db1\<lparr>fs_backend := b\<rparr>)
          | None \<Rightarrow> store_finish deps c (db1\<lparr>fs_backend := b\<rparr>))) = Done (None, db')"
    using assms(1-3) a r1
    by (auto simp: store_unknown_def gi Let_def db1_def split: option.splits prod.splits if_splits)
  have b1: "pem_of b1 = pem_of (fs_backend db)"
    using al by (cases seen) (auto dest: Allocate)
  obtain b2 where st: "sb_StoreCertificatePEM sb n e i (pem_EncodeToMemory ''CERTIFICATE'' (Raw c)) b1 = (None, b2)"
    and fin: "store_finish deps c (db1\<lparr>fs_backend := b2\<rparr>) = Done (None, db')"
    using r2 by (auto split: option.splits prod.splits)
  obtain b3 where b3: "sb_MarkDirty sb (Format_day (NotAfter c)) b2 = (None, b3)" "db' = db1\<lparr>fs_backend := b3\<rparr>"
    using fin assms(3) by (auto simp: store_finish_def markDirty_def Let_def split: prod.splits)
  have "pem_of b3 = pem_of b2" by (rule MarkDirty [OF b3(1)])
  moreover have "pem_of b2 (cert_key e i n) = Some (pem_EncodeToMemory ''CERTIFICATE'' (Raw c))"
    "\<And>k. \<lbrakk>pem_ok k; k \<noteq> cert_key e i n\<rbrakk> \<Longrightarrow> pem_of b2 k = pem_of b1 k"
    using StorePEM [OF st assms(6)] by blast+
  ultimately have "pem_of (fs_backend db') k =
      (if k = cert_key e i n then Some (pem_EncodeToMemory ''CERTIFICATE'' (Raw c)) else pem_of (fs_backend db) k)"
    if "pem_ok k" for k
    using b1 b3(2) that by simp
  moreover have "fs_ok held db'" "touches issuer_key (extCache db) (extCache db')"
    using f t by (simp_all add: b3(2) db1_def)
  ultimately show ?thesis by blast
qed

text \<open>The first half of \<^verbatim>\<open>Store\<close>: asking the cache, which records the serial.\<close>

lemma Store_asks:
  assumes "Store deps c ca url entry db = Done (None, db')"
    and "dep_cache deps = rc" and "gcache_laws (dep_known deps) held"
    and "fs_ok held db" and "inv (extCache db)" and "storable (c, ca)"
  obtains b n db1 where "stored_key (c, ca) = cert_key (NewExpDateFromTime (NotAfter c)) (NewIssuer ca) n"
    and "(if b then store_unknown deps c (NewExpDateFromTime (NotAfter c)) (NewIssuer ca) n db1 else store_finish deps c db1)
      = Done (None, db')"
    and "fs_ok held db1" and "inv (extCache db1)" and "fs_backend db1 = fs_backend db"
    and "b \<or> recorded_in contents (extCache db) (stored_key (c, ca))"
    and "\<forall>k. mb_key_ok k \<longrightarrow> recorded_in contents (extCache db1) k
      \<longrightarrow> recorded_in contents (extCache db) k \<or> k = stored_key (c, ca)"
proof -
  define e i where "e = NewExpDateFromTime (NotAfter c)" and "i = NewIssuer ca"
  let ?key = "serials_key (ExpDate_ID e) (iss_id i)"
  obtain n where t: "t_off (NotAfter c) = 0" "year_4_digits (NotAfter c)" and sn: "NewSerial c = Done n"
    using assms(6) by (auto simp: storable_def split: outcome.splits)
  have k: "stored_key (c, ca) = cert_key e i n" by (simp add: stored_key_def sn e_def i_def)
  obtain p g h where kc: "GetKnownCertificates (dep_known deps) e i db = Done (p, db\<lparr>knownCertsCache := g, kc_heap := h\<rparr>)"
    and p: "serialId (h ! p) [] = serialId (NewKnownCertificates e i) []"
    and f: "fs_ok held (db\<lparr>knownCertsCache := g, kc_heap := h\<rparr>)"
    using GetKnownCertificates_spec [OF assms(3,4) length_hour_ID [OF t]] unfolding e_def [symmetric] by metis
  have key: "serialId (h ! p) [] = ?key" using p by (simp add: serialId_key NewKnownCertificates_def)
  obtain b kc' c1 where w: "WasUnknown rc (h ! p) n (extCache db) = Done ((b, None), kc', c1)"
    and r: "(if b then store_unknown deps c e i n (db\<lparr>knownCertsCache := g, kc_heap := h[p := kc'], extCache := c1\<rparr>)
      else store_finish deps c (db\<lparr>knownCertsCache := g, kc_heap := h[p := kc'], extCache := c1\<rparr>)) = Done (None, db')"
    using assms(1,2) unfolding Store_def Let_def e_def [symmetric] i_def [symmetric]
    by (auto simp: kc sn outcome_bind_Done_iff split: option.splits if_splits)
  note u = WasUnknown_contents [OF assms(5) w, unfolded key]
  let ?db = "db\<lparr>knownCertsCache := g, kc_heap := h[p := kc'], extCache := c1\<rparr>"
  have "fs_ok held ?db" "inv (extCache ?db)"
    using fs_ok_kc [OF f, where p = p and x = True] u by (simp_all add: fs_ok_def)
  moreover have "recorded_in contents (extCache db) k \<or> k = cert_key e i n"
    if "mb_key_ok k" "recorded_in contents (extCache ?db) k" for k
  proof (cases k)
    case (fields e' i' n')
    have "BinaryString n' \<in> contents c1 (serials_key e' i')" using that(2) by (simp add: fields recorded_in_def)
    then have "BinaryString n' \<in> (if serials_key e' i' = ?key then insert (BinaryString n) (contents (extCache db) (serials_key e' i'))
        else contents (extCache db) (serials_key e' i'))"
      using u by blast
    then show ?thesis
      using serials_key_inject [of e' i' n' "ExpDate_ID e" "iss_id i" n] that(1) store_key_ok [OF t, of ca n]
      by (auto simp: fields recorded_in_def e_def i_def split: if_splits)
  qed
  moreover have "b \<or> recorded_in contents (extCache db) (cert_key e i n)" using u by (auto simp: recorded_in_def)
  ultimately show ?thesis
    using r by (intro that [of n b ?db, unfolded e_def [symmetric] i_def [symmetric]]) (auto simp: k)
qed

text \<open>A \<^verbatim>\<open>Store\<close> that reports success.\<close>

lemma Store_lawful:
  assumes "Store deps c ca url entry db = Done (None, db')"
    and "dep_cache deps = rc" and "dep_backend deps = sb" and "gcache_laws (dep_known deps) held"
    and "consistent held C db" and "storable (c, ca)" and "pem_ok (stored_key (c, ca))"
  shows "consistent held (insert (c, ca) C) db'
    \<and> text_of (insert (c, ca) C) (stored_key (c, ca)) (pem_of (fs_backend db') (stored_key (c, ca)))
    \<and> (\<forall>k. pem_ok k \<longrightarrow> pem_of (fs_backend db') k = pem_of (fs_backend db) k
        \<or> text_of {(c, ca)} k (pem_of (fs_backend db') k))"
proof -
  let ?key = "stored_key (c, ca)" and ?C = "insert (c, ca) C"
  have fs: "fs_ok held db" and inv: "inv (extCache db)"
    and con: "\<And>k. \<lbrakk>mb_key_ok k; pem_ok k; recorded_in contents (extCache db) k\<rbrakk> \<Longrightarrow> text_of C k (pem_of (fs_backend db) k)"
    using assms(5) unfolding consistent_def by blast+
  then have con': "\<And>k. \<lbrakk>mb_key_ok k; pem_ok k; recorded_in contents (extCache db) k\<rbrakk> \<Longrightarrow> text_of ?C k (pem_of (fs_backend db) k)"
    using text_of_mono by blast
  obtain b n db1 where k: "?key = cert_key (NewExpDateFromTime (NotAfter c)) (NewIssuer ca) n"
    and r: "(if b then store_unknown deps c (NewExpDateFromTime (NotAfter c)) (NewIssuer ca) n db1 else store_finish deps c db1)
      = Done (None, db')"
    and 1: "fs_ok held db1" "inv (extCache db1)" "fs_backend db1 = fs_backend db"
    and known: "b \<or> recorded_in contents (extCache db) ?key"
    and rec1: "\<forall>k. mb_key_ok k \<longrightarrow> recorded_in contents (extCache db1) k
      \<longrightarrow> recorded_in contents (extCache db) k \<or> k = ?key"
    by (rule Store_asks [OF assms(1,2,4) fs inv assms(6)])
  show ?thesis
  proof (cases b)
    case True
    then have "store_unknown deps c (NewExpDateFromTime (NotAfter c)) (NewIssuer ca) n db1 = Done (None, db')" using r by simp
    note su = store_unknown_lawful [OF this assms(2,3) 1(1,2) assms(7) [unfolded k], folded k, unfolded 1(3)]
    then have s: "fs_ok held db'" "touches issuer_key (extCache db1) (extCache db')"
      "\<And>k. pem_ok k \<Longrightarrow> pem_of (fs_backend db') k =
        (if k = ?key then Some (pem_EncodeToMemory ''CERTIFICATE'' (Raw c)) else pem_of (fs_backend db) k)"
      by blast+
    have key: "text_of {(c, ca)} ?key (pem_of (fs_backend db') ?key)"
      using s(3) [OF assms(7)] by (simp add: text_of_def)
    have "text_of ?C k (pem_of (fs_backend db') k)" if "mb_key_ok k" "pem_ok k" "recorded_in contents (extCache db') k" for k
    proof (cases "k = ?key")
      case True
      then show ?thesis using text_of_mono [OF key] by simp
    next
      case False
      have "recorded_in contents (extCache db1) k"
        using that(3) touches_keys [OF s(2)] by (auto simp: recorded_in_def split: prod.splits)
      then have "recorded_in contents (extCache db) k" using rec1 that(1) False by blast
      then show ?thesis using con' [OF that(1,2)] s(3) [OF that(2)] False by simp
    qed
    then have "consistent held ?C db'" using s(1,2) unfolding consistent_def touches_def by blast
    moreover have "pem_of (fs_backend db') k = pem_of (fs_backend db) k \<or> text_of {(c, ca)} k (pem_of (fs_backend db') k)"
      if "pem_ok k" for k
      using s(3) [OF that] key by (cases "k = ?key") simp_all
    ultimately show ?thesis using text_of_mono [OF key] by blast
  next
    case False
    then have "store_finish deps c db1 = Done (None, db')" using r by simp
    then obtain b3 where b3: "sb_MarkDirty sb (Format_day (NotAfter c)) (fs_backend db) = (None, b3)" "db' = db1\<lparr>fs_backend := b3\<rparr>"
      using assms(3) 1(3) by (auto simp: store_finish_def markDirty_def Let_def split: prod.splits)
    have pem: "pem_of b3 = pem_of (fs_backend db)" by (rule MarkDirty [OF b3(1)])
    have key: "text_of ?C ?key (pem_of (fs_backend db) ?key)"
      using con' [OF stored_key_hour [OF assms(6)] assms(7)] known False by blast
    have "text_of ?C k (pem_of (fs_backend db) k)" if "mb_key_ok k" "pem_ok k" "recorded_in contents (extCache db1) k" for k
      using con' [OF that(1,2)] rec1 that key by blast
    then show ?thesis using 1 key unfolding consistent_def b3(2) by (simp add: pem)
  qed
qed

lemma store_all_lawful:
  assumes "dep_cache deps = rc" and "dep_backend deps = sb" and "gcache_laws (dep_known deps) held"
    and "consistent held C db" and "list_all (\<lambda>cc. storable cc \<and> pem_ok (stored_key cc)) cs"
    and "store_all deps cs db = Done db'"
  shows "consistent held (C \<union> set cs) db'
    \<and> (\<forall>cc \<in> set cs. text_of (C \<union> set cs) (stored_key cc) (pem_of (fs_backend db') (stored_key cc)))
    \<and> (\<forall>k. pem_ok k \<longrightarrow> pem_of (fs_backend db') k = pem_of (fs_backend db) k \<or> text_of (set cs) k (pem_of (fs_backend db') k))"
  using assms(4-)
proof (induction cs arbitrary: C db)
  case (Cons cc cs)
  obtain c ca where cc: "cc = (c, ca)" by (cases cc)
  obtain db1 where s: "Store deps c ca [] 0 db = Done (None, db1)" and r: "store_all deps cs db1 = Done db'"
    using Cons.prems(3) by (auto simp: cc outcome_bind_Done_iff split: option.splits)
  have ok: "storable (c, ca)" "pem_ok (stored_key (c, ca))"
    and rest: "list_all (\<lambda>cc. storable cc \<and> pem_ok (stored_key cc)) cs"
    using Cons.prems(2) by (simp_all add: cc)
  note 1 = Store_lawful [OF s assms(1-3) Cons.prems(1) ok]
  then have c1: "consistent held (insert cc C) db1" by (simp add: cc)
  have C: "insert cc C \<union> set cs = C \<union> set (cc # cs)" by simp
  note 2 = Cons.IH [OF c1 rest r, unfolded C]
  have "text_of (C \<union> set (cc # cs)) (stored_key cc) (pem_of (fs_backend db') (stored_key cc))"
  proof (cases "pem_of (fs_backend db') (stored_key cc) = pem_of (fs_backend db1) (stored_key cc)")
    case True
    have "text_of (insert cc C) (stored_key cc) (pem_of (fs_backend db1) (stored_key cc))" using 1 by (simp add: cc)
    then show ?thesis unfolding True by (rule text_of_mono) auto
  next
    case False
    then have "text_of (set cs) (stored_key cc) (pem_of (fs_backend db') (stored_key cc))" using 2 ok(2) cc by blast
    then show ?thesis by (rule text_of_mono) auto
  qed
  moreover have "pem_of (fs_backend db') k = pem_of (fs_backend db) k \<or> text_of (set (cc # cs)) k (pem_of (fs_backend db') k)"
    if "pem_ok k" for k
  proof -
    have "pem_of (fs_backend db') k = pem_of (fs_backend db1) k \<or> text_of (set cs) k (pem_of (fs_backend db') k)"
      using 2 that by blast
    moreover have "pem_of (fs_backend db1) k = pem_of (fs_backend db) k \<or> text_of {cc} k (pem_of (fs_backend db1) k)"
      using 1 that unfolding cc by blast
    ultimately show ?thesis using text_of_mono [of "set cs" k _ "set (cc # cs)"] text_of_mono [of "{cc}" k _ "set (cc # cs)"]
      by fastforce
  qed
  ultimately show ?case using 2 by simp
qed simp

end

section \<open>The two pairs of stores\<close>

interpretation mock_lawful: lawful_stores "mock_cache js" world_ok "\<lambda>w. mock_contents (snd w)" "\<lambda>w. mock_expiring (snd w)"
    "mock_backend js ord" mb_pem mb_key_ok
  ..

context redis_server
begin

lemma redis_disk_lawful:
  "lawful_stores (redis_cache js r) (\<lambda>s. True) sets ttl (local_disk_backend js (abs_path comps)) (disk_pem comps) (disk_key_ok comps)"
  by (intro lawful_stores.intro redis.remote_cache_axioms disk_store.pem_store_axioms)

end

text \<open>The database of a deployment: Redis, and the local disk under \<^verbatim>\<open>/c\<^sub>1/\<dots>/c\<^sub>n\<close>.\<close>

definition redis_disk_deps ::
    "log_json \<Rightarrow> 's redis_client \<Rightarrow> 'g gcache \<Rightarrow> url_parser \<Rightarrow> string list \<Rightarrow> (disk, 's, 'g) fs_deps" where
  "redis_disk_deps js r gc url comps =
     \<lparr>dep_backend = local_disk_backend js (abs_path comps), dep_cache = redis_cache js r, dep_known = gc, dep_url = url\<rparr>"

lemma redis_disk_deps_sel [simp]:
  "dep_backend (redis_disk_deps js r gc url comps) = local_disk_backend js (abs_path comps)"
  "dep_cache (redis_disk_deps js r gc url comps) = redis_cache js r"
  "dep_known (redis_disk_deps js r gc url comps) = gc" "dep_url (redis_disk_deps js r gc url comps) = url"
  by (simp_all add: redis_disk_deps_def)

text \<open>What Redis records is on the disk, as the text of a certificate of \<open>C\<close> with that key.\<close>

definition texts_on_disk ::
    "('s \<Rightarrow> string \<Rightarrow> string set) \<Rightarrow> string list \<Rightarrow> (Certificate \<times> Certificate) set
      \<Rightarrow> (disk, 's, 'g) FilesystemDatabase \<Rightarrow> bool" where
  "texts_on_disk sets comps C db \<longleftrightarrow>
     (\<forall>k. mb_key_ok k \<longrightarrow> disk_key_ok comps k \<longrightarrow> recorded_in sets (extCache db) k
        \<longrightarrow> text_of C k (disk_pem comps (fs_backend db) k))"

lemma redis_disk_stores:
  fixes db db' :: "(disk, 's, 'g) FilesystemDatabase"
  assumes "redis_server r sets ttl" and "gcache_laws gc held" and "fs_ok held db" and "texts_on_disk sets comps C db"
    and "list_all (\<lambda>cc. storable cc \<and> disk_key_ok comps (stored_key cc)) cs"
    and "store_all (redis_disk_deps js r gc url comps) cs db = Done db'"
  shows "fs_ok held db' \<and> texts_on_disk sets comps (C \<union> set cs) db'
    \<and> (\<forall>cc \<in> set cs. text_of (C \<union> set cs) (stored_key cc) (disk_pem comps (fs_backend db') (stored_key cc)))
    \<and> (\<forall>k. disk_key_ok comps k \<longrightarrow> disk_pem comps (fs_backend db') k = disk_pem comps (fs_backend db) k
        \<or> text_of (set cs) k (disk_pem comps (fs_backend db') k))"
proof -
  note l = redis_server.redis_disk_lawful [OF assms(1), of js comps]
  have c: "lawful_stores.consistent (\<lambda>s. True) sets (disk_pem comps) (disk_key_ok comps) held C d
      \<longleftrightarrow> fs_ok held d \<and> texts_on_disk sets comps C d" for C and d :: "(disk, 's, 'g) FilesystemDatabase"
    unfolding lawful_stores.consistent_def [OF l] texts_on_disk_def by simp
  show ?thesis
    using lawful_stores.store_all_lawful [OF l, of "redis_disk_deps js r gc url comps" held C db cs db'] assms(2-6)
    by (simp add: c)
qed

end
