(* ===== verification/Deployment.thy ===== *)
theory Deployment
  imports Lawful_Database
begin

text \<open>
  A deployment in good order: a Redis server that answers every command, and a disk without faults
  on which only the program has written. There every certificate is stored.
\<close>

section \<open>The server\<close>

text \<open>No key of the program's sets holds anything else.\<close>

definition only_sets :: "redis_db \<Rightarrow> bool" where
  "only_sets s \<longleftrightarrow> list_all (\<lambda>(k, v). case v of RSet l \<Rightarrow> True | _ \<Rightarrow> False) (keyspace s)"

lemma only_sets_put: "only_sets s \<Longrightarrow> only_sets (put k (RSet l) s)"
proof -
  have "list_all P (gm_set k v m)" if "list_all P m" "P (k, v)" for P and k :: string and v :: redis_value and m
    using that by (induction m) auto
  then show "only_sets s \<Longrightarrow> only_sets (put k (RSet l) s)" by (simp add: only_sets_def put_def)
qed

lemma only_sets_purge: "only_sets s \<Longrightarrow> only_sets (purge s)"
  by (auto simp: only_sets_def purge_def list_all_iff)

lemma only_sets_as_set:
  assumes "only_sets s"
  obtains l where "as_set s k = Some l"
proof (cases "gm_get (keyspace s) k")
  case None
  then show ?thesis using that by (simp add: as_set_def)
next
  case (Some v)
  then have "(k, v) \<in> set (keyspace s)" by (rule map_of_SomeD)
  then obtain l where "v = RSet l" using assms by (auto simp: only_sets_def list_all_iff split: redis_value.splits)
  then show ?thesis using that Some by (simp add: as_set_def)
qed

text \<open>
  The clock of the server never passes \<open>T\<close>, and no key's time to live ends before: nothing expires.
\<close>

definition unexpired :: "gotime \<Rightarrow> redis_db \<Rightarrow> bool" where
  "unexpired T s \<longleftrightarrow> (\<forall>n. \<not> Before T (server_clock s n)) \<and> (\<forall>(k, t) \<in> set (deadline s). \<not> Before t T)"

lemma unexpired_purge:
  assumes "unexpired T s"
  shows "unexpired T (purge s)" and "mem_sets (purge s) = mem_sets s"
proof -
  have "\<not> Before t (server_clock s 0)" if "(k, t) \<in> set (deadline s)" for k t
  proof -
    have "\<not> Before t T" "\<not> Before T (server_clock s 0)" using assms that by (auto simp: unexpired_def)
    then show ?thesis by (simp add: Before_def)
  qed
  then have e: "expired_keys s = []" by (auto simp: expired_keys_def filter_empty_conv)
  show "mem_sets (purge s) = mem_sets s" by (simp add: mem_sets_def fun_eq_iff e)
  show "unexpired T (purge s)" using assms by (auto simp: unexpired_def purge_def)
qed

lemma unexpired_put: "unexpired T (put k v s) = unexpired T s"
  by (simp add: unexpired_def put_def)

lemma mem_sets_put: "mem_sets (put k (RSet l) s) = (mem_sets s)(k := set l)"
  by (simp add: mem_sets_def put_def fun_eq_iff)

text \<open>While nothing expires, a call leaves the sets as they are but for the keys in \<open>S\<close>.\<close>

definition keeps_sets :: "(string \<Rightarrow> bool) \<Rightarrow> redis_db \<Rightarrow> redis_db \<Rightarrow> bool" where
  "keeps_sets S s s' \<longleftrightarrow> (\<forall>T. unexpired T s \<longrightarrow> unexpired T s' \<and> (\<forall>k. \<not> S k \<longrightarrow> mem_sets s' k = mem_sets s k))"

lemma keeps_sets_refl: "keeps_sets S s s"
  by (simp add: keeps_sets_def)

lemma keeps_sets_trans: "keeps_sets S a b \<Longrightarrow> keeps_sets S b c \<Longrightarrow> keeps_sets S a c"
  unfolding keeps_sets_def by metis

lemma mem_SetInsert:
  assumes "only_sets s"
  obtains b s' where "Redis_SetInsert redis_mem k e s = Done ((b, None), s')" and "only_sets s'"
    and "\<forall>T. unexpired T s \<longrightarrow> unexpired T s' \<and> mem_sets s' = (mem_sets s)(k := insert e (mem_sets s k))"
proof -
  have p: "only_sets (purge s)" by (rule only_sets_purge [OF assms])
  then obtain l where l: "as_set (purge s) k = Some l" by (rule only_sets_as_set)
  let ?s' = "if e \<in> set l then purge s else put k (RSet (e # l)) (purge s)"
  have "\<exists>n. mem_sadd k e s = ((n, None), ?s')" using l by (simp add: mem_sadd_def Let_def)
  then obtain n where n: "r_SAdd redis_mem k e s = ((n, None), ?s')" by (auto simp: redis_mem_def)
  have "only_sets ?s'" using p only_sets_put [OF p] by simp
  moreover have "\<forall>T. unexpired T s \<longrightarrow> unexpired T ?s' \<and> mem_sets ?s' = (mem_sets s)(k := insert e (mem_sets s k))"
    using unexpired_purge [of _ s] as_set_sets [OF l]
    by (auto simp: unexpired_put mem_sets_put insert_absorb fun_upd_idem)
  ultimately show ?thesis using that n by (simp add: Redis_SetInsert_def)
qed

lemma mem_ExpireAt:
  assumes "only_sets s"
  obtains s' where "Redis_ExpireAt redis_mem k t s = Done (((), None), s')" and "only_sets s'"
    and "\<forall>T. unexpired T s \<longrightarrow> \<not> Before t T \<longrightarrow> unexpired T s' \<and> mem_sets s' = mem_sets s"
proof -
  have g: "set (gm_set k t m) \<subseteq> insert (k, t) (set m)" for m :: "(string, gotime) gomap"
    by (induction m) auto
  let ?s = "purge s"
  let ?s' = "if gm_get (keyspace ?s) k = None then ?s else ?s\<lparr>deadline := gm_set k t (deadline ?s)\<rparr>"
  have "\<exists>b. mem_expire k (\<lambda>now. t) s = ((b, None), ?s')"
    by (cases "gm_get (keyspace ?s) k = None") (auto simp: mem_expire_def Let_def)
  then obtain b where b: "r_ExpireAt redis_mem k t s = ((b, None), ?s')" by (auto simp: redis_mem_def)
  have "only_sets ?s'" using only_sets_purge [OF assms] by (simp add: only_sets_def)
  moreover have "unexpired T ?s' \<and> mem_sets ?s' = mem_sets s" if "unexpired T s" "\<not> Before t T" for T
  proof -
    have "unexpired T (?s\<lparr>deadline := gm_set k t (deadline ?s)\<rparr>)"
      using unexpired_purge(1) [OF that(1)] that(2) g [of "deadline ?s"] unfolding unexpired_def by fastforce
    moreover have "mem_sets (?s\<lparr>deadline := gm_set k t (deadline ?s)\<rparr>) = mem_sets s"
      using unexpired_purge(2) [OF that(1)] by (simp add: mem_sets_def [abs_def])
    ultimately show ?thesis using unexpired_purge [OF that(1)] by (simp only: split: if_split) blast
  qed
  ultimately show ?thesis using that b by (simp add: Redis_ExpireAt_def)
qed

abbreviation mem_cache :: "log_json \<Rightarrow> redis_db RemoteCache" where
  "mem_cache js \<equiv> redis_cache js redis_mem"

lemma mem_ops:
  "rc_SetInsert (mem_cache js) = Redis_SetInsert redis_mem" "rc_ExpireAt (mem_cache js) = Redis_ExpireAt redis_mem"
  by (simp_all add: redis_cache_def)

lemma mem_WasUnknown:
  assumes "only_sets s"
  obtains b kc' s' where "WasUnknown (mem_cache js) kc n s = Done ((b, None), kc', s')" and "only_sets s'"
    and "\<forall>T. unexpired T s \<longrightarrow> \<not> Before (ExpireTime (kc_expDate kc)) T \<longrightarrow> unexpired T s'
      \<and> mem_sets s' = (mem_sets s)(serialId kc [] := insert (BinaryString n) (mem_sets s (serialId kc [])))"
proof -
  obtain b s1 where 1: "Redis_SetInsert redis_mem (serialId kc []) (BinaryString n) s = Done ((b, None), s1)" "only_sets s1"
      "\<forall>T. unexpired T s \<longrightarrow> unexpired T s1
        \<and> mem_sets s1 = (mem_sets s)(serialId kc [] := insert (BinaryString n) (mem_sets s (serialId kc [])))"
    by (rule mem_SetInsert [OF assms])
  obtain s2 where 2: "Redis_ExpireAt redis_mem (serialId kc []) (ExpireTime (kc_expDate kc)) s1 = Done (((), None), s2)" "only_sets s2"
      "\<forall>T. unexpired T s1 \<longrightarrow> \<not> Before (ExpireTime (kc_expDate kc)) T \<longrightarrow> unexpired T s2 \<and> mem_sets s2 = mem_sets s1"
    by (rule mem_ExpireAt [OF 1(2)])
  show ?thesis
  proof (cases "kc_expirySet kc")
    case True
    have "WasUnknown (mem_cache js) kc n s = Done ((b, None), kc, s1)" using True by (simp add: WasUnknown_def mem_ops 1(1))
    then show ?thesis by (rule that) (use 1 in blast)+
  next
    case False
    have "\<exists>kc'. WasUnknown (mem_cache js) kc n s = Done ((b, None), kc', s2)"
      using False by (simp add: WasUnknown_def setExpiryFlag_def mem_ops Let_def 1(1) 2(1))
    then obtain kc' where "WasUnknown (mem_cache js) kc n s = Done ((b, None), kc', s2)" by blast
    then show ?thesis by (rule that [OF _ 2(2)]) (use 1(3) 2(3) in metis)
  qed
qed

text \<open>The keys of issuers do not matter to the sets of serials.\<close>

lemma insert_keeps_sets:
  "\<forall>T. unexpired T s \<longrightarrow> unexpired T s' \<and> mem_sets s' = (mem_sets s)(k := x) \<Longrightarrow> S k \<Longrightarrow> keeps_sets S s s'"
  by (auto simp: keeps_sets_def)

lemma mem_addCRL:
  assumes "only_sets s"
  obtains s' where "addCRL url (mem_cache js) im dp s = Done (None, s')" and "only_sets s'" and "keeps_sets issuer_key s s'"
proof (cases "crl_entry url dp")
  case None
  then show ?thesis using that assms by (simp add: addCRL_eq keeps_sets_refl)
next
  case (Some u)
  obtain b s' where s': "Redis_SetInsert redis_mem (crlId im) u s = Done ((b, None), s')" "only_sets s'"
      "\<forall>T. unexpired T s \<longrightarrow> unexpired T s' \<and> mem_sets s' = (mem_sets s)(crlId im := insert u (mem_sets s (crlId im)))"
    by (rule mem_SetInsert [OF assms])
  have "keeps_sets issuer_key s s'" by (rule insert_keeps_sets [OF s'(3)]) simp
  then show ?thesis using that Some s'(1,2) by (simp add: addCRL_eq mem_ops)
qed

lemma mem_accumulate_dps:
  assumes "only_sets s"
  obtains im' s' where "accumulate_dps url (mem_cache js) im dps s = Done (None, im', s')" and "only_sets s'"
    and "keeps_sets issuer_key s s'"
proof -
  have "\<exists>im' s'. accumulate_dps url (mem_cache js) im dps s = Done (None, im', s') \<and> only_sets s' \<and> keeps_sets issuer_key s s'"
    using assms
  proof (induction dps arbitrary: im s)
    case (Cons dp dps)
    let ?im = "im\<lparr>knownCrlDPs := insert dp (knownCrlDPs im)\<rparr>"
    obtain s1 where s1: "addCRL url (mem_cache js) ?im dp s = Done (None, s1)" "only_sets s1" "keeps_sets issuer_key s s1"
      by (rule mem_addCRL [OF Cons.prems])
    then show ?case
      using Cons.IH [of s1 ?im] Cons.IH [OF Cons.prems, of im] keeps_sets_trans [OF s1(3)] by (simp add: Let_def) blast
  qed (simp add: keeps_sets_refl)
  then show ?thesis using that by blast
qed

lemma mem_Accumulate:
  assumes "only_sets s"
  obtains seen im' s' where "Accumulate url (mem_cache js) im c s = Done ((seen, None), im', s')" and "only_sets s'"
    and "keeps_sets issuer_key s s'"
proof -
  let ?e = "ExpDate_ID (NewExpDateFromTime (NotAfter c))" and ?dn = "Issuer_String c"
  define im0 where "im0 = (if ?e \<notin> knownExpDates im then im\<lparr>knownExpDates := insert ?e (knownExpDates im)\<rparr> else im)"
  obtain im1 s1 where 1: "accumulate_dps url (mem_cache js) im0 (CRLDistributionPoints c) s = Done (None, im1, s1)" "only_sets s1"
      "keeps_sets issuer_key s s1"
    by (rule mem_accumulate_dps [OF assms])
  let ?im2 = "im1\<lparr>knownIssuerDNs := insert ?dn (knownIssuerDNs im1)\<rparr>"
  obtain b s2 where 2: "Redis_SetInsert redis_mem (issuersId ?im2) ?dn s1 = Done ((b, None), s2)" "only_sets s2"
      "\<forall>T. unexpired T s1 \<longrightarrow> unexpired T s2
        \<and> mem_sets s2 = (mem_sets s1)(issuersId ?im2 := insert ?dn (mem_sets s1 (issuersId ?im2)))"
    by (rule mem_SetInsert [OF 1(2)])
  have k: "keeps_sets issuer_key s s2"
    by (rule keeps_sets_trans [OF 1(3) insert_keeps_sets [OF 2(3)]]) simp
  show ?thesis
    using that 1 2(1,2) k unfolding Accumulate_def Let_def im0_def [symmetric]
    by (cases "?dn \<in> knownIssuerDNs im") (auto simp: addIssuerDN_def mem_ops)
qed

section \<open>The disk\<close>

text \<open>
  Under the root there are directories of buckets and of issuers, with files in these only, and in
  the working directory, \<^verbatim>\<open>/\<close>, the markers of days.
\<close>

definition tidy :: "string list \<Rightarrow> disk \<Rightarrow> bool" where
  "tidy comps d \<longleftrightarrow> disk_faults d = no_faults \<and> disk_cwd d = [] \<and> is_dir (Some (disk_tree d))
     \<and> (\<forall>q. text_at d q \<noteq> None \<longrightarrow> (\<exists>e i n. q = comps @ [e, i, n]) \<or> (\<exists>m. length m = 10 \<and> q = [m, kDirtyMarker]))
     \<and> (\<forall>q. is_dir (ft_lookup (disk_tree d) q) \<longrightarrow> (\<exists>k e i. q = take k (comps @ [e, i])) \<or> (\<exists>m. q = [m]))"

definition good_root :: "string list \<Rightarrow> bool" where
  "good_root comps \<longleftrightarrow> list_all plain_elem comps \<and> comps \<noteq> [] \<and> length (hd comps) \<noteq> 10"

text \<open>What is in the way of nothing.\<close>

lemma marker_not_below:
  assumes "good_root comps" and "length m = 10"
  shows "take k (comps @ r) \<noteq> [m, x]"
proof
  assume t: "take k (comps @ r) = [m, x]"
  then have "k \<noteq> 0" by (intro notI) simp
  then have "hd (take k (comps @ r)) = hd comps" using assms(1) by (cases comps; cases k) (simp_all add: good_root_def)
  then show False using t assms by (simp add: good_root_def)
qed

lemma tidy_way:
  assumes "good_root comps" and "tidy comps d" and "k \<le> length (comps @ [e, i])"
  shows "text_at d (take k (comps @ [e, i])) = None"
proof (rule ccontr)
  assume "text_at d (take k (comps @ [e, i])) \<noteq> None"
  then consider e' i' n where "take k (comps @ [e, i]) = comps @ [e', i', n]"
    | m where "length m = 10" "take k (comps @ [e, i]) = [m, kDirtyMarker]"
    using assms(2) unfolding tidy_def by blast
  then show False
  proof cases
    case 1
    then have "length (take k (comps @ [e, i])) = length (comps @ [e', i', n])" by (simp only:)
    then show False by simp
  next
    case 2
    then show False using marker_not_below [OF assms(1)] by blast
  qed
qed

lemma tidy_free:
  assumes "good_root comps" and "tidy comps d"
  shows "\<not> is_dir (ft_lookup (disk_tree d) (comps @ [e, i, n]))"
proof
  assume "is_dir (ft_lookup (disk_tree d) (comps @ [e, i, n]))"
  then consider k e' i' where "comps @ [e, i, n] = take k (comps @ [e', i'])" | m where "comps @ [e, i, n] = [m]"
    using assms(2) unfolding tidy_def by blast
  then show False
  proof cases
    case 1
    then have "length (comps @ [e, i, n]) = length (take k (comps @ [e', i']))" by (simp only:)
    then show False by simp
  qed simp
qed

lemma tidy_marker:
  assumes "good_root comps" and "tidy comps d" and "length m = 10"
  shows "text_at d (take k [m]) = None" and "\<not> is_dir (ft_lookup (disk_tree d) [m, kDirtyMarker])"
proof -
  have short: "take k [m] \<noteq> q" if "1 < length q" for q
  proof
    assume "take k [m] = q"
    then have "length (take k [m]) = length q" by (simp only:)
    then show False using that by simp
  qed
  have "take k [m] \<noteq> comps @ [e, i, n]" "take k [m] \<noteq> [m', kDirtyMarker]" for e i n m'
    by (rule short, simp)+
  then show "text_at d (take k [m]) = None" using assms(2) unfolding tidy_def by blast
  show "\<not> is_dir (ft_lookup (disk_tree d) [m, kDirtyMarker])"
    using assms(2) marker_not_below [OF assms(1,3)] unfolding tidy_def by (metis list.inject not_Cons_self2)
qed

text \<open>Names of dates are plain path elements.\<close>

lemma plain_ExpDate_ID:
  assumes "year_4_digits (date e)"
  shows "plain_elem (ExpDate_ID e)"
proof -
  have f: "of_char c \<notin> {45} \<union> {48..57 :: nat} \<Longrightarrow> c \<notin> set (ExpDate_ID e)" for c
    by (rule ExpDate_ID_free [OF assms])
  have d: "CHR ''.'' \<notin> set (ExpDate_ID e)" "CHR ''/'' \<notin> set (ExpDate_ID e)" by (rule f; simp)+
  have "ExpDate_ID e \<noteq> []" by (auto simp: ExpDate_ID_def Format_hour_def Format_day_def split: prod.splits)
  then show ?thesis using d by (auto simp: plain_elem_def)
qed

lemma plain_Format_day:
  assumes "year_4_digits t"
  shows "plain_elem (Format_day t)" and "length (Format_day t) = 10"
proof -
  show "plain_elem (Format_day t)"
    using plain_ExpDate_ID [of "\<lparr>date = t, lastGood = t, hourResolution = False\<rparr>"] assms by (simp add: ExpDate_ID_def)
  show "length (Format_day t) = 10" by (rule length_Format_day [OF assms])
qed

text \<open>A marker of a day, relative to the working directory.\<close>

lemma marker_path:
  assumes "plain_elem m" and "disk_cwd d = []"
  defines "p \<equiv> filepath_Join [m, kDirtyMarker]"
  shows "p \<noteq> []" and "resolve d p = [] @ [m] @ [kDirtyMarker]"
    and "fst (filepath_Split p) \<noteq> []" and "resolve d (fst (filepath_Split p)) = [m]"
proof -
  have m: "CHR ''/'' \<notin> set m" "m \<noteq> []" "m \<noteq> ''.''" "m \<noteq> ''..''" using assms(1) by (simp_all add: plain_elem_def)
  have abs: "\<not> is_abs (m @ x)" for x using m(1,2) by (cases m) (auto simp: is_abs_def has_prefix_def)
  have s: "path_split (m @ CHR ''/'' # ''dirty'') = [m, ''dirty'']"
    using m by (simp add: path_split_slash strings_split_fresh)
  have p: "p = m @ CHR ''/'' # ''dirty''"
    using m abs [of "''/dirty''"] unfolding p_def filepath_Join_def filepath_Clean_def
    by (simp add: s strings_join_Cons Let_def)
  show "p \<noteq> []" by (simp add: p)
  show "resolve d p = [] @ [m] @ [kDirtyMarker]"
    using m abs [of "''/dirty''"] assms(2) by (simp add: p resolve_def s)
  have sp: "fst (filepath_Split p) = m @ ''/''" by (simp add: p filepath_Split_def)
  show "fst (filepath_Split p) \<noteq> []" by (simp add: sp)
  have "path_split (m @ ''/'') = [m, []]" using m path_split_slash [of m "[]"] by (simp add: strings_split_fresh)
  then show "resolve d (fst (filepath_Split p)) = [m]"
    using m abs [of "''/''"] assms(2) by (simp add: sp resolve_def)
qed

text \<open>The operations of the backend succeed and leave the disk tidy.\<close>

lemma tidy_grows:
  assumes "tidy comps d" and "same_env d d'" and "is_dir (Some (disk_tree d'))"
    and "\<And>q. text_at d' q \<noteq> None \<Longrightarrow> text_at d q \<noteq> None \<or> (\<exists>e i n. q = comps @ [e, i, n]) \<or> (\<exists>m. length m = 10 \<and> q = [m, kDirtyMarker])"
    and "\<And>q. is_dir (ft_lookup (disk_tree d') q) \<Longrightarrow>
      is_dir (ft_lookup (disk_tree d) q) \<or> (\<exists>k e i. q = take k (comps @ [e, i])) \<or> (\<exists>m. q = [m])"
  shows "tidy comps d'"
  using assms(1-3) assms(4,5) unfolding tidy_def same_env_def by metis

lemma cert_paths:
  assumes "list_all plain_elem comps" and "plain_elem e" and "plain_elem i" and "plain_elem n"
  shows "filepath_Join [abs_path comps, e, i] = abs_path ((comps @ [e]) @ [i])"
    and "filepath_Join [abs_path comps, e, i, n] = abs_path ((comps @ [e, i]) @ [n])"
    and "list_all plain_elem ((comps @ [e]) @ [i])" and "list_all plain_elem ((comps @ [e, i]) @ [n])"
  using filepath_Join_abs [OF assms(1), of "[e, i]"] filepath_Join_abs [OF assms(1), of "[e, i, n]"] assms by simp_all

lemma tidy_Allocate:
  assumes "good_root comps" and "tidy comps d" and "plain_elem (ExpDate_ID e)" and "plain_elem (iss_id i)"
  obtains d' where "LDB_AllocateExpDateAndIssuer (abs_path comps) e i d = (None, d')" and "tidy comps d'"
proof -
  have pl: "list_all plain_elem comps" using assms(1) by (simp add: good_root_def)
  let ?cs = "comps @ [ExpDate_ID e]"
  note cp = cert_paths [OF pl assms(3,4,4)]
  have d: "disk_faults d = no_faults" "is_dir (Some (disk_tree d))" using assms(2) by (simp_all add: tidy_def)
  have t: "take k ?cs = take k (comps @ [ExpDate_ID e, iss_id i])" if "k \<le> length ?cs" for k
    using that by (simp add: take_Cons')
  have "text_at d (take k ?cs) = None" if "k \<le> length ?cs" for k
    using tidy_way [OF assms(1,2), of k "ExpDate_ID e" "iss_id i"] that t [OF that] by simp
  then obtain d' where d': "makeDirectoryIfNotExist (abs_path (?cs @ [iss_id i])) d = (None, d')" "is_dir (Some (disk_tree d'))"
      "\<And>q. is_dir (ft_lookup (disk_tree d') q) \<Longrightarrow> is_dir (ft_lookup (disk_tree d) q) \<or> (\<exists>k \<le> length ?cs. q = take k ?cs)"
    using makeDirectory_ok [OF filepath_Split_abs [OF cp(3)] d] by blast
  note f = makeDirectoryIfNotExist_frame [OF d'(1)]
  have "tidy comps d'"
    by (rule tidy_grows [OF assms(2)]) (use f d' t in \<open>auto, metis\<close>)
  then show ?thesis using d'(1) by (intro that) (simp_all only: LDB_AllocateExpDateAndIssuer_def cp(1))
qed

lemma tidy_StorePEM:
  assumes "good_root comps" and "tidy comps d" and "plain_elem (ExpDate_ID e)" and "plain_elem (iss_id i)" and "plain_elem (Serial_ID n)"
  obtains d' where "LDB_StoreCertificatePEM (abs_path comps) n e i b d = (None, d')" and "tidy comps d'"
proof -
  have pl: "list_all plain_elem comps" using assms(1) by (simp add: good_root_def)
  let ?cs = "comps @ [ExpDate_ID e, iss_id i]"
  note cp = cert_paths [OF pl assms(3-5)]
  obtain d1 where d1: "LDB_AllocateExpDateAndIssuer (abs_path comps) e i d = (None, d1)" "tidy comps d1"
    by (rule tidy_Allocate [OF assms(1-4)])
  have d: "disk_faults d1 = no_faults" "is_dir (Some (disk_tree d1))" using d1(2) by (simp_all add: tidy_def)
  have "\<not> is_dir (ft_lookup (disk_tree d1) (?cs @ [Serial_ID n]))" using tidy_free [OF assms(1) d1(2)] by simp
  then obtain d' where d': "LDB_store (abs_path (?cs @ [Serial_ID n])) b d1 = (None, d')" "is_dir (Some (disk_tree d'))"
      "\<And>q. is_dir (ft_lookup (disk_tree d') q) \<Longrightarrow> is_dir (ft_lookup (disk_tree d1) q) \<or> (\<exists>k \<le> length ?cs. q = take k ?cs)"
    using LDB_store_abs [OF cp(4) d tidy_way [OF assms(1) d1(2)], of b] by blast
  have f: "same_env d1 d'" "\<And>q. q \<noteq> ?cs @ [Serial_ID n] \<Longrightarrow> text_at d' q = text_at d1 q"
    using LDB_store_frame [OF d'(1)] resolve_abs [OF cp(4), of d1] by simp_all
  have "tidy comps d'"
    by (rule tidy_grows [OF d1(2) f(1) d'(2)]) (use f(2) d'(3) in \<open>auto, metis\<close>)
  then show ?thesis using d'(1) d1(1) by (intro that) (simp_all only: LDB_StoreCertificatePEM_def prod.case cp(2))
qed

lemma tidy_MarkDirty:
  assumes "good_root comps" and "tidy comps d" and "year_4_digits t"
  obtains d' where "LDB_MarkDirty (Format_day t) d = (None, d')" and "tidy comps d'"
proof -
  note m = plain_Format_day [OF assms(3)]
  have d: "disk_faults d = no_faults" "is_dir (Some (disk_tree d))" "disk_cwd d = []" using assms(2) by (simp_all add: tidy_def)
  note p = marker_path [OF m(1) d(3)]
  let ?p = "filepath_Join [Format_day t, kDirtyMarker]"
  have r: "resolve d ?p = [Format_day t] @ [kDirtyMarker]" using p(2) by simp
  note tm = tidy_marker [OF assms(1,2) m(2)]
  have "\<not> is_dir (ft_lookup (disk_tree d) ([Format_day t] @ [kDirtyMarker]))" using tm(2) by simp
  then obtain d' where d': "LDB_store ?p [CHR 0x00] d = (None, d')" "is_dir (Some (disk_tree d'))"
      "\<And>q. is_dir (ft_lookup (disk_tree d') q) \<Longrightarrow> is_dir (ft_lookup (disk_tree d) q) \<or> (\<exists>k \<le> length [Format_day t]. q = take k [Format_day t])"
    using LDB_store_ok [OF p(1) r p(3,4) d(1,2) tm(1), of "[CHR 0x00]"] by blast
  have f: "same_env d d'" "\<And>q. q \<noteq> [Format_day t, kDirtyMarker] \<Longrightarrow> text_at d' q = text_at d q"
    using LDB_store_frame [OF d'(1)] r by simp_all
  have "tidy comps d'"
  proof (rule tidy_grows [OF assms(2) f(1) d'(2)])
    fix q
    show "text_at d q \<noteq> None \<or> (\<exists>e i n. q = comps @ [e, i, n]) \<or> (\<exists>m. length m = 10 \<and> q = [m, kDirtyMarker])"
      if "text_at d' q \<noteq> None"
      using that f(2) m(2) by metis
    show "is_dir (ft_lookup (disk_tree d) q) \<or> (\<exists>k e i. q = take k (comps @ [e, i])) \<or> (\<exists>m. q = [m])"
      if "is_dir (ft_lookup (disk_tree d') q)"
    proof -
      have "q = take 0 (comps @ [[], []]) \<or> q = [Format_day t]" if "k \<le> length [Format_day t]" "q = take k [Format_day t]" for k
        using that by (cases k) auto
      then show ?thesis using d'(3) [OF that] by blast
    qed
  qed
  then show ?thesis using d'(1) by (intro that) (simp_all only: LDB_MarkDirty_def)
qed

section \<open>The database\<close>

lemma local_disk_ops:
  "sb_AllocateExpDateAndIssuer (local_disk_backend js root) = LDB_AllocateExpDateAndIssuer root"
  "sb_StoreCertificatePEM (local_disk_backend js root) = LDB_StoreCertificatePEM root"
  "sb_MarkDirty (local_disk_backend js root) = LDB_MarkDirty"
  by (simp_all add: local_disk_backend_def)

abbreviation deployed :: "log_json \<Rightarrow> 'g gcache \<Rightarrow> url_parser \<Rightarrow> string list \<Rightarrow> (disk, redis_db, 'g) fs_deps" where
  "deployed js gc url comps \<equiv> redis_disk_deps js redis_mem gc url comps"

definition in_order ::
    "('g \<Rightarrow> string \<Rightarrow> nat option) \<Rightarrow> string list \<Rightarrow> (disk, redis_db, 'g) FilesystemDatabase \<Rightarrow> bool" where
  "in_order held comps db \<longleftrightarrow> fs_ok held db \<and> only_sets (extCache db) \<and> tidy comps (fs_backend db)"

text \<open>Nothing expires in the cache, and no bucket of an object does.\<close>

definition in_time :: "gotime \<Rightarrow> (disk, redis_db, 'g) FilesystemDatabase \<Rightarrow> bool" where
  "in_time T db \<longleftrightarrow> unexpired T (extCache db) \<and> (\<forall>kc \<in> set (kc_heap db). \<not> Before (ExpireTime (kc_expDate kc)) T)"

lemma deployed_finish:
  assumes "good_root comps" and "in_order held comps db" and "year_4_digits (NotAfter c)"
  obtains db' where "store_finish (deployed js gc url comps) c db = Done (None, db')" and "in_order held comps db'"
    and "extCache db' = extCache db" and "kc_heap db' = kc_heap db"
proof -
  have "tidy comps (fs_backend db)" using assms(2) by (simp add: in_order_def)
  then obtain b where "LDB_MarkDirty (Format_day (NotAfter c)) (fs_backend db) = (None, b)" "tidy comps b"
    by (rule tidy_MarkDirty [OF assms(1) _ assms(3)])
  then show ?thesis
    using that [of "db\<lparr>fs_backend := b\<rparr>"] assms(2)
    by (simp add: store_finish_def markDirty_def local_disk_ops in_order_def)
qed

lemma deployed_unknown:
  assumes "good_root comps" and "in_order held comps db" and "year_4_digits (NotAfter c)"
    and plain: "plain_elem (ExpDate_ID e)" "plain_elem (iss_id i)" "plain_elem (Serial_ID n)"
  obtains db' where "store_unknown (deployed js gc url comps) c e i n db = Done (None, db')" and "in_order held comps db'"
    and "keeps_sets issuer_key (extCache db) (extCache db')" and "kc_heap db' = kc_heap db"
proof -
  have fs: "fs_ok held db" and red: "only_sets (extCache db)" and t: "tidy comps (fs_backend db)"
    using assms(2) by (simp_all add: in_order_def)
  obtain p m h where gi: "GetIssuerMetadata i db = (p, db\<lparr>meta := m, im_heap := h\<rparr>)"
    and f1: "fs_ok held (db\<lparr>meta := m, im_heap := h\<rparr>)"
    using GetIssuerMetadata_spec [OF fs] by metis
  obtain seen im' s where a: "Accumulate url (mem_cache js) (h ! p) c (extCache db) = Done ((seen, None), im', s)" "only_sets s"
      "keeps_sets issuer_key (extCache db) s"
    by (rule mem_Accumulate [OF red])
  have im': "im_issuer im' = im_issuer (h ! p)"
    using remote_cache.Accumulate_touches [OF _ a(1)] redis_memory.redis.remote_cache_axioms by blast
  obtain d where d: "LDB_AllocateExpDateAndIssuer (abs_path comps) e i (fs_backend db) = (None, d)" "tidy comps d"
    by (rule tidy_Allocate [OF assms(1) t plain(1,2)])
  define b1 where "b1 = (if seen then fs_backend db else d)"
  have b1: "(if \<not> seen then LDB_AllocateExpDateAndIssuer (abs_path comps) e i (fs_backend db) else (None, fs_backend db)) = (None, b1)"
      "tidy comps b1"
    using t d by (simp_all add: b1_def)
  obtain b2 where b2: "LDB_StoreCertificatePEM (abs_path comps) n e i (pem_EncodeToMemory ''CERTIFICATE'' (Raw c)) b1 = (None, b2)"
      "tidy comps b2"
    by (rule tidy_StorePEM [OF assms(1) b1(2) plain])
  let ?db = "db\<lparr>meta := m, im_heap := h[p := im'], extCache := s, fs_backend := b2\<rparr>"
  have "in_order held comps ?db"
    using fs_ok_im [OF f1, of im' p] im' a(2) b2(2) by (simp add: in_order_def fs_ok_def)
  then obtain db' where d': "store_finish (deployed js gc url comps) c ?db = Done (None, db')" "in_order held comps db'"
      "extCache db' = extCache ?db" "kc_heap db' = kc_heap ?db"
    by (rule deployed_finish [OF assms(1) _ assms(3)])
  have "store_unknown (deployed js gc url comps) c e i n db = Done (None, db')"
    using d'(1) a(1) b1(1) b2(1) by (cases seen) (simp_all add: store_unknown_def gi Let_def local_disk_ops)
  then show ?thesis by (rule that [OF _ d'(2)]) (simp_all add: d'(3,4) a(3))
qed

lemma deployed_Store:
  assumes "good_root comps" and "in_order held comps db" and "gcache_laws gc held"
    and cc: "storable (c, ca)" "disk_key_ok comps (stored_key (c, ca))"
  obtains db' where "Store (deployed js gc url comps) c ca u entry db = Done (None, db')" and "in_order held comps db'"
    and "\<forall>T. in_time T db \<longrightarrow> \<not> Before (ExpireTime (NewExpDateFromTime (NotAfter c))) T \<longrightarrow> in_time T db'
      \<and> (\<forall>k. mb_key_ok k \<longrightarrow> recorded_in mem_sets (extCache db') k
          = (recorded_in mem_sets (extCache db) k \<or> k = stored_key (c, ca)))"
proof -
  define e i where "e = NewExpDateFromTime (NotAfter c)" and "i = NewIssuer ca"
  obtain n where t: "t_off (NotAfter c) = 0" "year_4_digits (NotAfter c)" and sn: "NewSerial c = Done n"
    using cc(1) by (auto simp: storable_def split: outcome.splits)
  have plain: "plain_elem (ExpDate_ID e)" "plain_elem (iss_id i)" "plain_elem (Serial_ID n)"
    using disk_key_elems [of comps "ExpDate_ID e" "iss_id i" n] cc(2) by (simp_all add: stored_key_def sn e_def i_def)
  have fs: "fs_ok held db" and red: "only_sets (extCache db)" and td: "tidy comps (fs_backend db)"
    using assms(2) by (simp_all add: in_order_def)
  obtain p g h where kc: "GetKnownCertificates gc e i db = Done (p, db\<lparr>knownCertsCache := g, kc_heap := h\<rparr>)"
    and p: "p < length h" "serialId (h ! p) [] = serialId (NewKnownCertificates e i) []"
    and f: "fs_ok held (db\<lparr>knownCertsCache := g, kc_heap := h\<rparr>)"
    using GetKnownCertificates_spec [OF assms(3) fs length_hour_ID [OF t]] unfolding e_def [symmetric] by metis
  obtain b kc' s where w: "WasUnknown (mem_cache js) (h ! p) n (extCache db) = Done ((b, None), kc', s)" "only_sets s"
      "\<forall>T. unexpired T (extCache db) \<longrightarrow> \<not> Before (ExpireTime (kc_expDate (h ! p))) T \<longrightarrow> unexpired T s
        \<and> mem_sets s = (mem_sets (extCache db))(serialId (h ! p) [] := insert (BinaryString n) (mem_sets (extCache db) (serialId (h ! p) [])))"
    by (rule mem_WasUnknown [OF red])
  have k: "kc' = (h ! p)\<lparr>kc_expirySet := True\<rparr>"
    using redis_memory.redis.WasUnknown_contents [OF TrueI w(1)] by blast
  let ?db = "db\<lparr>knownCertsCache := g, kc_heap := h[p := kc'], extCache := s\<rparr>"
  have o: "in_order held comps ?db"
    using fs_ok_kc [OF f, where p = p and x = True] k w(2) td by (simp add: in_order_def fs_ok_def)
  have "\<exists>db'. (if b then store_unknown (deployed js gc url comps) c e i n ?db else store_finish (deployed js gc url comps) c ?db) = Done (None, db')
      \<and> in_order held comps db' \<and> keeps_sets issuer_key s (extCache db') \<and> kc_heap db' = kc_heap ?db"
  proof (cases b)
    case True
    show ?thesis by (rule deployed_unknown [OF assms(1) o t(2) plain, of js gc url]) (use True in auto)
  next
    case False
    show ?thesis by (rule deployed_finish [OF assms(1) o t(2), of js gc url]) (use False keeps_sets_refl in auto)
  qed
  then obtain db' where d': "(if b then store_unknown (deployed js gc url comps) c e i n ?db else store_finish (deployed js gc url comps) c ?db) = Done (None, db')"
      "in_order held comps db'" "keeps_sets issuer_key s (extCache db')" "kc_heap db' = kc_heap ?db" by blast
  moreover have "Store (deployed js gc url comps) c ca u entry db
      = (if b then store_unknown (deployed js gc url comps) c e i n ?db else store_finish (deployed js gc url comps) c ?db)"
    unfolding Store_def Let_def e_def [symmetric] i_def [symmetric] by (cases b) (simp_all add: kc sn w(1))
  moreover have "in_time T db' \<and> (\<forall>k. mb_key_ok k \<longrightarrow> recorded_in mem_sets (extCache db') k
      = (recorded_in mem_sets (extCache db) k \<or> k = stored_key (c, ca)))"
    if T: "in_time T db" "\<not> Before (ExpireTime e) T" for T
  proof -
    have h: "set h \<subseteq> insert (NewKnownCertificates e i) (set (kc_heap db))"
      using GetKnownCertificates_heap [OF kc] by auto
    then have open_buckets: "\<forall>kc \<in> set h. \<not> Before (ExpireTime (kc_expDate kc)) T"
      using T by (auto simp: in_time_def NewKnownCertificates_def)
    then have s: "unexpired T s" "mem_sets s
        = (mem_sets (extCache db))(serialId (h ! p) [] := insert (BinaryString n) (mem_sets (extCache db) (serialId (h ! p) [])))"
      using w(3) T(1) p(1) by (auto simp: in_time_def)
    have keys: "unexpired T (extCache db')" "\<And>e i. mem_sets (extCache db') (serials_key e i) = mem_sets s (serials_key e i)"
      using d'(3) s(1) by (auto simp: keeps_sets_def)
    have "in_time T db'"
      using keys(1) open_buckets p(1) set_update_subset_insert [of h p kc'] by (auto simp: in_time_def d'(4) k)
    moreover have "recorded_in mem_sets (extCache db') key = (recorded_in mem_sets (extCache db) key \<or> key = stored_key (c, ca))"
      if "mb_key_ok key" for key
    proof (cases key)
      case (fields e' i' n')
      have id: "serialId (h ! p) [] = serials_key (ExpDate_ID e) (iss_id i)"
        using p(2) by (simp add: serialId_key NewKnownCertificates_def)
      have sk: "stored_key (c, ca) = cert_key e i n" by (simp add: stored_key_def sn e_def i_def)
      show ?thesis
        using serials_key_inject [of e' i' n' "ExpDate_ID e" "iss_id i" n] that store_key_ok [OF t, of ca n]
        by (auto simp: fields recorded_in_def keys(2) s(2) id sk e_def i_def)
    qed
    ultimately show ?thesis by blast
  qed
  ultimately show ?thesis using that unfolding e_def by metis
qed

lemma deployed_store_all:
  assumes "good_root comps" and "gcache_laws gc held"
  shows "\<lbrakk>in_order held comps db; list_all (\<lambda>cc. storable cc \<and> disk_key_ok comps (stored_key cc)) cs\<rbrakk>
    \<Longrightarrow> \<exists>db'. store_all (deployed js gc url comps) cs db = Done db' \<and> in_order held comps db'
      \<and> (\<forall>T. in_time T db \<longrightarrow> (\<forall>cc \<in> set cs. \<not> Before (ExpireTime (NewExpDateFromTime (NotAfter (fst cc)))) T) \<longrightarrow>
          in_time T db' \<and> (\<forall>k. mb_key_ok k \<longrightarrow> recorded_in mem_sets (extCache db') k
            = (recorded_in mem_sets (extCache db) k \<or> k \<in> stored_key ` set cs)))"
proof (induction cs arbitrary: db)
  case (Cons cc cs)
  obtain c ca where cc: "cc = (c, ca)" by (cases cc)
  have ok: "storable (c, ca)" "disk_key_ok comps (stored_key (c, ca))" using Cons.prems(2) by (simp_all add: cc)
  obtain db1 where s: "Store (deployed js gc url comps) c ca [] 0 db = Done (None, db1)" "in_order held comps db1"
    and t: "\<forall>T. in_time T db \<longrightarrow> \<not> Before (ExpireTime (NewExpDateFromTime (NotAfter c))) T \<longrightarrow> in_time T db1
      \<and> (\<forall>k. mb_key_ok k \<longrightarrow> recorded_in mem_sets (extCache db1) k
          = (recorded_in mem_sets (extCache db) k \<or> k = stored_key (c, ca)))"
    by (rule deployed_Store [OF assms(1) Cons.prems(1) assms(2) ok])
  obtain db' where d': "store_all (deployed js gc url comps) cs db1 = Done db'" "in_order held comps db'"
    and t': "\<forall>T. in_time T db1 \<longrightarrow> (\<forall>cc \<in> set cs. \<not> Before (ExpireTime (NewExpDateFromTime (NotAfter (fst cc)))) T) \<longrightarrow>
          in_time T db' \<and> (\<forall>k. mb_key_ok k \<longrightarrow> recorded_in mem_sets (extCache db') k
            = (recorded_in mem_sets (extCache db1) k \<or> k \<in> stored_key ` set cs))"
    using Cons.IH [OF s(2)] Cons.prems(2) by auto
  have "in_time T db' \<and> (\<forall>k. mb_key_ok k \<longrightarrow> recorded_in mem_sets (extCache db') k
            = (recorded_in mem_sets (extCache db) k \<or> k \<in> stored_key ` set (cc # cs)))"
    if "in_time T db" "\<forall>cc \<in> set (cc # cs). \<not> Before (ExpireTime (NewExpDateFromTime (NotAfter (fst cc)))) T" for T
  proof -
    have 1: "in_time T db1" "\<And>k. mb_key_ok k \<Longrightarrow> recorded_in mem_sets (extCache db1) k
          = (recorded_in mem_sets (extCache db) k \<or> k = stored_key cc)"
      using t that cc by auto
    have "\<forall>cc \<in> set cs. \<not> Before (ExpireTime (NewExpDateFromTime (NotAfter (fst cc)))) T" using that(2) by simp
    then have "in_time T db'" "\<And>k. mb_key_ok k \<Longrightarrow> recorded_in mem_sets (extCache db') k
            = (recorded_in mem_sets (extCache db1) k \<or> k \<in> stored_key ` set cs)"
      using t' 1(1) by blast+
    then show ?thesis using 1(2) by auto
  qed
  then show ?case using s d' by (simp add: cc)
qed simp

section \<open>Properties\<close>

text \<open>
  C12. In a deployment in good order, over Redis and the local disk, storing any sequence of
  certificates with readable serials succeeds and leaves it in good order. Afterwards every one of
  them, and every certificate that Redis records, has the PEM of a certificate with its bucket, issuer
  and serial on the disk, and a text that is not the one there before is the PEM of one of the
  sequence. While the server's clock has not reached the end of a time to live, the sets of serials in
  Redis have gained exactly the serials of the sequence, each in the set of its bucket and issuer.
\<close>

theorem Deployment_stores_all:
  assumes "good_root comps" and "gcache_laws gc held"
    and "in_order held comps db" and "texts_on_disk mem_sets comps C db"
    and "list_all (\<lambda>cc. storable cc \<and> disk_key_ok comps (stored_key cc)) cs"
  shows "\<exists>db'. store_all (redis_disk_deps js redis_mem gc url comps) cs db = Done db'
    \<and> in_order held comps db' \<and> texts_on_disk mem_sets comps (C \<union> set cs) db'
    \<and> (\<forall>cc \<in> set cs. text_of (C \<union> set cs) (stored_key cc) (disk_pem comps (fs_backend db') (stored_key cc)))
    \<and> (\<forall>k. disk_key_ok comps k \<longrightarrow> disk_pem comps (fs_backend db') k = disk_pem comps (fs_backend db) k
        \<or> text_of (set cs) k (disk_pem comps (fs_backend db') k))
    \<and> (\<forall>T. in_time T db \<longrightarrow> (\<forall>cc \<in> set cs. \<not> Before (ExpireTime (NewExpDateFromTime (NotAfter (fst cc)))) T) \<longrightarrow>
        (\<forall>k. mb_key_ok k \<longrightarrow> recorded_in mem_sets (extCache db') k
          = (recorded_in mem_sets (extCache db) k \<or> k \<in> stored_key ` set cs)))"
proof -
  obtain db' where db': "store_all (redis_disk_deps js redis_mem gc url comps) cs db = Done db'" "in_order held comps db'"
      "\<forall>T. in_time T db \<longrightarrow> (\<forall>cc \<in> set cs. \<not> Before (ExpireTime (NewExpDateFromTime (NotAfter (fst cc)))) T) \<longrightarrow>
        (\<forall>k. mb_key_ok k \<longrightarrow> recorded_in mem_sets (extCache db') k
          = (recorded_in mem_sets (extCache db) k \<or> k \<in> stored_key ` set cs))"
    using deployed_store_all [OF assms(1-3,5), of js url] by blast
  have "fs_ok held db" using assms(3) by (simp add: in_order_def)
  from redis_disk_stores [OF redis_memory.redis_server_axioms assms(2) this assms(4,5) db'(1)] db'
  show ?thesis by (intro exI [of _ db']) simp
qed

definition sample_deployment :: "(disk, redis_db, (string, nat) gomap) FilesystemDatabase" where
  "sample_deployment = fst (NewFilesystemDatabase empty_disk \<lparr>keyspace = [], deadline = [], server_clock = (\<lambda>n. utc 0)\<rparr> [])"

lemma sample_deployment_in_order:
  "in_order (\<lambda>g. gm_get g) [''ct''] sample_deployment" "texts_on_disk mem_sets [''ct''] {} sample_deployment"
proof -
  have e: "ft_lookup (FDir []) q = (if q = [] then Some (FDir []) else None)" for q by (cases q) simp_all
  have "tidy [''ct''] empty_disk"
    unfolding tidy_def by (auto simp: empty_disk_def e is_dir_def file_text_def split: if_splits intro!: exI [of _ 0])
  then show "in_order (\<lambda>g. gm_get g) [''ct''] sample_deployment"
    by (simp add: in_order_def sample_deployment_def NewFilesystemDatabase_def fs_ok_def only_sets_def)
  show "texts_on_disk mem_sets [''ct''] {} sample_deployment"
    by (simp add: texts_on_disk_def recorded_in_def sample_deployment_def NewFilesystemDatabase_def mem_sets_def)
qed

lemma sample_cert_disk:
  "list_all (\<lambda>cc. storable cc \<and> disk_key_ok [''ct''] (stored_key cc)) [(sample_cert, sample_cert), (sample_cert, sample_cert)]"
proof -
  have n: "NewSerial sample_cert = Done (Serial [0, 170])" by code_simp
  have "year_4_digits (date (NewExpDateFromTime (NotAfter sample_cert)))" by code_simp
  then have "plain_elem (ExpDate_ID (NewExpDateFromTime (NotAfter sample_cert)))" by (rule plain_ExpDate_ID)
  moreover have "plain_elem (iss_id (NewIssuer sample_cert))"
    unfolding iss_id_NewIssuer by (rule plain_b64) (simp add: length_sha256 flip: length_greater_0_conv)
  ultimately show ?thesis
    using sample_cert_storable by (simp add: disk_key_ok_def stored_key_def n) (simp add: plain_elem_def)
qed

lemma good_ct: "good_root [''ct'']"
  by (simp add: good_root_def plain_elem_def)

theorem Deployment_stores_all_witness:
  "\<exists>db'. store_all (redis_disk_deps sample_json redis_mem map_gcache sample_url [''ct''])
      [(sample_cert, sample_cert), (sample_cert, sample_cert)] sample_deployment = Done db'
    \<and> disk_pem [''ct''] (fs_backend db') (stored_key (sample_cert, sample_cert)) = Some (pem_EncodeToMemory ''CERTIFICATE'' (Raw sample_cert))
    \<and> recorded_in mem_sets (extCache db') (stored_key (sample_cert, sample_cert))"
proof -
  let ?cc = "(sample_cert, sample_cert)"
  have k: "mb_key_ok (stored_key ?cc)" by (rule stored_key_hour [OF sample_cert_storable])
  have "\<not> Before (ExpireTime (NewExpDateFromTime (NotAfter sample_cert))) (utc 0)" by code_simp
  then have T: "\<forall>cc \<in> set [?cc, ?cc]. \<not> Before (ExpireTime (NewExpDateFromTime (NotAfter (fst cc)))) (utc 0)" by simp
  have "in_time (utc 0) sample_deployment"
    by (simp add: in_time_def unexpired_def sample_deployment_def NewFilesystemDatabase_def Before_def)
  note t = this
  obtain db' where db': "store_all (redis_disk_deps sample_json redis_mem map_gcache sample_url [''ct'']) [?cc, ?cc] sample_deployment = Done db'"
      "\<forall>cc \<in> set [?cc, ?cc]. text_of ({} \<union> set [?cc, ?cc]) (stored_key cc) (disk_pem [''ct''] (fs_backend db') (stored_key cc))"
      "\<forall>T. in_time T sample_deployment \<longrightarrow> (\<forall>cc \<in> set [?cc, ?cc]. \<not> Before (ExpireTime (NewExpDateFromTime (NotAfter (fst cc)))) T) \<longrightarrow>
        (\<forall>k. mb_key_ok k \<longrightarrow> recorded_in mem_sets (extCache db') k
          = (recorded_in mem_sets (extCache sample_deployment) k \<or> k \<in> stored_key ` set [?cc, ?cc]))"
    using Deployment_stores_all [OF good_ct map_gcache_laws sample_deployment_in_order sample_cert_disk, of sample_json sample_url] by blast
  have "stored_key ?cc \<in> stored_key ` set [?cc, ?cc]" by simp
  then have "recorded_in mem_sets (extCache db') (stored_key ?cc)" using db'(3) t T k by blast
  then show ?thesis using db'(1,2) by (intro exI [of _ db']) (simp add: text_of_def)
qed

text \<open>
  C13. Whatever a Redis server forgets when keys expire, and whatever fails in between: after
  stores that reported success, every certificate of theirs, and every certificate that Redis records,
  has the PEM of a certificate with its bucket, issuer and serial on the disk, be it one of these
  stores or of earlier ones (\<open>C\<close>); and a text that is not the one there before is the PEM of a
  certificate of these stores.
\<close>

theorem Redis_disk_keeps_texts:
  fixes db db' :: "(disk, 's, 'g) FilesystemDatabase"
  assumes "redis_server r sets ttl" and "gcache_laws gc held" and "fs_ok held db" and "texts_on_disk sets comps C db"
    and "list_all (\<lambda>cc. storable cc \<and> disk_key_ok comps (stored_key cc)) cs"
    and "store_all (redis_disk_deps js r gc url comps) cs db = Done db'"
  shows "texts_on_disk sets comps (C \<union> set cs) db'
    \<and> (\<forall>cc \<in> set cs. text_of (C \<union> set cs) (stored_key cc) (disk_pem comps (fs_backend db') (stored_key cc)))
    \<and> (\<forall>k. disk_key_ok comps k \<longrightarrow> disk_pem comps (fs_backend db') k = disk_pem comps (fs_backend db) k
        \<or> text_of (set cs) k (disk_pem comps (fs_backend db') k))"
  using redis_disk_stores [OF assms] by blast

theorem Redis_disk_keeps_texts_witness:
  "\<exists>db'. store_all (redis_disk_deps sample_json redis_mem map_gcache sample_url [''ct''])
      [(sample_cert, sample_cert), (sample_cert, sample_cert)] sample_deployment = Done db'
    \<and> disk_pem [''ct''] (fs_backend db') (stored_key (sample_cert, sample_cert)) = Some (pem_EncodeToMemory ''CERTIFICATE'' (Raw sample_cert))"
proof -
  have fs: "fs_ok (\<lambda>g. gm_get g) sample_deployment" using sample_deployment_in_order(1) by (simp add: in_order_def)
  obtain db' where db': "store_all (redis_disk_deps sample_json redis_mem map_gcache sample_url [''ct''])
      [(sample_cert, sample_cert), (sample_cert, sample_cert)] sample_deployment = Done db'"
    using deployed_store_all [OF good_ct map_gcache_laws sample_deployment_in_order(1) sample_cert_disk] by blast
  from Redis_disk_keeps_texts [OF redis_memory.redis_server_axioms map_gcache_laws fs sample_deployment_in_order(2) sample_cert_disk this]
  show ?thesis using db' by (auto simp: text_of_def)
qed

end
