(* ===== verification/Go_Json.thy ===== *)
theory Go_Json
  imports Go_Encoding
begin

text \<open>
  What the code uses of \<^verbatim>\<open>encoding/json\<close> for texts: writing a string, checking that a text is
  JSON, and reading a text into a pointer to a string. With it the part of UTF-8 they rest on.
\<close>

section \<open>UTF-8\<close>

abbreviation code :: "char \<Rightarrow> nat" where "code c \<equiv> of_char c"

abbreviation RuneError :: nat where "RuneError \<equiv> 0xFFFD"

text \<open>
  For a leading byte, the number of bytes that follow, the range of the first of them, and the bits
  the byte itself contributes.
\<close>

definition rune_start :: "nat \<Rightarrow> (nat \<times> nat \<times> nat \<times> nat) option" where
  "rune_start b =
     (if 0xC2 \<le> b \<and> b \<le> 0xDF then Some (1, 0x80, 0xBF, b - 0xC0)
      else if b = 0xE0 then Some (2, 0xA0, 0xBF, 0)
      else if b = 0xED then Some (2, 0x80, 0x9F, 0xD)
      else if 0xE1 \<le> b \<and> b \<le> 0xEF then Some (2, 0x80, 0xBF, b - 0xE0)
      else if b = 0xF0 then Some (3, 0x90, 0xBF, 0)
      else if 0xF1 \<le> b \<and> b \<le> 0xF3 then Some (3, 0x80, 0xBF, b - 0xF0)
      else if b = 0xF4 then Some (3, 0x80, 0x8F, 4)
      else None)"

fun utf8_DecodeRune :: "string \<Rightarrow> nat \<times> nat" where
  "utf8_DecodeRune [] = (RuneError, 0)"
| "utf8_DecodeRune (c # s) =
     (if code c < 0x80 then (code c, 1)
      else case rune_start (code c) of
             None \<Rightarrow> (RuneError, 1)
           | Some (n, lo, hi, bits) \<Rightarrow>
               (if n \<le> length s \<and> lo \<le> code (hd s) \<and> code (hd s) \<le> hi
                   \<and> list_all (\<lambda>d. 0x80 \<le> code d \<and> code d \<le> 0xBF) (take n s)
                then (foldl (\<lambda>r d. r * 64 + (code d - 0x80)) bits (take n s), n + 1)
                else (RuneError, 1)))"

definition utf8_EncodeRune :: "nat \<Rightarrow> string" where
  "utf8_EncodeRune r0 =
     (let r = (if 0x10FFFF < r0 \<or> 0xD800 \<le> r0 \<and> r0 \<le> 0xDFFF then RuneError else r0)
      in if r < 0x80 then [char_of r]
         else if r < 0x800 then [char_of (0xC0 + r div 64), char_of (0x80 + r mod 64)]
         else if r < 0x10000 then [char_of (0xE0 + r div 4096), char_of (0x80 + r div 64 mod 64), char_of (0x80 + r mod 64)]
         else [char_of (0xF0 + r div 262144), char_of (0x80 + r div 4096 mod 64),
               char_of (0x80 + r div 64 mod 64), char_of (0x80 + r mod 64)])"

text \<open>A pair of UTF-16 surrogates.\<close>

definition utf16_IsSurrogate :: "nat \<Rightarrow> bool" where
  "utf16_IsSurrogate r \<longleftrightarrow> 0xD800 \<le> r \<and> r < 0xE000"

definition utf16_DecodeRune :: "nat \<Rightarrow> nat \<Rightarrow> nat" where
  "utf16_DecodeRune r1 r2 =
     (if 0xD800 \<le> r1 \<and> r1 < 0xDC00 \<and> 0xDC00 \<le> r2 \<and> r2 < 0xE000
      then (r1 - 0xD800) * 1024 + (r2 - 0xDC00) + 0x10000 else RuneError)"

lemma utf8_DecodeRune_size: "(r, n) = utf8_DecodeRune (c # s) \<Longrightarrow> 0 < n"
  by (auto split: option.splits if_splits)

section \<open>Writing a string\<close>

definition json_escape :: "char \<Rightarrow> string" where
  "json_escape c =
     (if c = CHR 0x5C \<or> c = CHR 0x22 then [CHR 0x5C, c]
      else if c = CHR 0x0A then [CHR 0x5C, CHR ''n'']
      else if c = CHR 0x0D then [CHR 0x5C, CHR ''r'']
      else if c = CHR 0x09 then [CHR 0x5C, CHR ''t'']
      else if code c < 0x20 \<or> c \<in> set ''<>&''
      then [CHR 0x5C] @ ''u00'' @ [hex_digit (code c div 16), hex_digit (code c mod 16)]
      else [c])"

function json_chars :: "string \<Rightarrow> string" where
  "json_chars [] = []"
| "json_chars (c # s) =
     (if code c < 0x80 then json_escape c @ json_chars s
      else case utf8_DecodeRune (c # s) of
             (r, n) \<Rightarrow>
               (if r = RuneError \<and> n = 1 then [CHR 0x5C] @ ''ufffd''
                else if r = 0x2028 \<or> r = 0x2029 then [CHR 0x5C] @ ''u202'' @ [hex_digit (r mod 16)]
                else take n (c # s)) @ json_chars (drop n (c # s)))"
  by pat_completeness auto
termination
  by (relation "measure length") (auto simp del: utf8_DecodeRune.simps dest: utf8_DecodeRune_size)

definition json_Marshal_string :: "string \<Rightarrow> string" where
  "json_Marshal_string s = [CHR 0x22] @ json_chars s @ [CHR 0x22]"

section \<open>Checking a text\<close>

text \<open>
  The scanner of the package: what is expected next, and the objects and arrays that are open. A
  number that may go on is in one of the states between \<open>Neg\<close> and \<open>E0\<close>; \<open>Lit\<close> holds what is left
  of \<^verbatim>\<open>true\<close>, \<^verbatim>\<open>false\<close> or \<^verbatim>\<open>null\<close>.
\<close>

datatype scan =
    BeginValue | BeginValueOrEmpty | BeginString | BeginStringOrEmpty | EndValue | EndTop
  | InString | InStringEsc | InStringEscU nat
  | Neg | Num1 | Num0 | Dot | Dot0 | E | ESign | E0 | Lit string

datatype parse = ObjectKey | ObjectValue | ArrayValue

type_synonym scanner = "scan \<times> parse list"

definition json_space :: "char \<Rightarrow> bool" where
  "json_space c \<longleftrightarrow> c = CHR '' '' \<or> c = CHR 0x09 \<or> c = CHR 0x0D \<or> c = CHR 0x0A"

definition pop :: "parse list \<Rightarrow> scanner" where
  "pop stk = (if tl stk = [] then (EndTop, []) else (EndValue, tl stk))"

definition scan_end_value :: "char \<Rightarrow> parse list \<Rightarrow> scanner option" where
  "scan_end_value c stk =
     (case stk of
        [] \<Rightarrow> (if json_space c then Some (EndTop, []) else None)
      | p # ps \<Rightarrow>
          (if json_space c then Some (EndValue, stk)
           else case p of
                  ObjectKey \<Rightarrow> (if c = CHR '':'' then Some (BeginValue, ObjectValue # ps) else None)
                | ObjectValue \<Rightarrow>
                    (if c = CHR '','' then Some (BeginString, ObjectKey # ps)
                     else if c = CHR ''}'' then Some (pop stk) else None)
                | ArrayValue \<Rightarrow>
                    (if c = CHR '','' then Some (BeginValue, stk)
                     else if c = CHR '']'' then Some (pop stk) else None)))"

definition scan_begin_value :: "char \<Rightarrow> parse list \<Rightarrow> scanner option" where
  "scan_begin_value c stk =
     (if c = CHR ''{'' then Some (BeginStringOrEmpty, ObjectKey # stk)
      else if c = CHR ''['' then Some (BeginValueOrEmpty, ArrayValue # stk)
      else if c = CHR 0x22 then Some (InString, stk)
      else if c = CHR ''-'' then Some (Neg, stk)
      else if c = CHR ''0'' then Some (Num0, stk)
      else if c = CHR ''t'' then Some (Lit ''rue'', stk)
      else if c = CHR ''f'' then Some (Lit ''alse'', stk)
      else if c = CHR ''n'' then Some (Lit ''ull'', stk)
      else if is_digit c then Some (Num1, stk)
      else None)"

definition scan_after_digits :: "char \<Rightarrow> parse list \<Rightarrow> scanner option" where
  "scan_after_digits c stk =
     (if c = CHR ''e'' \<or> c = CHR ''E'' then Some (E, stk) else scan_end_value c stk)"

fun scan_step :: "char \<Rightarrow> scanner \<Rightarrow> scanner option" where
  "scan_step c (BeginValue, stk) = (if json_space c then Some (BeginValue, stk) else scan_begin_value c stk)"
| "scan_step c (BeginValueOrEmpty, stk) =
     (if json_space c then Some (BeginValueOrEmpty, stk)
      else if c = CHR '']'' then scan_end_value c stk else scan_begin_value c stk)"
| "scan_step c (BeginString, stk) =
     (if json_space c then Some (BeginString, stk) else if c = CHR 0x22 then Some (InString, stk) else None)"
| "scan_step c (BeginStringOrEmpty, stk) =
     (if json_space c then Some (BeginStringOrEmpty, stk)
      else if c = CHR ''}'' then scan_end_value c (ObjectValue # tl stk)
      else if c = CHR 0x22 then Some (InString, stk) else None)"
| "scan_step c (EndValue, stk) = scan_end_value c stk"
| "scan_step c (EndTop, stk) = (if json_space c then Some (EndTop, stk) else None)"
| "scan_step c (InString, stk) =
     (if c = CHR 0x22 then Some (EndValue, stk)
      else if c = CHR 0x5C then Some (InStringEsc, stk)
      else if code c < 0x20 then None else Some (InString, stk))"
| "scan_step c (InStringEsc, stk) =
     (if c \<in> set ''bfnrt/'' \<or> c = CHR 0x5C \<or> c = CHR 0x22 then Some (InString, stk)
      else if c = CHR ''u'' then Some (InStringEscU 4, stk) else None)"
| "scan_step c (InStringEscU n, stk) =
     (if hex_val c = None then None
      else Some (if n \<le> 1 then InString else InStringEscU (n - 1), stk))"
| "scan_step c (Neg, stk) =
     (if c = CHR ''0'' then Some (Num0, stk) else if is_digit c then Some (Num1, stk) else None)"
| "scan_step c (Num1, stk) =
     (if is_digit c then Some (Num1, stk)
      else if c = CHR ''.'' then Some (Dot, stk) else scan_after_digits c stk)"
| "scan_step c (Num0, stk) = (if c = CHR ''.'' then Some (Dot, stk) else scan_after_digits c stk)"
| "scan_step c (Dot, stk) = (if is_digit c then Some (Dot0, stk) else None)"
| "scan_step c (Dot0, stk) = (if is_digit c then Some (Dot0, stk) else scan_after_digits c stk)"
| "scan_step c (E, stk) =
     (if c = CHR ''+'' \<or> c = CHR ''-'' then Some (ESign, stk)
      else if is_digit c then Some (E0, stk) else None)"
| "scan_step c (ESign, stk) = (if is_digit c then Some (E0, stk) else None)"
| "scan_step c (E0, stk) = (if is_digit c then Some (E0, stk) else scan_end_value c stk)"
| "scan_step c (Lit rest, stk) =
     (case rest of
        [] \<Rightarrow> None
      | d # ds \<Rightarrow> (if c = d then Some (if ds = [] then EndValue else Lit ds, stk) else None))"

fun scan_all :: "string \<Rightarrow> scanner \<Rightarrow> scanner option" where
  "scan_all [] st = Some st"
| "scan_all (c # s) st = (case scan_step c st of None \<Rightarrow> None | Some st \<Rightarrow> scan_all s st)"

text \<open>At the end of the text a space closes a number.\<close>

definition json_Valid :: "string \<Rightarrow> bool" where
  "json_Valid data =
     (case scan_all data (BeginValue, []) of
        None \<Rightarrow> False
      | Some (EndTop, stk) \<Rightarrow> True
      | Some st \<Rightarrow> (case scan_step (CHR '' '') st of Some (EndTop, stk) \<Rightarrow> True | _ \<Rightarrow> False))"

section \<open>Reading a string\<close>

text \<open>The value of an escape \<^verbatim>\<open>\uXXXX\<close>.\<close>

definition getu4 :: "string \<Rightarrow> nat option" where
  "getu4 s =
     (case s of
        b # u # h1 # h2 # h3 # h4 # rest \<Rightarrow>
          (if b = CHR 0x5C \<and> u = CHR ''u''
           then case (hex_val h1, hex_val h2, hex_val h3, hex_val h4) of
                  (Some a, Some b, Some c, Some d) \<Rightarrow> Some (((a * 16 + b) * 16 + c) * 16 + d)
                | _ \<Rightarrow> None
           else None)
      | _ \<Rightarrow> None)"

definition simple_escape :: "char \<Rightarrow> char option" where
  "simple_escape c =
     (if c = CHR 0x22 \<or> c = CHR 0x5C \<or> c = CHR ''/'' \<or> c = CHR 0x27 then Some c
      else if c = CHR ''b'' then Some (CHR 0x08)
      else if c = CHR ''f'' then Some (CHR 0x0C)
      else if c = CHR ''n'' then Some (CHR 0x0A)
      else if c = CHR ''r'' then Some (CHR 0x0D)
      else if c = CHR ''t'' then Some (CHR 0x09)
      else None)"

text \<open>The text between the quotes.\<close>

function json_unquote :: "string \<Rightarrow> string option" where
  "json_unquote [] = Some []"
| "json_unquote (c # s) =
     (if c = CHR 0x5C
      then case s of
             [] \<Rightarrow> None
           | e # s' \<Rightarrow>
               (if e = CHR ''u''
                then case getu4 (c # s) of
                       None \<Rightarrow> None
                     | Some rr \<Rightarrow>
                         (let rest = drop 6 (c # s);
                              dec = (if utf16_IsSurrogate rr
                                     then case getu4 rest of None \<Rightarrow> RuneError | Some rr1 \<Rightarrow> utf16_DecodeRune rr rr1
                                     else rr)
                          in if utf16_IsSurrogate rr \<and> dec \<noteq> RuneError
                             then map_option ((@) (utf8_EncodeRune dec)) (json_unquote (drop 6 rest))
                             else map_option ((@) (utf8_EncodeRune dec)) (json_unquote rest))
                else case simple_escape e of
                       None \<Rightarrow> None
                     | Some d \<Rightarrow> map_option ((#) d) (json_unquote s'))
      else if c = CHR 0x22 \<or> code c < 0x20 then None
      else if code c < 0x80 then map_option ((#) c) (json_unquote s)
      else case utf8_DecodeRune (c # s) of
             (r, n) \<Rightarrow> map_option ((@) (utf8_EncodeRune r)) (json_unquote (drop n (c # s))))"
  by pat_completeness auto
termination
  by (relation "measure length") (auto simp del: utf8_DecodeRune.simps dest: utf8_DecodeRune_size)

text \<open>
  \<^verbatim>\<open>json.Unmarshal\<close> into a pointer to a string that may be nil: \<^verbatim>\<open>null\<close> clears the pointer, a
  string is stored, and a value of another type leaves what is there, in a string that is there.
\<close>

definition json_Unmarshal_string :: "string \<Rightarrow> string option \<Rightarrow> string option \<times> go_error option" where
  "json_Unmarshal_string data ptr =
     (if \<not> json_Valid data then (ptr, Some (JsonError ''syntax''))
      else let v = dropWhile json_space data
           in if hd v = CHR ''n'' then (None, None)
              else if hd v = CHR 0x22
              then case json_unquote (butlast (rev (dropWhile json_space (rev (tl v))))) of
                     None \<Rightarrow> (ptr, Some (JsonError ''phase''))
                   | Some s \<Rightarrow> (Some s, None)
              else (Some (case ptr of None \<Rightarrow> [] | Some s \<Rightarrow> s), Some (JsonError ''type'')))"

section \<open>Texts of ASCII characters are read back\<close>

definition ascii :: "string \<Rightarrow> bool" where
  "ascii s \<longleftrightarrow> list_all (\<lambda>c. code c < 0x80) s"

lemma ascii_char:
  assumes "code c < 0x80" and "list_all P (map char_of [0 ..< 0x80 :: nat])"
  shows "P c"
proof -
  have "c \<in> set (map char_of [0 ..< 0x80 :: nat])"
    using assms(1) by (auto simp: image_iff intro!: bexI [of _ "code c"])
  then show ?thesis using assms(2) by (metis list_all_iff)
qed

lemma scan_all_append:
  "scan_all (a @ b) st = (case scan_all a st of None \<Rightarrow> None | Some st \<Rightarrow> scan_all b st)"
  by (induction a arbitrary: st) (auto split: option.splits)

lemma scan_json_escape:
  assumes "code c < 0x80"
  shows "scan_all (json_escape c @ s) (InString, []) = scan_all s (InString, [])"
proof -
  have "scan_all (json_escape c) (InString, []) = Some (InString, [])"
    by (rule ascii_char [OF assms]) code_simp
  then show ?thesis by (simp add: scan_all_append)
qed

lemma json_chars_ascii: "ascii s \<Longrightarrow> json_chars s = concat (map json_escape s)"
  by (induction s) (simp_all add: ascii_def)

lemma scan_json_chars: "ascii s \<Longrightarrow> scan_all (json_chars s @ u) (InString, []) = scan_all u (InString, [])"
  by (induction s) (simp_all add: ascii_def json_chars_ascii scan_json_escape)

lemma getu4_append: "length a = 6 \<Longrightarrow> getu4 (a @ s) = getu4 a"
  by (auto simp: getu4_def numeral_eq_Suc length_Suc_conv)

text \<open>The escapes with a number, read one at a time.\<close>

lemma json_unquote_u:
  assumes "length a = 6" and "getu4 a = Some r" and "\<not> utf16_IsSurrogate r" and "a = CHR 0x5C # CHR ''u'' # b"
  shows "json_unquote (a @ s) = map_option ((@) (utf8_EncodeRune r)) (json_unquote s)"
proof -
  have "getu4 (CHR 0x5C # CHR ''u'' # b @ s) = Some r" using getu4_append [OF assms(1), of s] assms(2,4) by simp
  moreover have "drop 6 (CHR 0x5C # CHR ''u'' # b @ s) = s" using assms(1,4) by simp
  ultimately show ?thesis using assms(3) by (simp add: assms(4) Let_def)
qed

lemma json_unquote_escape:
  assumes "code c < 0x80"
  shows "json_unquote (json_escape c @ s) = map_option ((#) c) (json_unquote s)"
proof (cases "c \<in> {CHR 0x5C, CHR 0x22, CHR 0x0A, CHR 0x0D, CHR 0x09}")
  case True
  then show ?thesis by (auto simp: json_escape_def simple_escape_def)
next
  case False
  show ?thesis
  proof (cases "code c < 0x20 \<or> c \<in> set ''<>&''")
    case True
    let ?b = "[CHR ''0'', CHR ''0'', hex_digit (code c div 16), hex_digit (code c mod 16)]"
    have e: "json_escape c = CHR 0x5C # CHR ''u'' # ?b" using False True by (auto simp: json_escape_def)
    have "code c div 16 < (16 :: nat)" "code c mod 16 < (16 :: nat)" using assms by simp_all
    then have h: "hex_val (hex_digit (code c div 16)) = Some (code c div 16)"
      "hex_val (hex_digit (code c mod 16)) = Some (code c mod 16)" "hex_val (CHR ''0'') = Some 0"
      by (simp_all only: hex_val_digit) (simp add: hex_val_def)
    have g: "getu4 (json_escape c) = Some (code c)" unfolding e by (simp add: getu4_def h)
    have "\<not> utf16_IsSurrogate (code c)" using assms by (simp add: utf16_IsSurrogate_def)
    from json_unquote_u [OF _ g this e, of s] have
      "json_unquote (json_escape c @ s) = map_option ((@) (utf8_EncodeRune (code c))) (json_unquote s)" by (simp add: e)
    moreover have "utf8_EncodeRune (code c) = [c]" using assms by (simp add: utf8_EncodeRune_def Let_def)
    moreover have "(@) [c] = (#) c" by (simp add: fun_eq_iff)
    ultimately show ?thesis by simp
  next
    case plain: False
    have "json_escape c = [c]" using False plain by (auto simp: json_escape_def)
    then show ?thesis using False plain assms by simp
  qed
qed

lemma json_unquote_chars: "ascii s \<Longrightarrow> json_unquote (json_chars s) = Some s"
  by (induction s) (simp_all add: ascii_def json_chars_ascii json_unquote_escape)

lemma json_Marshal_string_Valid: "ascii s \<Longrightarrow> json_Valid (json_Marshal_string s)"
  by (simp add: json_Valid_def json_Marshal_string_def json_space_def scan_begin_value_def scan_json_chars
      scan_end_value_def)

lemma json_string_roundtrip: "ascii s \<Longrightarrow> json_Unmarshal_string (json_Marshal_string s) ptr = (Some s, None)"
  using json_Marshal_string_Valid [of s]
  by (simp add: json_Unmarshal_string_def json_Marshal_string_def json_space_def json_unquote_chars)

end
