(* ===== verification/Issuer_Json.thy ===== *)
theory Issuer_Json
  imports Types Go_Json
begin

text \<open>
  \<^verbatim>\<open>Issuer.MarshalJSON\<close> and \<^verbatim>\<open>Issuer.UnmarshalJSON\<close> of
  \<^verbatim>\<open>storage/types.go\<close>: an issuer is written as its identifier. Issuers that share the
  string behind the pointer are not modelled: each has its own.
\<close>

section \<open>Operations\<close>

definition Issuer_MarshalJSON :: "Issuer \<Rightarrow> string \<times> Issuer" where
  "Issuer_MarshalJSON self = (case Issuer_ID self of (i, self) \<Rightarrow> (json_Marshal_string i, self))"

definition Issuer_UnmarshalJSON :: "string \<Rightarrow> Issuer \<Rightarrow> go_error option \<times> Issuer" where
  "Issuer_UnmarshalJSON data self =
     (case json_Unmarshal_string data (issuer_id self) of (i, err) \<Rightarrow> (err, self\<lparr>issuer_id := i\<rparr>))"

section \<open>Reading back what was written\<close>

lemma ascii_b64_encode: "ascii (b64_encode bs)"
proof -
  have "code (b64_digit n) < 0x80" if "n < 64" for n using that by (auto simp: b64_digit_def)
  then have "\<forall>c \<in> b64_digit ` {..<64} \<union> {CHR ''=''}. code c < 0x80" by auto
  then show ?thesis using set_b64_encode [of bs] unfolding ascii_def list_all_iff by blast
qed

lemma ascii_NewIssuer: "ascii (iss_id (NewIssuer c))"
  by (simp add: iss_id_NewIssuer ascii_b64_encode)

text \<open>
  An issuer read from the JSON of another has that one's identifier from then on, and keeps its own
  key: so it is for every issuer that was made from a certificate.
\<close>

theorem Issuer_JSON_roundtrip:
  assumes "ascii (iss_id i)" and "Issuer_UnmarshalJSON (fst (Issuer_MarshalJSON i)) self = (err, self')"
  shows "err = None \<and> iss_id self' = iss_id i \<and> issuer_spki self' = issuer_spki self"
  using assms
  by (cases "Issuer_ID i") (auto simp: Issuer_MarshalJSON_def Issuer_UnmarshalJSON_def json_string_roundtrip Issuer_ID_def)

theorem Issuer_JSON_of_certificates:
  "iss_id (snd (Issuer_UnmarshalJSON (fst (Issuer_MarshalJSON (NewIssuer c))) self)) = iss_id (NewIssuer c)"
  using Issuer_JSON_roundtrip [OF ascii_NewIssuer, of c self] by (metis prod.collapse)

text \<open>
  What else \<^verbatim>\<open>UnmarshalJSON\<close> does to its receiver: malformed text changes nothing, \<^verbatim>\<open>null\<close>
  takes the identifier away, so that the next one is made from the key, and a value of another type
  is an error that leaves an issuer without identifier with an empty one.
\<close>

theorem Issuer_UnmarshalJSON_malformed:
  assumes "\<not> json_Valid data"
  shows "\<exists>err. Issuer_UnmarshalJSON data self = (Some err, self)"
  using assms by (simp add: Issuer_UnmarshalJSON_def json_Unmarshal_string_def)

theorem Issuer_UnmarshalJSON_null:
  assumes "Issuer_UnmarshalJSON ''null'' self = (err, self')"
  shows "err = None \<and> iss_id self' = Sha256DigestURLEncodedBase64 (issuer_spki self)"
proof -
  have "json_Unmarshal_string ''null'' p = (None, None)" for p
    by (simp add: json_Unmarshal_string_def json_Valid_def json_space_def scan_begin_value_def scan_end_value_def)
  then show ?thesis using assms by (auto simp: Issuer_UnmarshalJSON_def Issuer_ID_def Let_def)
qed

theorem Issuer_UnmarshalJSON_wrong_type:
  "\<exists>err self'. Issuer_UnmarshalJSON '' [1, {}] '' (NewIssuer c) = (Some err, self') \<and> iss_id self' = []"
proof -
  have "json_Unmarshal_string '' [1, {}] '' None = (Some [], Some (JsonError ''type''))"
    by code_simp
  then show ?thesis by (simp add: Issuer_UnmarshalJSON_def NewIssuer_def Issuer_ID_def)
qed

end
