(* ===== verification/Spec2Isabelle.thy ===== *)
theory Spec2Isabelle
  imports Coordinator Fetch_Properties Storage_Statistics Get_Cert Deployment Issuer_Json
begin

text \<open>
  A verification development of \<^verbatim>\<open>ct-mapreduce\<close>, the Go programs that download
  Certificate Transparency logs and record which certificates are known.

  \<^bold>\<open>The program.\<close> \<^verbatim>\<open>cmd/ct-fetch\<close> downloads the entries of logs, one download thread
  per log, puts them into a channel, and a pool of insert threads hands the certificates to a
  certificate database (\<^verbatim>\<open>storage/filesystemdatabase.go\<close>). The database asks a remote cache
  whether a serial was known (\<^verbatim>\<open>knowncertificates.go\<close>), records what it learns of issuers there
  (\<^verbatim>\<open>issuermetadata.go\<close>), and writes certificates and log states to a storage backend. The
  cache is Redis (\<^verbatim>\<open>rediscache.go\<close>) or lives in memory (\<^verbatim>\<open>mockcache.go\<close>); the
  backend is the disk (\<^verbatim>\<open>localdiskbackend.go\<close>), memory (\<^verbatim>\<open>mockbackend.go\<close>) or
  nothing (\<^verbatim>\<open>noopbackend.go\<close>). \<^verbatim>\<open>engine\<close> chooses between them from the settings of
  \<^verbatim>\<open>config\<close>. Processes that share a cache elect a leader through it
  (\<^verbatim>\<open>coordinator\<close>). \<^verbatim>\<open>cmd/storage-statistics\<close> reports what the cache holds,
  \<^verbatim>\<open>cmd/ct-getcert\<close> prints one certificate, \<^verbatim>\<open>telemetry\<close> dumps metrics.

  \<^bold>\<open>Conventions.\<close> \<open>CT_Prelude\<close> has the errors of Go (\<open>go_error\<close>), pairs of a value and an error
  (\<open>ret\<close>), values or errors (\<open>res\<close>), and \<open>outcome\<close> for code that may panic; \<^verbatim>\<open>glog.Fatal\<close>,
  which ends the process, counts as a panic. A Go map is an association list with distinct keys
  (\<open>gomap\<close>), and the unspecified order in which one is visited is an argument \<open>ord\<close> with the
  hypothesis \<open>rearranges ord\<close>. Objects that code shares through pointers live in explicit heaps
  (\<open>kc_heap\<close>, \<open>im_heap\<close>). Operations take their state last and return it updated; the numbers of
  the download (\<open>dl_index\<close>, \<open>lw_StartPos\<close>, \<open>lw_EndPos\<close>) are words of 64 bits, times are
  nanoseconds of UTC and an offset. Definitions keep the names of the source, with a prefix where
  several types have a method of that name (\<open>Mock_\<close>, \<open>Redis_\<close>, \<open>MB_\<close>, \<open>LDB_\<close>, \<open>Noop_\<close>, \<open>fs_\<close>).

  \<^bold>\<open>Theories.\<close>
  \<^item> What the code uses of the Go library: \<open>Go_Strings\<close> (split, join, trim, prefixes), \<open>Go_Encoding\<close>
    (base64, hexadecimal, decimal), \<open>Go_Time\<close> (dates, formats, parsing), \<open>Go_Digest\<close> (SHA-1 and
    SHA-256), \<open>Go_Asn1\<close> (the outer layers of a certificate), \<open>Go_Path\<close>, \<open>Go_Pem\<close>, \<open>Go_Strconv\<close>
    (numbers, booleans, durations), \<open>Go_Json\<close> (strings, and the scanner of JSON), \<open>Go_Files\<close> (a tree of files and the calls of
    \<^verbatim>\<open>os\<close> and \<^verbatim>\<open>filepath\<close> on it). Their lemmas are the round trips and the frame
    rules that the components need.
  \<^item> \<open>Types\<close>: \<^verbatim>\<open>storage/types.go\<close> but for its interfaces. Each codec of serials, dates and
    identifiers has its round trip; where a reader panics or differs from the writer is a property.
    \<open>Issuer_Json\<close>: the JSON of issuers, which is read back for identifiers of ASCII characters.
  \<^item> \<open>Cache_Interface\<close>: \<^verbatim>\<open>RemoteCache\<close> as a record of operations and the locale
    \<open>remote_cache\<close> of what its clients rely on: sets under keys, which vanish as a whole when a key
    may expire. \<open>Known_Certificates\<close> and \<open>Issuer_Metadata\<close> prove their lemmas in it. \<open>Mock_Cache\<close> models
    the in-memory cache, shows that its binary search and sorted insertion refine insertion into a
    set, and interprets the locale. \<open>Redis_Cache\<close> models the client of Redis over a parameter for the
    library, with every error path; from the documented behaviour of a server (\<open>redis_server\<close>) it
    derives the same locale, and \<open>Redis_Model\<close> has a server in memory that is one.
  \<^item> \<open>Known_Certificates\<close>, \<open>Issuer_Metadata\<close>: a serial is unknown once only, what is listed is what
    was recorded, and what is remembered is published.
  \<^item> \<open>Storage_Backends\<close>: \<^verbatim>\<open>StorageBackend\<close> as a record, the in-memory and the empty
    backend, and the locales of a backend that keeps certificates (\<open>pem_store\<close>) and of one that also
    lists them (\<open>listing_backend\<close>), interpreted on the in-memory backend; \<open>pem_store\<close> also on the disk
    in \<open>Local_Disk\<close>, which models every operation of \<^verbatim>\<open>localdiskbackend.go\<close> on the tree of files.
    \<open>Backend_Tests\<close>: the tests that all backends share, \<^verbatim>\<open>storagebackend_tests.go\<close>, as functions
    of a backend; a backend that keeps log states (\<open>log_state_backend\<close>, interpreted on memory and on a
    disk without faults) passes the one of log states, and the others pass or fail as shown.
  \<^item> \<open>Filesystem_Database\<close>, \<open>Database_Properties\<close>: \<^verbatim>\<open>filesystemdatabase.go\<close>. The invariant
    \<open>db_inv\<close> says that what the cache records as known is in the backend with its issuer; stores
    of any sequence keep it, and the error paths show what a failure leaves behind.
    \<open>Lawful_Database\<close>: the database over any cache and backend that keep their contracts
    (\<open>lawful_stores\<close>, interpreted on memory and on Redis with the local disk): whatever expires, what
    is recorded has its text, the PEM of a certificate with that key (\<open>text_of\<close>). \<open>Deployment\<close>: over
    Redis and a disk in good order (\<open>in_order\<close>) every store succeeds, and while nothing expires
    (\<open>in_time\<close>) the sets of Redis gain exactly the serials stored; \<open>Disk_Writes\<close> has the lemmas on
    writes to a disk without faults.
  \<^item> \<open>Log_Json\<close>: the contract of the JSON encoding of log states (\<open>codec_laws\<close>) and an instance.
    \<open>Config\<close>, \<open>Telemetry\<close>, \<open>Engine\<close>, \<open>Get_Cert\<close>: the packages of these names. \<open>Storage_Statistics\<close>:
    the report as a value, summed up over a cache in which nothing expires (\<open>steady_cache\<close>).
  \<^item> \<open>Coordinator\<close>: \<^verbatim>\<open>AwaitLeader\<close>, \<^verbatim>\<open>SendStart\<close>, \<^verbatim>\<open>AwaitStart\<close> with their
    background renewals over a cache with leases (\<open>lease_cache\<close>), and interleaved processes: who leads is agreed while the lease
    is kept, followers start after the signal, and two leaders exist when the lease lapses.
  \<^item> \<open>CT_Fetch\<close>: \<^verbatim>\<open>CertDatabase\<close>, the filter, an insert thread's work on one entry,
    \<^verbatim>\<open>NewLogWorker\<close>, \<^verbatim>\<open>saveState\<close> and the download loop as a machine whose program
    counter stands at its request or in its \<^verbatim>\<open>select\<close>. \<open>Cert_Database\<close>: the locales
    \<open>cert_database\<close> and \<open>reliable_database\<close> of what the program relies on, interpreted on the
    filesystem database over in-memory stores. \<open>Log_Positions\<close>: which operations change the state
    that is loaded for a log (\<open>log_database\<close>). \<open>Log_Sync\<close>: one log, its download, the channel and
    the insert threads as a step relation. The label of an insertion shows the time that the filter
    read from the clock, so that \<open>handled\<close> says of an entry that it was inserted and that its
    certificate is stored unless the filter drops it at that time, and \<open>genuine\<close> that the texts of the
    database changed in no other way; the invariant \<open>sync_inv\<close> accounts for every entry. \<open>Sync_Progress\<close>: a potential that productive steps lower, and progress. \<open>Sync_Properties\<close>:
    completeness, no gap, termination, resumption.
  \<^item> \<open>Fetch_Process\<close>: the process that \<^verbatim>\<open>main\<close> sets up, with the pool of insert threads, a
    download thread per log, the polling, the wait groups, the display and the exit. A step of a
    download is one of \<open>Log_Sync\<close> on the log's part of the process; \<open>log_view\<close> and \<open>log_back\<close> take that
    part out and put it back, and model no code of their own. \<open>Fetch_Shutdown\<close>: the order
    in which its parts stop (\<open>shutdown_ok\<close>) and where submitted entries are. \<open>Fetch_Logs\<close>: the
    invariant of the process for any number of logs that poll or not (\<open>fleet_inv\<close>).
    \<open>Fetch_Simulation\<close>: with one log the process simulates \<open>Log_Sync\<close>, and it can always come to its
    exit. \<open>Fetch_Properties\<close>: the properties of the process.

  \<^bold>\<open>Bounds and fuel.\<close> Positions of a log lie below \<open>2 ^ 63\<close>, the range of the signed numbers that
  they are converted to; \<open>saveState\<close> refuses the others. The channel has room for \<open>16384\<close> entries
  (\<open>chan_room\<close>). Years have four digits where a date is printed and read back. The polling loop of
  \<^verbatim>\<open>AwaitStart\<close> is given a number of polls (\<open>await_start_loop\<close>); that enough of them return is
  proved from the moment the leader has sent its signal. All other loops are functions that HOL has
  shown to terminate or steps of a relation, whose termination is a property. A server is honest in
  that its leaves are those of one log; how many it sends, when it fails, when tickers fire and when
  signals come is open.

  \<^bold>\<open>Parameters.\<close> Third-party code: the client of logs and the decoding of entries
  (\<open>ct_library\<close>, \<open>log_services\<close>, \<open>getcert_library\<close>), certificate parsing, the Redis client
  (\<open>redis_client\<close>), \<^verbatim>\<open>gcache\<close> (\<open>gcache_laws\<close>), the reader of \<^verbatim>\<open>.ini\<close> files,
  \<^verbatim>\<open>go-metrics\<close>; and of the Go library \<^verbatim>\<open>url.Parse\<close> and the JSON encoding of log
  states. The theorems with such hypotheses have witnesses on concrete instances.

  \<^bold>\<open>Not modelled.\<close> Metrics that are counted, log messages, progress bars and the serving of HTTP
  (the status that the health handler answers is modelled), since they do not come back into the
  program; permissions and symbolic links of files; mutexes, whose critical sections are single
  steps; goroutines that only wait, such as the one that logs how many entries remain.
\<close>

end
